(* ===== verification/Coord_Prelude.thy ===== *)
theory Coord_Prelude
  imports Main "HOL-Library.Word" "HOL-Library.AList" "HOL-Library.Sublist"
begin

text \<open>
  Shared vocabulary of the development: machine-integer and byte types, Rust's
  \<^verbatim>\<open>Result\<close>, \<^verbatim>\<open>Ordering\<close> and \<^verbatim>\<open>Iterator::max_by\<close>, the
  \<^verbatim>\<open>str\<close> functions the code uses (\<^verbatim>\<open>trim\<close>, \<^verbatim>\<open>trim_start_matches\<close>,
  \<^verbatim>\<open>to_ascii_lowercase\<close>), and the generic lemmas and named collections the
  component theories rely on.

  A Rust \<^verbatim>\<open>String\<close> is a list of UTF-8 bytes (\<open>string\<close>), a \<^verbatim>\<open>Vec<u8>\<close>
  or \<^verbatim>\<open>[u8; N]\<close> is a \<open>byte list\<close>; a \<^verbatim>\<open>Result<T, E>\<close> is \<open>E + T\<close> with
  \<open>Inl\<close> for the error.
\<close>

section \<open>Types\<close>

type_synonym byte = "8 word"
type_synonym u8 = "8 word"
type_synonym u32 = "32 word"
type_synonym u64 = "64 word"
type_synonym i64 = "64 word"
type_synonym bytes = "byte list"

text \<open>A \<^verbatim>\<open>uuid::Uuid\<close> is a wrapper around its 16 bytes, which \<^verbatim>\<open>as_bytes\<close> reads.\<close>

datatype uuid = Uuid (uuid_as_bytes: bytes)

text \<open>A libp2p \<^verbatim>\<open>PeerId\<close> and \<^verbatim>\<open>Multiaddr\<close>: opaque values compared for equality only.\<close>

datatype peer_id = PeerId bytes

datatype multiaddr = Multiaddr string

text \<open>Rust's \<^verbatim>\<open>std::cmp::Ordering\<close>.\<close>

datatype ordering = Less | Equal | Greater

section \<open>Collections of rewrite rules\<close>

named_theorems sign_simps "definitions of sign and verify on the signed artefacts"
named_theorems db_simps "definitions of the SQL statements"
named_theorems loop_simps "definitions of the event-loop handlers"

section \<open>Results and arrays\<close>

definition is_ok :: "'e + 'a \<Rightarrow> bool" where
  "is_ok r = (case r of Inl _ \<Rightarrow> False | Inr _ \<Rightarrow> True)"

lemma is_ok_simps [simp]: "is_ok (Inr x)" "\<not> is_ok (Inl e)"
  by (simp_all add: is_ok_def)

lemma is_ok_iff: "is_ok r \<longleftrightarrow> (\<exists>x. r = Inr x)"
  by (cases r) simp_all

definition zeros32 :: bytes where
  "zeros32 = replicate 32 0"

lemma length_zeros32 [simp]: "length zeros32 = 32"
  by (simp add: zeros32_def)

text \<open>
  Collecting pairs into a \<^verbatim>\<open>HashMap\<close> is \<open>map_of\<close> of the reversed list (the last entry of a
  key stays); without repeated keys the order does not matter.
\<close>

lemma map_of_rev_distinct: "distinct (map fst xs) \<Longrightarrow> map_of (rev xs) = map_of xs"
  by (metis distinct_rev map_of_inject_set rev_map set_rev)

section \<open>Comparison of primitive integers\<close>

definition cmp_nat :: "nat \<Rightarrow> nat \<Rightarrow> ordering" where
  "cmp_nat a b = (if a < b then Less else if a = b then Equal else Greater)"

section \<open>Iterator::max_by\<close>

text \<open>
  Rust's \<^verbatim>\<open>max_by\<close> folds from the left and keeps the accumulated element only when the
  comparison says \<^verbatim>\<open>Greater\<close>, so the last of several maximal elements is returned.
\<close>

fun max_by_from :: "('a \<Rightarrow> 'a \<Rightarrow> ordering) \<Rightarrow> 'a \<Rightarrow> 'a list \<Rightarrow> 'a" where
  "max_by_from cmp x [] = x"
| "max_by_from cmp x (y # ys) =
     max_by_from cmp (case cmp x y of Greater \<Rightarrow> x | _ \<Rightarrow> y) ys"

fun max_by :: "('a \<Rightarrow> 'a \<Rightarrow> ordering) \<Rightarrow> 'a list \<Rightarrow> 'a option" where
  "max_by cmp [] = None"
| "max_by cmp (x # xs) = Some (max_by_from cmp x xs)"

lemma max_by_from_in: "max_by_from cmp x xs \<in> insert x (set xs)"
proof (induction xs arbitrary: x)
  case Nil
  then show ?case by simp
next
  case (Cons y ys)
  show ?case
    using Cons.IH [of "case cmp x y of Greater \<Rightarrow> x | _ \<Rightarrow> y"]
    by (auto split: ordering.splits)
qed

lemma max_by_in:
  assumes "max_by cmp xs = Some w"
  shows "w \<in> set xs"
proof (cases xs)
  case (Cons a as)
  then show ?thesis using assms max_by_from_in [of cmp a as] by auto
qed (use assms in simp)

lemma max_by_None [simp]: "max_by cmp xs = None \<longleftrightarrow> xs = []"
  by (cases xs) auto

text \<open>
  The contract of a comparison function on a carrier: it never says that \<open>a\<close> is both
  above and below \<open>b\<close>, and "not below" is transitive. On such a carrier \<open>max_by\<close>
  returns an element no other element beats.
\<close>

locale comparison =
  fixes ok :: "'a \<Rightarrow> bool"
    and cmp :: "'a \<Rightarrow> 'a \<Rightarrow> ordering"
  assumes cmp_refl: "ok a \<Longrightarrow> cmp a a = Equal"
    and cmp_swap: "ok a \<Longrightarrow> ok b \<Longrightarrow> cmp a b = Greater \<longleftrightarrow> cmp b a = Less"
    and cmp_trans: "ok a \<Longrightarrow> ok b \<Longrightarrow> ok c \<Longrightarrow> cmp a b \<noteq> Greater \<Longrightarrow> cmp b c \<noteq> Greater \<Longrightarrow> cmp a c \<noteq> Greater"
begin

lemma max_by_from_upper:
  "ok x \<Longrightarrow> \<forall>y\<in>set xs. ok y \<Longrightarrow> y \<in> insert x (set xs) \<Longrightarrow> cmp y (max_by_from cmp x xs) \<noteq> Greater"
proof (induction xs arbitrary: x y)
  case Nil
  then show ?case by (simp add: cmp_refl)
next
  case (Cons z zs)
  define x' where "x' = (case cmp x z of Greater \<Rightarrow> x | _ \<Rightarrow> z)"
  let ?w = "max_by_from cmp x' zs"
  have okx': "ok x'"
    using Cons.prems by (simp add: x'_def split: ordering.split)
  have okw: "ok ?w"
    using max_by_from_in [of cmp x' zs] okx' Cons.prems by auto
  have x'w: "cmp x' ?w \<noteq> Greater"
    using Cons.IH [OF okx'] Cons.prems by simp
  have up: "cmp x x' \<noteq> Greater" "cmp z x' \<noteq> Greater"
    using Cons.prems cmp_swap [of x z] cmp_swap [of z x]
    by (auto simp: x'_def cmp_refl split: ordering.splits)
  have step: "cmp u ?w \<noteq> Greater" if "u = x \<or> u = z" for u
    using that up x'w okx' okw Cons.prems cmp_trans [of u x' ?w] by auto
  show ?case
    using Cons.prems Cons.IH [OF okx', of y] step [of y] by (auto simp: x'_def)
qed

theorem max_by_upper:
  assumes "max_by cmp xs = Some w" and "\<forall>y\<in>set xs. ok y" and "y \<in> set xs"
  shows "cmp y w \<noteq> Greater"
  using assms max_by_from_upper by (cases xs) auto

end

section \<open>Invariants of step relations\<close>

text \<open>What a component shows of its step relation: each step keeps the invariant. Then every execution does.\<close>

locale step_invariant =
  fixes step :: "'s \<Rightarrow> 's \<Rightarrow> bool"
    and inv :: "'s \<Rightarrow> bool"
  assumes step_inv: "step s t \<Longrightarrow> inv s \<Longrightarrow> inv t"
begin

theorem reachable_inv: "step\<^sup>*\<^sup>* s t \<Longrightarrow> inv s \<Longrightarrow> inv t"
  by (induction rule: rtranclp_induct) (auto intro: step_inv)

end

text \<open>
  A step relation whose steps keep the invariant under a condition on its parameters, such as the
  contracts of the libraries it calls.
\<close>

locale guarded_invariant =
  fixes guard :: bool
    and step :: "'s \<Rightarrow> 's \<Rightarrow> bool"
    and inv :: "'s \<Rightarrow> bool"
  assumes guarded_step: "guard \<Longrightarrow> step s t \<Longrightarrow> inv s \<Longrightarrow> inv t"

sublocale guarded_invariant \<subseteq> guarded: step_invariant "\<lambda>s t. guard \<and> step s t" inv
  by unfold_locales (auto intro: guarded_step)

context guarded_invariant
begin

theorem reachable_guarded: "guard \<Longrightarrow> step\<^sup>*\<^sup>* s t \<Longrightarrow> inv s \<Longrightarrow> inv t"
  using guarded.reachable_inv [of s t] by simp

end

section \<open>String functions of the standard library\<close>

text \<open>
  Removing prefixes drawn from a list of patterns for as long as one matches: the common core of
  \<^verbatim>\<open>trim_start\<close> (every encoding of a whitespace character) and
  \<^verbatim>\<open>trim_start_matches(p)\<close> (the one pattern \<open>p\<close>).
\<close>

definition match_prefix :: "'a list list \<Rightarrow> 'a list \<Rightarrow> 'a list option" where
  "match_prefix ps s = find (\<lambda>p. p \<noteq> [] \<and> take (length p) s = p) ps"

lemma match_prefix_Some:
  assumes "match_prefix ps s = Some p"
  shows "p \<in> set ps" "p \<noteq> []" "s = p @ drop (length p) s" "length (drop (length p) s) < length s"
proof -
  from assms have p: "p \<in> set ps" "p \<noteq> []" "take (length p) s = p"
    by (auto simp: match_prefix_def find_Some_iff)
  from p show "p \<in> set ps" "p \<noteq> []" by simp_all
  from p(3) show "s = p @ drop (length p) s"
    by (metis append_take_drop_id)
  from p(2,3) have "0 < length s" and "0 < length p" by (cases s; simp)+
  then show "length (drop (length p) s) < length s" by simp
qed

function strip_prefixes :: "'a list list \<Rightarrow> 'a list \<Rightarrow> 'a list" where
  "strip_prefixes ps s =
     (case match_prefix ps s of None \<Rightarrow> s | Some p \<Rightarrow> strip_prefixes ps (drop (length p) s))"
  by pat_completeness auto
termination
  by (relation "measure (\<lambda>(ps, s). length s)") (auto dest: match_prefix_Some(4))

declare strip_prefixes.simps [simp del]

lemma strip_prefixes_unmatched: "match_prefix ps (strip_prefixes ps s) = None"
proof (induction ps s rule: strip_prefixes.induct)
  case (1 ps s)
  show ?case
    using "1.IH" by (subst strip_prefixes.simps) (simp split: option.split)
qed

lemma strip_prefixes_fixed: "match_prefix ps s = None \<Longrightarrow> strip_prefixes ps s = s"
  by (subst strip_prefixes.simps) simp

lemma strip_prefixes_idem: "strip_prefixes ps (strip_prefixes ps s) = strip_prefixes ps s"
  by (rule strip_prefixes_fixed) (rule strip_prefixes_unmatched)

lemma strip_prefixes_suffix: "suffix (strip_prefixes ps s) s"
proof (induction ps s rule: strip_prefixes.induct)
  case (1 ps s)
  show ?case
  proof (cases "match_prefix ps s")
    case None
    then show ?thesis by (simp add: strip_prefixes_fixed)
  next
    case (Some p)
    then have "suffix (strip_prefixes ps (drop (length p) s)) (drop (length p) s)"
      by (rule "1.IH")
    with Some show ?thesis
      by (subst strip_prefixes.simps) (auto intro: suffix_order.trans suffix_drop)
  qed
qed

text \<open>The UTF-8 encodings of the characters with the Unicode property \<^verbatim>\<open>White_Space\<close>.\<close>

definition whitespace :: "string list" where
  "whitespace =
     [[CHR 0x09], [CHR 0x0A], [CHR 0x0B], [CHR 0x0C], [CHR 0x0D], [CHR 0x20],
      [CHR 0xC2, CHR 0x85], [CHR 0xC2, CHR 0xA0], [CHR 0xE1, CHR 0x9A, CHR 0x80],
      [CHR 0xE2, CHR 0x80, CHR 0x80], [CHR 0xE2, CHR 0x80, CHR 0x81],
      [CHR 0xE2, CHR 0x80, CHR 0x82], [CHR 0xE2, CHR 0x80, CHR 0x83],
      [CHR 0xE2, CHR 0x80, CHR 0x84], [CHR 0xE2, CHR 0x80, CHR 0x85],
      [CHR 0xE2, CHR 0x80, CHR 0x86], [CHR 0xE2, CHR 0x80, CHR 0x87],
      [CHR 0xE2, CHR 0x80, CHR 0x88], [CHR 0xE2, CHR 0x80, CHR 0x89],
      [CHR 0xE2, CHR 0x80, CHR 0x8A], [CHR 0xE2, CHR 0x80, CHR 0xA8],
      [CHR 0xE2, CHR 0x80, CHR 0xA9], [CHR 0xE2, CHR 0x80, CHR 0xAF],
      [CHR 0xE2, CHR 0x81, CHR 0x9F], [CHR 0xE3, CHR 0x80, CHR 0x80]]"

definition str_trim_start :: "string \<Rightarrow> string" where
  "str_trim_start s = strip_prefixes whitespace s"

definition str_trim_end :: "string \<Rightarrow> string" where
  "str_trim_end s = rev (strip_prefixes (map rev whitespace) (rev s))"

definition str_trim :: "string \<Rightarrow> string" where
  "str_trim s = str_trim_end (str_trim_start s)"

definition str_trim_start_matches :: "string \<Rightarrow> string \<Rightarrow> string" where
  "str_trim_start_matches p s = strip_prefixes [p] s"

definition ascii_lower :: "char \<Rightarrow> char" where
  "ascii_lower c =
     (if of_char c \<in> {65 .. 90 :: nat} then char_of (of_char c + (32 :: nat)) else c)"

definition to_ascii_lowercase :: "string \<Rightarrow> string" where
  "to_ascii_lowercase s = map ascii_lower s"

lemma ascii_lower_idem [simp]: "ascii_lower (ascii_lower c) = ascii_lower c"
  by (simp add: ascii_lower_def)

lemma to_ascii_lowercase_idem [simp]: "to_ascii_lowercase (to_ascii_lowercase s) = to_ascii_lowercase s"
  by (simp add: to_ascii_lowercase_def)

text \<open>Decimal notation of numbers in messages.\<close>

fun dec :: "nat \<Rightarrow> string" where
  "dec n = (if n < 10 then [char_of (48 + n)] else dec (n div 10) @ [char_of (48 + n mod 10)])"

declare dec.simps [simp del]

definition dec_int :: "int \<Rightarrow> string" where
  "dec_int i = (if i < 0 then CHR ''-'' # dec (nat (- i)) else dec (nat i))"

end
