(* ===== verification/F32.thy ===== *)
theory F32
  imports Complex_Main Coord_Prelude
begin

text \<open>
  The part of IEEE 754 binary32 (Rust's \<^verbatim>\<open>f32\<close>) that the auction's scoring uses:
  conversion from integers and decimal literals, addition, multiplication, reciprocal, ordering
  and \<^verbatim>\<open>clamp\<close>, each rounding to nearest with ties to even, with gradual underflow and
  overflow to infinity. A finite value is the rational it denotes; the sign of zero is dropped,
  which no operation used here can observe (the one division is guarded by a strict
  comparison with zero).
\<close>

section \<open>Values\<close>

datatype f32 = Fin rat | PInf | NInf | NaN

section \<open>Rounding\<close>

fun ilog2 :: "nat \<Rightarrow> nat" where
  "ilog2 n = (if n < 2 then 0 else Suc (ilog2 (n div 2)))"

declare ilog2.simps [simp del]

text \<open>The binary exponent of a positive rational: \<open>2 powi e \<le> x < 2 powi (e + 1)\<close>.\<close>

definition rat_log2 :: "rat \<Rightarrow> int" where
  "rat_log2 x =
     (let (n, d) = quotient_of x;
          k = int (ilog2 (nat n)) - int (ilog2 (nat d))
      in if 2 powi k \<le> x then k else k - 1)"

definition round_half_even :: "rat \<Rightarrow> int" where
  "round_half_even x =
     (let f = \<lfloor>x\<rfloor>; r = x - of_int f
      in if r < 1 / 2 then f else if 1 / 2 < r then f + 1 else if even f then f else f + 1)"

text \<open>The exponent of the last place: 24 significant bits, never below \<open>2 powi -149\<close>.\<close>

definition ulp_exp :: "rat \<Rightarrow> int" where
  "ulp_exp x = max (rat_log2 x - 23) (- 149)"

definition round_pos :: "rat \<Rightarrow> rat" where
  "round_pos x = of_int (round_half_even (x / 2 powi ulp_exp x)) * 2 powi ulp_exp x"

definition f32_of_rat :: "rat \<Rightarrow> f32" where
  "f32_of_rat x =
     (if x = 0 then Fin 0
      else let y = round_pos \<bar>x\<bar>
           in if 2 ^ 128 \<le> y then (if 0 < x then PInf else NInf) else Fin (sgn x * y))"

section \<open>Operations\<close>

definition f32_of_u64 :: "u64 \<Rightarrow> f32" where
  "f32_of_u64 n = f32_of_rat (of_nat (unat n))"

definition f32_of_u32 :: "u32 \<Rightarrow> f32" where
  "f32_of_u32 n = f32_of_rat (of_nat (unat n))"

fun f32_add :: "f32 \<Rightarrow> f32 \<Rightarrow> f32" where
  "f32_add NaN _ = NaN"
| "f32_add _ NaN = NaN"
| "f32_add (Fin a) (Fin b) = f32_of_rat (a + b)"
| "f32_add PInf NInf = NaN"
| "f32_add NInf PInf = NaN"
| "f32_add PInf _ = PInf"
| "f32_add _ PInf = PInf"
| "f32_add NInf _ = NInf"
| "f32_add _ NInf = NInf"

definition inf_times :: "bool \<Rightarrow> rat \<Rightarrow> f32" where
  "inf_times pos a =
     (if a = 0 then NaN else if (0 < a) = pos then PInf else NInf)"

fun f32_mul :: "f32 \<Rightarrow> f32 \<Rightarrow> f32" where
  "f32_mul NaN _ = NaN"
| "f32_mul _ NaN = NaN"
| "f32_mul (Fin a) (Fin b) = f32_of_rat (a * b)"
| "f32_mul (Fin a) PInf = inf_times True a"
| "f32_mul (Fin a) NInf = inf_times False a"
| "f32_mul PInf (Fin a) = inf_times True a"
| "f32_mul NInf (Fin a) = inf_times False a"
| "f32_mul PInf PInf = PInf"
| "f32_mul NInf NInf = PInf"
| "f32_mul PInf NInf = NInf"
| "f32_mul NInf PInf = NInf"

text \<open>\<open>1.0 / x\<close>, used only where \<open>x > 0.0\<close> has been checked.\<close>

fun f32_recip :: "f32 \<Rightarrow> f32" where
  "f32_recip (Fin a) = (if a = 0 then NaN else f32_of_rat (1 / a))"
| "f32_recip PInf = Fin 0"
| "f32_recip NInf = Fin 0"
| "f32_recip NaN = NaN"

fun f32_partial_cmp :: "f32 \<Rightarrow> f32 \<Rightarrow> ordering option" where
  "f32_partial_cmp NaN _ = None"
| "f32_partial_cmp _ NaN = None"
| "f32_partial_cmp (Fin a) (Fin b) =
     Some (if a < b then Less else if a = b then Equal else Greater)"
| "f32_partial_cmp PInf PInf = Some Equal"
| "f32_partial_cmp NInf NInf = Some Equal"
| "f32_partial_cmp PInf _ = Some Greater"
| "f32_partial_cmp _ PInf = Some Less"
| "f32_partial_cmp NInf _ = Some Less"
| "f32_partial_cmp _ NInf = Some Greater"

definition f32_lt :: "f32 \<Rightarrow> f32 \<Rightarrow> bool" where
  "f32_lt a b \<longleftrightarrow> f32_partial_cmp a b = Some Less"

definition f32_gt :: "f32 \<Rightarrow> f32 \<Rightarrow> bool" where
  "f32_gt a b \<longleftrightarrow> f32_partial_cmp a b = Some Greater"

definition f32_le :: "f32 \<Rightarrow> f32 \<Rightarrow> bool" where
  "f32_le a b \<longleftrightarrow> f32_partial_cmp a b = Some Less \<or> f32_partial_cmp a b = Some Equal"

definition f32_clamp :: "f32 \<Rightarrow> f32 \<Rightarrow> f32 \<Rightarrow> f32" where
  "f32_clamp x lo hi = (if f32_lt x lo then lo else if f32_gt x hi then hi else x)"

section \<open>Facts on the exponent and the rounding\<close>

lemma ilog2_bounds: "0 < n \<Longrightarrow> 2 ^ ilog2 n \<le> n \<and> n < 2 ^ Suc (ilog2 n)"
proof (induction n rule: ilog2.induct)
  case (1 n)
  show ?case
  proof (cases "n < 2")
    case True
    with "1.prems" have "n = 1" by simp
    then show ?thesis by (simp add: ilog2.simps)
  next
    case False
    then have IH: "2 ^ ilog2 (n div 2) \<le> n div 2 \<and> n div 2 < 2 ^ Suc (ilog2 (n div 2))"
      using "1.IH" by simp
    moreover have "ilog2 n = Suc (ilog2 (n div 2))"
      using False by (subst ilog2.simps) simp
    ultimately show ?thesis by auto
  qed
qed

lemma ilog2_bounds_rat:
  assumes "0 < (n::int)"
  shows "(2::rat) ^ ilog2 (nat n) \<le> of_int n" and "of_int n < (2::rat) ^ Suc (ilog2 (nat n))"
proof -
  obtain m where m: "n = int m" "0 < m" using assms by (metis zero_less_imp_eq_int)
  have "rat_of_nat (2 ^ ilog2 m) \<le> of_nat m" "rat_of_nat m < of_nat (2 ^ Suc (ilog2 m))"
    using ilog2_bounds [OF m(2)] by (simp_all only: of_nat_le_iff of_nat_less_iff)
  then show "(2::rat) ^ ilog2 (nat n) \<le> of_int n" "of_int n < (2::rat) ^ Suc (ilog2 (nat n))"
    by (simp_all add: m)
qed

lemma rat_log2_bounds:
  assumes "0 < x"
  shows "2 powi rat_log2 x \<le> x" and "x < 2 powi (rat_log2 x + 1)"
proof -
  obtain n d where nd: "quotient_of x = (n, d)" by (cases "quotient_of x")
  have d: "0 < d" using nd quotient_of_denom_pos by blast
  have x: "x = of_int n / of_int d" using nd quotient_of_div by blast
  with assms d have n: "0 < n" by (simp add: zero_less_divide_iff)
  define a where "a = ilog2 (nat n)"
  define b where "b = ilog2 (nat d)"
  have A: "(2::rat) ^ a \<le> of_int n" "of_int n < (2::rat) ^ Suc a"
    and B: "(2::rat) ^ b \<le> of_int d" "of_int d < (2::rat) ^ Suc b"
    unfolding a_def b_def using ilog2_bounds_rat n d by blast+
  define k where "k = int a - int b"
  have lo: "2 powi (k - 1) \<le> x"
  proof -
    have "2 powi (k - 1) = (2::rat) ^ a / 2 ^ Suc b"
      by (simp add: k_def power_int_diff power_int_minus field_simps flip: power_int_of_nat)
    also have "\<dots> \<le> of_int n / of_int d"
      using A B d n by (intro frac_le) auto
    finally show ?thesis using x by simp
  qed
  have hi: "x < 2 powi (k + 1)"
  proof -
    have "of_int n / of_int d < (2::rat) ^ Suc a / 2 ^ b"
      using A B d n by (intro frac_less) auto
    also have "\<dots> = 2 powi (k + 1)"
      by (simp add: k_def power_int_add power_int_diff power_int_minus field_simps flip: power_int_of_nat)
    finally show ?thesis using x by simp
  qed
  have r: "rat_log2 x = (if 2 powi k \<le> x then k else k - 1)"
    by (simp add: rat_log2_def nd Let_def a_def b_def k_def)
  show "2 powi rat_log2 x \<le> x" using lo by (simp add: r)
  show "x < 2 powi (rat_log2 x + 1)" using hi by (simp add: r)
qed

lemma rat_log2_mono:
  assumes "0 < x" "x \<le> y"
  shows "rat_log2 x \<le> rat_log2 y"
proof (rule ccontr)
  assume "\<not> rat_log2 x \<le> rat_log2 y"
  then have "2 powi (rat_log2 y + 1) \<le> (2::rat) powi rat_log2 x"
    by (intro power_int_increasing) auto
  also have "\<dots> \<le> x" by (rule rat_log2_bounds) (rule assms)
  also have "\<dots> \<le> y" by (rule assms)
  also have "\<dots> < 2 powi (rat_log2 y + 1)"
    using assms by (intro rat_log2_bounds) linarith
  finally show False by simp
qed

lemma round_half_even_int [simp]: "round_half_even (of_int n) = n"
  by (simp add: round_half_even_def Let_def)

lemma round_half_even_bounds: "\<lfloor>x\<rfloor> \<le> round_half_even x" "round_half_even x \<le> \<lfloor>x\<rfloor> + 1"
  by (simp_all add: round_half_even_def Let_def)

lemma round_half_even_mono:
  assumes "x \<le> y"
  shows "round_half_even x \<le> round_half_even y"
proof (cases "\<lfloor>x\<rfloor> = \<lfloor>y\<rfloor>")
  case True
  then show ?thesis using assms
    by (auto simp: round_half_even_def Let_def)
next
  case False
  moreover have "\<lfloor>x\<rfloor> \<le> \<lfloor>y\<rfloor>" using assms by (rule floor_mono)
  ultimately have "\<lfloor>x\<rfloor> + 1 \<le> \<lfloor>y\<rfloor>" by linarith
  then show ?thesis
    using round_half_even_bounds(2) [of x] round_half_even_bounds(1) [of y] by linarith
qed

text \<open>A value at or below a power of two at or above its own last place rounds to at most that power.\<close>

lemma powi_over_powi: "e \<le> k \<Longrightarrow> (2::rat) powi k / 2 powi e = of_int (2 ^ nat (k - e))"
proof -
  assume "e \<le> k"
  then have "(2::rat) powi (k - e) = 2 ^ nat (k - e)" by (simp add: power_int_def)
  then show ?thesis by (simp add: power_int_diff)
qed

lemma round_pos_le_pow:
  assumes "0 < x" "x \<le> 2 powi k" "ulp_exp x \<le> k"
  shows "round_pos x \<le> 2 powi k"
proof -
  have "x / 2 powi ulp_exp x \<le> 2 powi k / 2 powi ulp_exp x"
    using assms by (intro divide_right_mono) auto
  then have "round_half_even (x / 2 powi ulp_exp x) \<le> 2 ^ nat (k - ulp_exp x)"
    using round_half_even_mono [of "x / 2 powi ulp_exp x" "of_int (2 ^ nat (k - ulp_exp x))"]
    by (simp only: powi_over_powi [OF assms(3)] round_half_even_int)
  then have "of_int (round_half_even (x / 2 powi ulp_exp x)) \<le> (2::rat) powi k / 2 powi ulp_exp x"
    by (simp only: powi_over_powi [OF assms(3)] of_int_le_iff)
  then show ?thesis by (simp add: round_pos_def field_simps)
qed

lemma round_pos_ge_pow:
  assumes "0 < x" "2 powi k \<le> x" "ulp_exp x \<le> k"
  shows "2 powi k \<le> round_pos x"
proof -
  have "2 powi k / 2 powi ulp_exp x \<le> x / 2 powi ulp_exp x"
    using assms by (intro divide_right_mono) auto
  then have "2 ^ nat (k - ulp_exp x) \<le> round_half_even (x / 2 powi ulp_exp x)"
    using round_half_even_mono [of "of_int (2 ^ nat (k - ulp_exp x))" "x / 2 powi ulp_exp x"]
    by (simp only: powi_over_powi [OF assms(3)] round_half_even_int)
  then have "(2::rat) powi k / 2 powi ulp_exp x \<le> of_int (round_half_even (x / 2 powi ulp_exp x))"
    by (simp only: powi_over_powi [OF assms(3)] of_int_le_iff)
  then show ?thesis by (simp add: round_pos_def field_simps)
qed

lemma round_pos_nonneg: "0 < x \<Longrightarrow> 0 \<le> round_pos x"
  using round_half_even_mono [of "of_int 0" "x / 2 powi ulp_exp x"]
  unfolding round_half_even_int by (simp add: round_pos_def)

lemma round_pos_mono:
  assumes "0 < x" "x \<le> y"
  shows "round_pos x \<le> round_pos y"
proof (cases "ulp_exp x = ulp_exp y")
  case True
  have "round_half_even (x / 2 powi ulp_exp y) \<le> round_half_even (y / 2 powi ulp_exp y)"
    using assms by (intro round_half_even_mono divide_right_mono) auto
  then show ?thesis by (simp add: round_pos_def True mult_right_mono)
next
  case False
  have y: "0 < y" using assms by linarith
  define k where "k = max (rat_log2 x + 1) (- 149)"
  have "rat_log2 x \<le> rat_log2 y" using assms by (rule rat_log2_mono)
  with False have k: "k \<le> rat_log2 y" "ulp_exp y = rat_log2 y - 23" "ulp_exp x \<le> k"
    by (auto simp: ulp_exp_def k_def max_def split: if_splits)
  have "x \<le> 2 powi (rat_log2 x + 1)"
    using rat_log2_bounds(2) [OF assms(1)] by simp
  also have "\<dots> \<le> 2 powi k"
    by (intro power_int_increasing) (auto simp: k_def)
  finally have "round_pos x \<le> 2 powi k"
    using assms(1) k(3) by (intro round_pos_le_pow)
  also have "\<dots> \<le> 2 powi rat_log2 y"
    using k(1) by (intro power_int_increasing) auto
  also have "\<dots> \<le> round_pos y"
    using y k by (intro round_pos_ge_pow rat_log2_bounds) auto
  finally show ?thesis .
qed

section \<open>Order\<close>

lemma f32_le_refl [simp]: "f32_le a a \<longleftrightarrow> a \<noteq> NaN"
  by (cases a) (simp_all add: f32_le_def)

lemma f32_le_trans: "f32_le a b \<Longrightarrow> f32_le b c \<Longrightarrow> f32_le a c"
  by (cases a; cases b; cases c) (auto simp: f32_le_def split: if_splits)

lemma f32_le_Fin [simp]: "f32_le (Fin a) (Fin b) \<longleftrightarrow> a \<le> b"
  by (auto simp: f32_le_def)

lemma f32_le_inf [simp]:
  "f32_le a PInf \<longleftrightarrow> a \<noteq> NaN" "f32_le NInf a \<longleftrightarrow> a \<noteq> NaN"
  "f32_le PInf a \<longleftrightarrow> a = PInf" "f32_le a NInf \<longleftrightarrow> a = NInf"
  by (cases a; simp add: f32_le_def)+

lemma f32_le_NaN [simp]: "\<not> f32_le NaN a" "\<not> f32_le a NaN"
  by (cases a; simp add: f32_le_def)+

lemma f32_of_rat_not_NaN [simp]: "f32_of_rat x \<noteq> NaN"
  by (simp add: f32_of_rat_def Let_def)

lemma f32_of_rat_mono:
  assumes "x \<le> y"
  shows "f32_le (f32_of_rat x) (f32_of_rat y)"
proof -
  consider "0 < x" | "x \<le> 0" "0 \<le> y" | "y < 0" using assms by linarith
  then show ?thesis
  proof cases
    case 1
    then show ?thesis
      using assms round_pos_mono [of x y] by (auto simp: f32_of_rat_def Let_def)
  next
    case 2
    then show ?thesis
      using round_pos_nonneg [of y] round_pos_nonneg [of "- x"]
      by (auto simp: f32_of_rat_def Let_def sgn_if intro: order.trans [of _ 0])
  next
    case 3
    then show ?thesis
      using assms round_pos_mono [of "- y" "- x"] by (auto simp: f32_of_rat_def Let_def)
  qed
qed

lemma f32_of_rat_0 [simp]: "f32_of_rat 0 = Fin 0"
  by (simp add: f32_of_rat_def)

lemma f32_of_rat_1: "f32_of_rat 1 = Fin 1"
  by code_simp

text \<open>Values in the unit interval stay finite and in the unit interval.\<close>

lemma f32_of_rat_unit:
  assumes "0 \<le> x" "x \<le> 1"
  obtains y where "f32_of_rat x = Fin y" "0 \<le> y" "y \<le> 1"
proof -
  have "f32_le (Fin 0) (f32_of_rat x)" "f32_le (f32_of_rat x) (Fin 1)"
    using f32_of_rat_mono [OF assms(1)] f32_of_rat_mono [OF assms(2)] by (simp_all add: f32_of_rat_1)
  then show thesis using that by (cases "f32_of_rat x") auto
qed

text \<open>Rounding a number whose binary exponent is known.\<close>

lemma rat_log2_eq:
  assumes "2 powi k \<le> x" "x < 2 powi (k + 1)"
  shows "rat_log2 x = k"
proof (rule ccontr)
  have x: "0 < x" using assms(1) by (rule less_le_trans [rotated]) simp
  assume "rat_log2 x \<noteq> k"
  then consider "rat_log2 x + 1 \<le> k" | "k + 1 \<le> rat_log2 x" by linarith
  then show False
  proof cases
    case 1
    then have "2 powi (rat_log2 x + 1) \<le> (2::rat) powi k" by (intro power_int_increasing) auto
    then show False using rat_log2_bounds(2) [OF x] assms(1) by linarith
  next
    case 2
    then have "2 powi (k + 1) \<le> (2::rat) powi rat_log2 x" by (intro power_int_increasing) auto
    then show False using rat_log2_bounds(1) [OF x] assms(2) by linarith
  qed
qed

lemma f32_of_rat_eqI:
  assumes "2 powi k \<le> x" "x < 2 powi (k + 1)" "- 126 \<le> k" "k < 127"
    and "round_half_even (x / 2 powi (k - 23)) = m"
  shows "f32_of_rat x = Fin (of_int m * 2 powi (k - 23))"
proof -
  have x: "0 < x" using assms(1) by (rule less_le_trans [rotated]) simp
  have u: "ulp_exp x = k - 23"
    using assms(3) rat_log2_eq [OF assms(1,2)] by (simp add: ulp_exp_def)
  have r: "round_pos x = of_int m * 2 powi (k - 23)"
    by (simp add: round_pos_def u assms(5))
  have "round_pos x \<le> 2 powi (k + 1)"
    using x assms(2) u by (intro round_pos_le_pow) auto
  also have "\<dots> < (2::rat) powi 128"
    using assms(4) by (intro power_int_strict_increasing) auto
  finally show ?thesis using x r by (simp add: f32_of_rat_def)
qed

section \<open>Monotonicity of the operations\<close>

lemma f32_add_mono:
  assumes "f32_le a a'" "f32_le b b'" "f32_add a b \<noteq> NaN" "f32_add a' b' \<noteq> NaN"
  shows "f32_le (f32_add a b) (f32_add a' b')"
  using assms
  by (cases a; cases b; cases a'; cases b') (auto intro: f32_of_rat_mono)

lemma f32_mul_mono:
  assumes "0 < c" "f32_le a b"
  shows "f32_le (f32_mul (Fin c) a) (f32_mul (Fin c) b)"
  using assms
  by (cases a; cases b) (auto simp: inf_times_def intro: f32_of_rat_mono mult_left_mono)

lemma f32_mul_not_NaN: "0 < c \<Longrightarrow> a \<noteq> NaN \<Longrightarrow> f32_mul (Fin c) a \<noteq> NaN"
  by (cases a) (simp_all add: inf_times_def)

lemma f32_add_Fin_not_NaN: "b \<noteq> NaN \<Longrightarrow> f32_add (Fin a) b \<noteq> NaN" "b \<noteq> NaN \<Longrightarrow> f32_add b (Fin a) \<noteq> NaN"
  by (cases b; simp)+

text \<open>On values that are not NaN, \<open>partial_cmp\<close> is the comparison of a total preorder.\<close>

lemma f32_partial_cmp_not_NaN: "a \<noteq> NaN \<Longrightarrow> b \<noteq> NaN \<Longrightarrow> \<exists>c. f32_partial_cmp a b = Some c"
  by (cases a; cases b) auto

lemma f32_partial_cmp_Some:
  assumes "a \<noteq> NaN" "b \<noteq> NaN"
  shows "f32_partial_cmp a b =
    Some (if f32_le a b then if f32_le b a then Equal else Less else Greater)"
  using assms by (cases a; cases b) auto

end
