(* ===== verification/Wire_Types.thy ===== *)
theory Wire_Types
  imports F32
begin

text \<open>
  The wire-format types shared by the coordinator, the nodes and the clients
  (\<^verbatim>\<open>src/pinaivu-protocol/src/types.rs\<close>, \<^verbatim>\<open>lib.rs\<close>,
  \<^verbatim>\<open>mesh/inference_proto.rs\<close>, \<^verbatim>\<open>mesh/topics.rs\<close>). Field names carry a short
  prefix of their struct, because record fields are global names.
\<close>

section \<open>Identifiers and amounts\<close>

datatype node_peer_id = NodePeerId (peer_str: string)

datatype nanox = NanoX (nanox_amount: u64)

datatype privacy_level = Standard | Private | Fragmented | Maximum

datatype client_session_intent = New | Continue

definition default_session_intent :: client_session_intent where
  "default_session_intent = New"

section \<open>Requests, bids, capabilities\<close>

record inference_request =
  ireq_request_id :: uuid
  ireq_session_id :: uuid
  ireq_model :: string
  ireq_privacy :: privacy_level
  ireq_session_intent :: client_session_intent

record inference_bid =
  bid_request_id :: uuid
  bid_node_peer_id :: node_peer_id
  bid_price_per_1k :: nanox
  bid_latency_ms :: u32
  bid_reputation :: f32
  bid_http_endpoint :: string
  bid_payout_address :: string
  bid_node_x25519_pubkey :: "bytes option"

record node_capabilities =
  caps_peer_id :: node_peer_id
  caps_models :: "string list"
  caps_max_concurrent_jobs :: u32

section \<open>Verification errors\<close>

datatype verify_error = InvalidPublicKey | InvalidSignatureBytes | SignatureMismatch

section \<open>Gossipsub topics\<close>

definition INFERENCE_ANY :: string where
  "INFERENCE_ANY = ''/pinaivu/inference/any/1.0.0''"

definition BIDS :: string where
  "BIDS = ''/pinaivu/bids/1.0.0''"

definition ANNOUNCE :: string where
  "ANNOUNCE = ''/pinaivu/announce/1.0.0''"

definition REPUTATION :: string where
  "REPUTATION = ''/pinaivu/reputation/1.0.0''"

definition inference_for_model :: "string \<Rightarrow> string" where
  "inference_for_model model_id = ''/pinaivu/inference/'' @ model_id @ ''/1.0.0''"

text \<open>The four marketplace topics are pairwise different, so the topic of a message decides its handler.\<close>

lemma topics_distinct: "distinct [INFERENCE_ANY, BIDS, ANNOUNCE, REPUTATION]"
  by (simp add: INFERENCE_ANY_def BIDS_def ANNOUNCE_def REPUTATION_def)

lemma inference_for_model_inj: "inference_for_model m = inference_for_model n \<longleftrightarrow> m = n"
  by (simp add: inference_for_model_def)

lemma inference_for_model_any: "inference_for_model ''any'' = INFERENCE_ANY"
  by (simp add: inference_for_model_def INFERENCE_ANY_def)

end
