(* ===== verification/Signing.thy ===== *)
theory Signing
  imports Wire_Types
begin

text \<open>
  Ed25519 as the code uses it (crate \<^verbatim>\<open>ed25519-dalek\<close>, not part of the repository) and the
  interface every signed protocol artefact offers: a message computed from its fields, an embedded
  public key and an embedded signature. The lemmas of the interface are proved once and
  instantiated for the proof, the dispatch token, the routing receipt, the completion ack and
  the recruit request.
\<close>

section \<open>The signature scheme\<close>

text \<open>
  \<open>vk_of k\<close>: \<^verbatim>\<open>key.verifying_key().to_bytes()\<close>; \<open>vk_ok b\<close>:
  \<^verbatim>\<open>VerifyingKey::from_bytes(b)\<close> succeeds; \<open>sig_ok s\<close>: \<^verbatim>\<open>Signature::from_slice(s)\<close>
  succeeds; \<open>ed_sign k m\<close>: \<^verbatim>\<open>key.sign(m).to_bytes()\<close>; \<open>ed_verify pk m s\<close>:
  \<^verbatim>\<open>vk.verify(m, s)\<close> is \<^verbatim>\<open>Ok\<close>.
\<close>

record ed25519 =
  vk_of :: "bytes \<Rightarrow> bytes"
  vk_ok :: "bytes \<Rightarrow> bool"
  sig_ok :: "bytes \<Rightarrow> bool"
  ed_sign :: "bytes \<Rightarrow> bytes \<Rightarrow> bytes"
  ed_verify :: "bytes \<Rightarrow> bytes \<Rightarrow> bytes \<Rightarrow> bool"

text \<open>Correctness: what a key signs verifies under the matching public key, and both decode.\<close>

definition ed25519_correct :: "ed25519 \<Rightarrow> bool" where
  "ed25519_correct E \<longleftrightarrow>
     (\<forall>k. vk_ok E (vk_of E k)) \<and> (\<forall>k m. sig_ok E (ed_sign E k m)) \<and>
     (\<forall>k m. ed_verify E (vk_of E k) m (ed_sign E k m))"

text \<open>
  Unforgeability on a set of messages in play: the signature of one of them does not verify for
  another. (A statement over all messages would be false of any scheme with fixed-size
  signatures.)
\<close>

definition no_forgery :: "ed25519 \<Rightarrow> bytes \<Rightarrow> bytes set \<Rightarrow> bool" where
  "no_forgery E k M \<longleftrightarrow>
     (\<forall>m\<in>M. \<forall>m'\<in>M. ed_verify E (vk_of E k) m' (ed_sign E k m) \<longrightarrow> m' = m)"

text \<open>The three checks of every \<^verbatim>\<open>verify\<close>, in the order the code makes them.\<close>

definition verify_sig :: "ed25519 \<Rightarrow> bytes \<Rightarrow> bytes \<Rightarrow> bytes \<Rightarrow> verify_error + unit" where
  "verify_sig E pk m s =
     (if \<not> vk_ok E pk then Inl InvalidPublicKey
      else if \<not> sig_ok E s then Inl InvalidSignatureBytes
      else if \<not> ed_verify E pk m s then Inl SignatureMismatch
      else Inr ())"

lemma verify_sig_ok_iff:
  "verify_sig E pk m s = Inr () \<longleftrightarrow> vk_ok E pk \<and> sig_ok E s \<and> ed_verify E pk m s"
  by (simp add: verify_sig_def)

lemma verify_sig_signed:
  "ed25519_correct E \<Longrightarrow> verify_sig E (vk_of E k) m (ed_sign E k m) = Inr ()"
  by (simp add: verify_sig_def ed25519_correct_def)

section \<open>The interface of a signed artefact\<close>

locale signed_artefact =
  fixes msg :: "'a \<Rightarrow> bytes"
    and get_pk :: "'a \<Rightarrow> bytes"
    and get_sig :: "'a \<Rightarrow> bytes"
    and set_pk :: "bytes \<Rightarrow> 'a \<Rightarrow> 'a"
    and set_sig :: "bytes \<Rightarrow> 'a \<Rightarrow> 'a"
    and sign :: "ed25519 \<Rightarrow> bytes \<Rightarrow> 'a \<Rightarrow> 'a"
    and verify :: "ed25519 \<Rightarrow> 'a \<Rightarrow> verify_error + unit"
  assumes msg_set_sig: "msg (set_sig s a) = msg a"
    and get_pk_set_pk: "get_pk (set_pk p a) = p"
    and get_pk_set_sig: "get_pk (set_sig s a) = get_pk a"
    and get_sig_set_sig: "get_sig (set_sig s a) = s"
    and set_pk_set_sig: "set_pk p (set_sig s a) = set_sig s (set_pk p a)"
    and set_pk_set_pk: "set_pk p (set_pk q a) = set_pk p a"
    and set_sig_set_sig: "set_sig s (set_sig t a) = set_sig s a"
    and sign_eq: "sign E k a =
      set_sig (ed_sign E k (msg (set_pk (vk_of E k) a))) (set_pk (vk_of E k) a)"
    and verify_eq: "verify E a = verify_sig E (get_pk a) (msg a) (get_sig a)"
begin

lemma get_pk_sign: "get_pk (sign E k a) = vk_of E k"
  by (simp add: sign_eq get_pk_set_sig get_pk_set_pk)

lemma msg_sign: "msg (sign E k a) = msg (set_pk (vk_of E k) a)"
  by (simp add: sign_eq msg_set_sig)

lemma get_sig_sign: "get_sig (sign E k a) = ed_sign E k (msg (sign E k a))"
  by (simp add: msg_sign) (simp add: sign_eq get_sig_set_sig)

theorem sign_verify: "ed25519_correct E \<Longrightarrow> verify E (sign E k a) = Inr ()"
  by (simp add: verify_eq get_pk_sign get_sig_sign verify_sig_signed)

text \<open>Signing overwrites an earlier signature and key completely.\<close>

theorem sign_sign: "sign E k (sign E j a) = sign E k a"
  by (simp add: sign_eq set_pk_set_sig set_pk_set_pk set_sig_set_sig msg_set_sig)

lemma verify_cong:
  "get_pk a = get_pk b \<Longrightarrow> get_sig a = get_sig b \<Longrightarrow> msg a = msg b \<Longrightarrow> verify E a = verify E b"
  by (simp add: verify_eq)

text \<open>
  An artefact that carries the key and the signature of a signed one verifies exactly when
  it presents the same message.
\<close>

theorem verify_altered:
  assumes "ed25519_correct E" and "no_forgery E k M"
    and "get_pk b = vk_of E k" and "get_sig b = get_sig (sign E k a)"
    and "msg (sign E k a) \<in> M" and "msg b \<in> M"
  shows "verify E b = (if msg b = msg (sign E k a) then Inr () else Inl SignatureMismatch)"
  using assms
  by (auto simp: verify_eq get_sig_sign verify_sig_def ed25519_correct_def no_forgery_def)

end

end
