(* ===== verification/Sample_Codecs.thy ===== *)
theory Sample_Codecs
  imports Signing
begin

text \<open>
  Concrete instances of the external functions, used only to show that the hypotheses of
  the properties can be met: a self-delimiting byte encoding of tuples, lists, options and strings
  (for the parameters that stand for serde-JSON and BCS) and a signature scheme whose
  signature is the key followed by the message.
\<close>

section \<open>Self-delimiting encodings\<close>

definition prefix_free :: "('a \<Rightarrow> bytes) \<Rightarrow> bool" where
  "prefix_free e \<longleftrightarrow> (\<forall>x y r s. e x @ r = e y @ s \<longrightarrow> x = y \<and> r = s)"

lemma prefix_freeI:
  "(\<And>x y r s. e x @ r = e y @ s \<Longrightarrow> x = y \<and> r = s) \<Longrightarrow> prefix_free e"
  by (auto simp: prefix_free_def)

lemma prefix_freeD: "prefix_free e \<Longrightarrow> e x @ r = e y @ s \<longleftrightarrow> x = y \<and> r = s"
  by (auto simp: prefix_free_def)

lemma prefix_free_inj: "prefix_free e \<Longrightarrow> inj e"
  by (rule injI) (metis append.right_neutral prefix_freeD)

definition enc_nat :: "nat \<Rightarrow> bytes" where
  "enc_nat n = replicate n 1 @ [0]"

definition enc_word :: "'w::len word \<Rightarrow> bytes" where
  "enc_word w = enc_nat (unat w)"

definition enc_pair :: "('a \<Rightarrow> bytes) \<Rightarrow> ('b \<Rightarrow> bytes) \<Rightarrow> 'a \<times> 'b \<Rightarrow> bytes" where
  "enc_pair e f p = e (fst p) @ f (snd p)"

definition enc_list :: "('a \<Rightarrow> bytes) \<Rightarrow> 'a list \<Rightarrow> bytes" where
  "enc_list e xs = enc_nat (length xs) @ concat (map e xs)"

definition enc_option :: "('a \<Rightarrow> bytes) \<Rightarrow> 'a option \<Rightarrow> bytes" where
  "enc_option e x = (case x of None \<Rightarrow> [0] | Some y \<Rightarrow> 1 # e y)"

definition enc_via :: "('a \<Rightarrow> 'b) \<Rightarrow> ('b \<Rightarrow> bytes) \<Rightarrow> 'a \<Rightarrow> bytes" where
  "enc_via f e x = e (f x)"

definition enc_char :: "char \<Rightarrow> bytes" where
  "enc_char c = enc_nat (of_char c)"

named_theorems prefix_free_intros "encoders that are prefix-free"

lemma prefix_free_nat [prefix_free_intros]: "prefix_free enc_nat"
proof (rule prefix_freeI)
  show "x = y \<and> r = s" if "enc_nat x @ r = enc_nat y @ s" for x y r s
    using that
  proof (induction x arbitrary: y)
    case 0
    then show ?case by (cases y) (auto simp: enc_nat_def)
  next
    case (Suc x)
    then show ?case by (cases y) (auto simp: enc_nat_def)
  qed
qed

lemma prefix_free_via [prefix_free_intros]:
  assumes "inj f" "prefix_free e"
  shows "prefix_free (enc_via f e)"
  by (rule prefix_freeI) (simp add: enc_via_def prefix_freeD [OF assms(2)] inj_eq [OF assms(1)])

lemma prefix_free_word [prefix_free_intros]: "prefix_free (enc_word :: 'w::len word \<Rightarrow> bytes)"
  by (rule prefix_freeI) (simp add: enc_word_def prefix_freeD [OF prefix_free_nat] word_unat_eq_iff)

lemma prefix_free_char [prefix_free_intros]: "prefix_free enc_char"
  by (rule prefix_freeI) (simp add: enc_char_def prefix_freeD [OF prefix_free_nat] of_char_eq_iff)

lemma prefix_free_pair [prefix_free_intros]:
  assumes "prefix_free e" "prefix_free f"
  shows "prefix_free (enc_pair e f)"
  by (rule prefix_freeI)
    (simp add: enc_pair_def prod_eq_iff prefix_freeD [OF assms(1)] prefix_freeD [OF assms(2)])

lemma prefix_free_option [prefix_free_intros]:
  assumes "prefix_free e"
  shows "prefix_free (enc_option e)"
  by (rule prefix_freeI)
    (simp add: enc_option_def prefix_freeD [OF assms] split: option.splits)

lemma concat_map_cancel:
  assumes "prefix_free e" "length xs = length ys" "concat (map e xs) @ r = concat (map e ys) @ s"
  shows "xs = ys \<and> r = s"
  using assms(2,3)
proof (induction xs ys rule: list_induct2)
  case Nil
  then show ?case by simp
next
  case (Cons x xs y ys)
  then show ?case by (simp add: prefix_freeD [OF assms(1)])
qed

lemma prefix_free_list [prefix_free_intros]: "prefix_free e \<Longrightarrow> prefix_free (enc_list e)"
  by (rule prefix_freeI)
    (auto simp: enc_list_def prefix_freeD [OF prefix_free_nat] dest: concat_map_cancel)

abbreviation enc_bytes :: "bytes \<Rightarrow> bytes" where
  "enc_bytes \<equiv> enc_list enc_word"

abbreviation enc_string :: "string \<Rightarrow> bytes" where
  "enc_string \<equiv> enc_list enc_char"

abbreviation enc_uuid :: "uuid \<Rightarrow> bytes" where
  "enc_uuid \<equiv> enc_via uuid_as_bytes enc_bytes"

lemma inj_uuid_as_bytes: "inj uuid_as_bytes"
  by (rule injI) (simp add: uuid.expand)

lemma inj_peer_str: "inj peer_str"
  by (rule injI) (simp add: node_peer_id.expand)

lemma inj_nanox_amount: "inj nanox_amount"
  by (rule injI) (simp add: nanox.expand)

lemmas sample_codec_inj = inj_uuid_as_bytes inj_peer_str inj_nanox_amount

section \<open>A signature scheme\<close>

definition sample_ed :: ed25519 where
  "sample_ed = \<lparr>vk_of = (\<lambda>k. k), vk_ok = (\<lambda>_. True), sig_ok = (\<lambda>s. s \<noteq> []),
     ed_sign = (\<lambda>k m. 7 # k @ m), ed_verify = (\<lambda>pk m s. s = 7 # pk @ m)\<rparr>"

lemma sample_ed_correct [simp]: "ed25519_correct sample_ed"
  by (simp add: ed25519_correct_def sample_ed_def)

lemma sample_ed_no_forgery [simp]: "no_forgery sample_ed k M"
  by (simp add: no_forgery_def sample_ed_def)

end
