(* ===== verification/Proof_Of_Inference.thy ===== *)
theory Proof_Of_Inference
  imports Sample_Codecs
begin

text \<open>
  \<^verbatim>\<open>ProofOfInference\<close> (\<^verbatim>\<open>src/pinaivu-protocol/src/proof.rs\<close>): the node-signed
  execution receipt, its canonical bytes, its SHA-256 identifier, signing and verification. The
  serde-JSON encoder and SHA-256 are parameters (\<open>json\<close>, \<open>sha256\<close>).
\<close>

section \<open>Data\<close>

record proof_of_inference =
  poi_request_id :: uuid
  poi_session_id :: uuid
  poi_node_peer_id :: node_peer_id
  poi_client_address :: string
  poi_model_id :: string
  poi_input_tokens :: u32
  poi_output_tokens :: u32
  poi_latency_ms :: u32
  poi_price_paid_nanox :: nanox
  poi_timestamp :: u64
  poi_input_hash :: bytes
  poi_output_hash :: bytes
  poi_settlement_id :: string
  poi_escrow_tx_id :: "string option"
  poi_node_pubkey :: bytes
  poi_signature :: bytes

text \<open>The local struct \<^verbatim>\<open>Canonical\<close>: every field but the signature, in declaration order.\<close>

record proof_canonical =
  pc_request_id :: uuid
  pc_session_id :: uuid
  pc_node_peer_id :: node_peer_id
  pc_client_address :: string
  pc_model_id :: string
  pc_input_tokens :: u32
  pc_output_tokens :: u32
  pc_latency_ms :: u32
  pc_price_paid_nanox :: nanox
  pc_timestamp :: u64
  pc_input_hash :: bytes
  pc_output_hash :: bytes
  pc_settlement_id :: string
  pc_escrow_tx_id :: "string option"
  pc_node_pubkey :: bytes

section \<open>Operations\<close>

definition proof_canonical_of :: "proof_of_inference \<Rightarrow> proof_canonical" where
  "proof_canonical_of p =
     \<lparr>pc_request_id = poi_request_id p, pc_session_id = poi_session_id p,
      pc_node_peer_id = poi_node_peer_id p, pc_client_address = poi_client_address p,
      pc_model_id = poi_model_id p, pc_input_tokens = poi_input_tokens p,
      pc_output_tokens = poi_output_tokens p, pc_latency_ms = poi_latency_ms p,
      pc_price_paid_nanox = poi_price_paid_nanox p, pc_timestamp = poi_timestamp p,
      pc_input_hash = poi_input_hash p, pc_output_hash = poi_output_hash p,
      pc_settlement_id = poi_settlement_id p, pc_escrow_tx_id = poi_escrow_tx_id p,
      pc_node_pubkey = poi_node_pubkey p\<rparr>"

definition proof_canonical_bytes :: "(proof_canonical \<Rightarrow> bytes) \<Rightarrow> proof_of_inference \<Rightarrow> bytes" where
  "proof_canonical_bytes json p = json (proof_canonical_of p)"

definition proof_id :: "(bytes \<Rightarrow> bytes) \<Rightarrow> (proof_canonical \<Rightarrow> bytes) \<Rightarrow> proof_of_inference \<Rightarrow> bytes" where
  "proof_id sha256 json p = sha256 (proof_canonical_bytes json p)"

definition proof_sign ::
  "(proof_canonical \<Rightarrow> bytes) \<Rightarrow> ed25519 \<Rightarrow> bytes \<Rightarrow> proof_of_inference \<Rightarrow> proof_of_inference" where
  "proof_sign json E key p =
     (let p1 = p\<lparr>poi_node_pubkey := vk_of E key\<rparr>;
          msg = proof_canonical_bytes json p1
      in p1\<lparr>poi_signature := ed_sign E key msg\<rparr>)"

definition proof_verify ::
  "(proof_canonical \<Rightarrow> bytes) \<Rightarrow> ed25519 \<Rightarrow> proof_of_inference \<Rightarrow> verify_error + unit" where
  "proof_verify json E p =
     verify_sig E (poi_node_pubkey p) (proof_canonical_bytes json p) (poi_signature p)"

section \<open>The interface is met\<close>

interpretation poi: signed_artefact
  "proof_canonical_bytes json" poi_node_pubkey poi_signature
  "\<lambda>pk p. p\<lparr>poi_node_pubkey := pk\<rparr>" "\<lambda>s p. p\<lparr>poi_signature := s\<rparr>"
  "proof_sign json" "proof_verify json" for json
  by unfold_locales
    (simp_all add: proof_canonical_bytes_def proof_canonical_of_def proof_sign_def proof_verify_def Let_def)

text \<open>The canonical form determines everything but the signature.\<close>

lemma proof_canonical_of_eq_iff:
  "proof_canonical_of p = proof_canonical_of q \<longleftrightarrow> p\<lparr>poi_signature := s\<rparr> = q\<lparr>poi_signature := s\<rparr>"
  by (cases p; cases q) (simp add: proof_canonical_of_def)

lemma proof_canonical_bytes_eq_iff:
  "inj json \<Longrightarrow> proof_canonical_bytes json p = proof_canonical_bytes json q \<longleftrightarrow>
     p\<lparr>poi_signature := s\<rparr> = q\<lparr>poi_signature := s\<rparr>"
  unfolding proof_canonical_bytes_def by (simp add: inj_eq proof_canonical_of_eq_iff)

lemma proof_eqI:
  "p\<lparr>poi_signature := s\<rparr> = q\<lparr>poi_signature := s\<rparr> \<Longrightarrow> poi_signature p = poi_signature q \<Longrightarrow> p = q"
  by (cases p; cases q) simp

section \<open>Samples\<close>

definition sample_proof_json :: "proof_canonical \<Rightarrow> bytes" where
  "sample_proof_json =
     enc_via (\<lambda>c. (pc_request_id c, pc_session_id c, pc_node_peer_id c, pc_client_address c,
       pc_model_id c, pc_input_tokens c, pc_output_tokens c, pc_latency_ms c,
       pc_price_paid_nanox c, pc_timestamp c, pc_input_hash c, pc_output_hash c,
       pc_settlement_id c, pc_escrow_tx_id c, pc_node_pubkey c))
     (enc_pair enc_uuid (enc_pair enc_uuid (enc_pair (enc_via peer_str enc_string)
       (enc_pair enc_string (enc_pair enc_string (enc_pair enc_word (enc_pair enc_word
       (enc_pair enc_word (enc_pair (enc_via nanox_amount enc_word) (enc_pair enc_word
       (enc_pair enc_bytes (enc_pair enc_bytes (enc_pair enc_string
       (enc_pair (enc_option enc_string) enc_bytes))))))))))))))"

lemma sample_proof_json_inj: "inj sample_proof_json"
  unfolding sample_proof_json_def
  by (intro prefix_free_inj prefix_free_intros sample_codec_inj)
    (auto intro!: injI)

definition sample_proof :: proof_of_inference where
  "sample_proof =
     \<lparr>poi_request_id = Uuid (replicate 16 0), poi_session_id = Uuid (replicate 16 0),
      poi_node_peer_id = NodePeerId ''12D3KooWPeerNode1'', poi_client_address = ''client-abc'',
      poi_model_id = ''qwen-72b'', poi_input_tokens = 128, poi_output_tokens = 256,
      poi_latency_ms = 420, poi_price_paid_nanox = NanoX 1000, poi_timestamp = 1700000000,
      poi_input_hash = replicate 32 1, poi_output_hash = replicate 32 2,
      poi_settlement_id = ''free'', poi_escrow_tx_id = None,
      poi_node_pubkey = zeros32, poi_signature = []\<rparr>"

section \<open>Properties\<close>

text \<open>
  Signing a proof and verifying it succeeds, for every proof and every key, and the identifier
  of a proof does not depend on its signature bytes.
\<close>

theorem proof_sign_verify_roundtrip:
  assumes "ed25519_correct E"
  shows "proof_verify json E (proof_sign json E key p) = Inr () \<and>
    poi_node_pubkey (proof_sign json E key p) = vk_of E key \<and>
    proof_id sha256 json (q\<lparr>poi_signature := s\<rparr>) = proof_id sha256 json q"
  using poi.sign_verify [OF assms] poi.get_pk_sign
  by (simp add: proof_id_def poi.msg_set_sig)

theorem proof_sign_verify_roundtrip_witness:
  "proof_verify sample_proof_json sample_ed (proof_sign sample_proof_json sample_ed [1, 2] sample_proof) = Inr ()"
  using proof_sign_verify_roundtrip [OF sample_ed_correct] by blast

text \<open>
  C11: A proof is tamper-evident in every field: a proof that carries the public key and the signature
  of a signed proof verifies if and only if it is that proof; any change of any other field
  is reported as a signature mismatch.
\<close>

theorem proof_tamper_evident:
  assumes "ed25519_correct E" and "inj json"
    and "no_forgery E key {proof_canonical_bytes json (proof_sign json E key p), proof_canonical_bytes json q}"
    and "poi_node_pubkey q = vk_of E key"
    and "poi_signature q = poi_signature (proof_sign json E key p)"
  shows "proof_verify json E q =
    (if q = proof_sign json E key p then Inr () else Inl SignatureMismatch)"
proof -
  have "proof_canonical_bytes json q = proof_canonical_bytes json (proof_sign json E key p)
      \<longleftrightarrow> q = proof_sign json E key p"
    using proof_canonical_bytes_eq_iff [OF assms(2), of q _ "[]"] assms(5) proof_eqI by metis
  then show ?thesis
    using poi.verify_altered [OF assms(1,3,4,5)] by simp
qed

theorem proof_tamper_evident_witness:
  "proof_verify sample_proof_json sample_ed
     ((proof_sign sample_proof_json sample_ed [1] sample_proof)\<lparr>poi_output_tokens := 257\<rparr>)
   = Inl SignatureMismatch"
proof -
  let ?p = "proof_sign sample_proof_json sample_ed [1] sample_proof"
  let ?q = "?p\<lparr>poi_output_tokens := 257\<rparr>"
  have "proof_verify sample_proof_json sample_ed ?q =
      (if ?q = ?p then Inr () else Inl SignatureMismatch)"
    by (rule proof_tamper_evident) (simp_all add: sample_proof_json_inj poi.get_pk_sign)
  moreover have "poi_output_tokens ?q \<noteq> poi_output_tokens ?p"
    by (simp add: proof_sign_def Let_def sample_proof_def)
  ultimately show ?thesis by metis
qed

end
