(* ===== verification/Recruit_Proto.thy ===== *)
theory Recruit_Proto
  imports Proof_Of_Inference
begin

text \<open>
  The recruit protocol between nodes (\<^verbatim>\<open>src/pinaivu-protocol/src/mesh/recruit_proto.rs\<close>):
  the request a primary node signs and the helper's response.
\<close>

section \<open>Data\<close>

record recruit_request =
  rq_request_id :: uuid
  rq_primary_pubkey :: bytes
  rq_model :: string
  rq_prompt_chunk :: string
  rq_max_price_nanox :: u64
  rq_deadline_ms :: u64
  rq_signature :: bytes

record recruit_canonical =
  rc_request_id :: uuid
  rc_primary_pubkey :: bytes
  rc_model :: string
  rc_prompt_chunk :: string
  rc_max_price_nanox :: u64
  rc_deadline_ms :: u64

record recruit_response =
  rs_accepted :: bool
  rs_proof :: "proof_of_inference option"
  rs_reason :: "string option"

section \<open>Operations\<close>

definition recruit_canonical_of :: "recruit_request \<Rightarrow> recruit_canonical" where
  "recruit_canonical_of q =
     \<lparr>rc_request_id = rq_request_id q, rc_primary_pubkey = rq_primary_pubkey q,
      rc_model = rq_model q, rc_prompt_chunk = rq_prompt_chunk q,
      rc_max_price_nanox = rq_max_price_nanox q, rc_deadline_ms = rq_deadline_ms q\<rparr>"

definition recruit_canonical_bytes :: "(recruit_canonical \<Rightarrow> bytes) \<Rightarrow> recruit_request \<Rightarrow> bytes" where
  "recruit_canonical_bytes json q = json (recruit_canonical_of q)"

definition recruit_sign ::
  "(recruit_canonical \<Rightarrow> bytes) \<Rightarrow> ed25519 \<Rightarrow> bytes \<Rightarrow> recruit_request \<Rightarrow> recruit_request" where
  "recruit_sign json E key q =
     (let q1 = q\<lparr>rq_primary_pubkey := vk_of E key\<rparr>;
          msg = recruit_canonical_bytes json q1
      in q1\<lparr>rq_signature := ed_sign E key msg\<rparr>)"

definition recruit_verify ::
  "(recruit_canonical \<Rightarrow> bytes) \<Rightarrow> ed25519 \<Rightarrow> recruit_request \<Rightarrow> verify_error + unit" where
  "recruit_verify json E q =
     verify_sig E (rq_primary_pubkey q) (recruit_canonical_bytes json q) (rq_signature q)"

definition recruit_accept :: "proof_of_inference \<Rightarrow> recruit_response" where
  "recruit_accept proof = \<lparr>rs_accepted = True, rs_proof = Some proof, rs_reason = None\<rparr>"

definition recruit_reject :: "string \<Rightarrow> recruit_response" where
  "recruit_reject reason = \<lparr>rs_accepted = False, rs_proof = None, rs_reason = Some reason\<rparr>"

section \<open>The interface is met\<close>

interpretation recruit: signed_artefact
  "recruit_canonical_bytes json" rq_primary_pubkey rq_signature
  "\<lambda>pk q. q\<lparr>rq_primary_pubkey := pk\<rparr>" "\<lambda>s q. q\<lparr>rq_signature := s\<rparr>"
  "recruit_sign json" "recruit_verify json" for json
  by unfold_locales
    (simp_all add: recruit_canonical_bytes_def recruit_canonical_of_def recruit_sign_def recruit_verify_def Let_def)

lemma recruit_canonical_of_eq_iff:
  "recruit_canonical_of q = recruit_canonical_of r \<longleftrightarrow> q\<lparr>rq_signature := s\<rparr> = r\<lparr>rq_signature := s\<rparr>"
  by (cases q; cases r) (simp add: recruit_canonical_of_def)

lemma recruit_eqI:
  "q\<lparr>rq_signature := s\<rparr> = r\<lparr>rq_signature := s\<rparr> \<Longrightarrow> rq_signature q = rq_signature r \<Longrightarrow> q = r"
  by (cases q; cases r) simp

section \<open>Samples\<close>

definition sample_recruit_json :: "recruit_canonical \<Rightarrow> bytes" where
  "sample_recruit_json =
     enc_via (\<lambda>c. (rc_request_id c, rc_primary_pubkey c, rc_model c, rc_prompt_chunk c,
       rc_max_price_nanox c, rc_deadline_ms c))
     (enc_pair enc_uuid (enc_pair enc_bytes (enc_pair enc_string (enc_pair enc_string
       (enc_pair enc_word enc_word)))))"

lemma sample_recruit_json_inj: "inj sample_recruit_json"
  unfolding sample_recruit_json_def
  by (intro prefix_free_inj prefix_free_intros sample_codec_inj) (auto intro!: injI)

definition sample_recruit :: recruit_request where
  "sample_recruit =
     \<lparr>rq_request_id = Uuid (replicate 16 0), rq_primary_pubkey = zeros32, rq_model = ''qwen-72b'',
      rq_prompt_chunk = ''second half of the prompt'', rq_max_price_nanox = 500,
      rq_deadline_ms = 1700000000000, rq_signature = []\<rparr>"

section \<open>Properties\<close>

text \<open>
  A recruit request verifies after signing, and a request with the key and the signature of
  a signed one verifies if and only if it is that request.
\<close>

theorem recruit_tamper_evident:
  assumes "ed25519_correct E" and "inj json"
    and "no_forgery E key {recruit_canonical_bytes json (recruit_sign json E key q), recruit_canonical_bytes json r}"
    and "rq_primary_pubkey r = vk_of E key"
    and "rq_signature r = rq_signature (recruit_sign json E key q)"
  shows "recruit_verify json E (recruit_sign json E key q) = Inr () \<and>
    recruit_verify json E r = (if r = recruit_sign json E key q then Inr () else Inl SignatureMismatch)"
proof -
  have "recruit_canonical_bytes json r = recruit_canonical_bytes json (recruit_sign json E key q)
      \<longleftrightarrow> r = recruit_sign json E key q"
    using recruit_canonical_of_eq_iff [of r _ "[]"] assms(2,5) recruit_eqI
    by (metis inj_eq recruit_canonical_bytes_def)
  then show ?thesis
    using recruit.verify_altered [OF assms(1,3,4,5)] recruit.sign_verify [OF assms(1)] by simp
qed

theorem recruit_tamper_evident_witness:
  "recruit_verify sample_recruit_json sample_ed
     ((recruit_sign sample_recruit_json sample_ed [1] sample_recruit)\<lparr>rq_prompt_chunk := ''other''\<rparr>)
   = Inl SignatureMismatch"
proof -
  let ?q = "recruit_sign sample_recruit_json sample_ed [1] sample_recruit"
  let ?r = "?q\<lparr>rq_prompt_chunk := ''other''\<rparr>"
  have "recruit_verify sample_recruit_json sample_ed ?r =
      (if ?r = ?q then Inr () else Inl SignatureMismatch)"
    by (rule recruit_tamper_evident [THEN conjunct2])
      (simp_all add: sample_recruit_json_inj recruit.get_pk_sign)
  moreover have "rq_prompt_chunk ?r \<noteq> rq_prompt_chunk ?q"
    by (simp add: recruit_sign_def Let_def sample_recruit_def)
  ultimately show ?thesis by metis
qed

end
