(* ===== verification/Schema.thy ===== *)
theory Schema
  imports Coord_Prelude
begin

text \<open>
  The schema migrations of \<^verbatim>\<open>src/coordinator/src/persistence/postgres.rs\<close>: the statements of
  \<^verbatim>\<open>run_migrations\<close> as data, and their effect on the catalog. Postgres is modelled as it documents
  these statements: creating what is there by name is an error, or with \<^verbatim>\<open>IF NOT EXISTS\<close> has no effect, without
  comparing the definitions; tables and indexes share one namespace; a reference needs the target table
  with that column as its primary key; an index needs its table and columns. The indexes Postgres itself
  names after primary keys are not in the catalog.
\<close>

section \<open>Statements\<close>

datatype col_type = UUID | JSONB | TIMESTAMPTZ | TEXT | BIGINT | INTEGER | DOUBLE_PRECISION | BOOLEAN

record column =
  col_name :: string
  col_type :: col_type
  col_not_null :: bool
  col_default :: "string option"
  col_references :: "(string \<times> string) option"

record table =
  tb_columns :: "column list"
  tb_primary_key :: "string list"

text \<open>Whether the statement says \<^verbatim>\<open>IF NOT EXISTS\<close>.\<close>

datatype existing = IfNotExists | MustNotExist

datatype ddl =
    CreateTable existing string table
  | AddColumn existing string column
  | CreateIndex existing string string "string list" "string option"

text \<open>A nullable column, a required one, a required one with a default, and a reference.\<close>

definition nullable :: "string \<Rightarrow> col_type \<Rightarrow> column" where
  "nullable n t = \<lparr>col_name = n, col_type = t, col_not_null = False, col_default = None, col_references = None\<rparr>"

definition required :: "string \<Rightarrow> col_type \<Rightarrow> column" where
  "required n t = (nullable n t)\<lparr>col_not_null := True\<rparr>"

definition defaulting :: "string \<Rightarrow> col_type \<Rightarrow> string \<Rightarrow> column" where
  "defaulting n t d = (required n t)\<lparr>col_default := Some d\<rparr>"

definition session_ref :: "column \<Rightarrow> column" where
  "session_ref c = c\<lparr>col_references := Some (''sessions'', ''session_id'')\<rparr>"

definition routing_receipts_ddl :: table where
  "routing_receipts_ddl =
     \<lparr>tb_columns =
        [required ''request_id'' UUID, required ''receipt_json'' JSONB, defaulting ''stored_at'' TIMESTAMPTZ ''NOW()'',
         nullable ''walrus_blob_id'' TEXT, defaulting ''created_at'' TIMESTAMPTZ ''NOW()''],
      tb_primary_key = [''request_id'']\<rparr>"

definition dispatch_jobs_ddl :: table where
  "dispatch_jobs_ddl =
     \<lparr>tb_columns =
        [required ''request_id'' UUID, required ''primary_peer_id'' TEXT, required ''dispatched_at_ms'' BIGINT,
         required ''deadline_ms'' BIGINT, defaulting ''status'' TEXT ''Dispatched'',
         defaulting ''escrow_handle_json'' TEXT ''{}''],
      tb_primary_key = [''request_id'']\<rparr>"

definition payments_ddl :: table where
  "payments_ddl =
     \<lparr>tb_columns =
        [required ''id'' UUID, required ''request_id'' UUID, required ''payee_peer_id'' TEXT,
         required ''payee_sui_address'' TEXT, required ''amount_nanox'' BIGINT, defaulting ''status'' TEXT ''pending'',
         nullable ''tx_digest'' TEXT, defaulting ''created_at'' TIMESTAMPTZ ''NOW()'',
         nullable ''submitted_at'' TIMESTAMPTZ, nullable ''confirmed_at'' TIMESTAMPTZ],
      tb_primary_key = [''id'']\<rparr>"

definition sessions_ddl :: table where
  "sessions_ddl =
     \<lparr>tb_columns =
        [required ''session_id'' UUID, required ''user_address'' TEXT, required ''model_id'' TEXT, nullable ''title'' TEXT,
         defaulting ''created_at'' TIMESTAMPTZ ''NOW()'', defaulting ''last_updated'' TIMESTAMPTZ ''NOW()'',
         defaulting ''turn_count'' INTEGER ''0'', defaulting ''total_tokens'' BIGINT ''0'',
         defaulting ''total_cost_nanox'' BIGINT ''0'', nullable ''walrus_blob_id'' TEXT, nullable ''prev_blob_id'' TEXT,
         defaulting ''status'' TEXT ''active''],
      tb_primary_key = [''session_id'']\<rparr>"

definition turns_ddl :: table where
  "turns_ddl =
     \<lparr>tb_columns =
        [required ''turn_id'' UUID, session_ref (required ''session_id'' UUID), required ''user_address'' TEXT,
         required ''request_id'' TEXT, nullable ''node_peer_id'' TEXT, nullable ''input_tokens'' INTEGER,
         nullable ''output_tokens'' INTEGER, nullable ''latency_ms'' INTEGER, nullable ''cost_nanox'' BIGINT,
         nullable ''kv_token_hash'' TEXT, nullable ''proof_hash'' TEXT, nullable ''node_signature'' TEXT,
         defaulting ''settlement_status'' TEXT ''pending'', nullable ''sui_tx_digest'' TEXT,
         defaulting ''created_at'' TIMESTAMPTZ ''NOW()''],
      tb_primary_key = [''turn_id'']\<rparr>"

definition user_facts_ddl :: table where
  "user_facts_ddl =
     \<lparr>tb_columns =
        [required ''fact_id'' UUID, required ''user_address'' TEXT, required ''fact'' TEXT,
         defaulting ''confidence'' DOUBLE_PRECISION ''1.0'', session_ref (nullable ''source_session'' UUID),
         defaulting ''created_at'' TIMESTAMPTZ ''NOW()'', defaulting ''updated_at'' TIMESTAMPTZ ''NOW()'',
         defaulting ''is_active'' BOOLEAN ''TRUE''],
      tb_primary_key = [''fact_id'']\<rparr>"

definition session_summaries_ddl :: table where
  "session_summaries_ddl =
     \<lparr>tb_columns =
        [required ''summary_id'' UUID, session_ref (required ''session_id'' UUID), required ''user_address'' TEXT,
         required ''summary_text'' TEXT, defaulting ''messages_covered'' INTEGER ''0'', defaulting ''token_count'' INTEGER ''0'',
         defaulting ''created_at'' TIMESTAMPTZ ''NOW()''],
      tb_primary_key = [''summary_id'']\<rparr>"

definition node_session_cache_ddl :: table where
  "node_session_cache_ddl =
     \<lparr>tb_columns =
        [required ''node_peer_id'' TEXT, session_ref (required ''session_id'' UUID),
         defaulting ''last_served_at'' TIMESTAMPTZ ''NOW()'', defaulting ''cache_tier'' TEXT ''gpu''],
      tb_primary_key = [''node_peer_id'', ''session_id'']\<rparr>"

definition kv_cache_index_ddl :: table where
  "kv_cache_index_ddl =
     \<lparr>tb_columns =
        [required ''token_hash'' TEXT, session_ref (required ''session_id'' UUID), required ''walrus_blob_id'' TEXT,
         nullable ''node_peer_id'' TEXT, nullable ''size_bytes'' BIGINT, defaulting ''created_at'' TIMESTAMPTZ ''NOW()'',
         nullable ''expires_at'' TIMESTAMPTZ],
      tb_primary_key = [''token_hash'']\<rparr>"

text \<open>An index names its columns, and the column of its \<^verbatim>\<open>WHERE\<close> clause if it has one.\<close>

definition statements :: "ddl list" where
  "statements =
     [CreateTable IfNotExists ''routing_receipts'' routing_receipts_ddl,
      AddColumn IfNotExists ''routing_receipts'' (nullable ''walrus_blob_id'' TEXT),
      AddColumn IfNotExists ''routing_receipts'' (defaulting ''created_at'' TIMESTAMPTZ ''NOW()''),
      CreateTable IfNotExists ''dispatch_jobs'' dispatch_jobs_ddl,
      CreateTable IfNotExists ''payments'' payments_ddl,
      CreateIndex IfNotExists ''payments_status_idx'' ''payments'' [''status''] (Some ''status''),
      CreateIndex IfNotExists ''payments_request_idx'' ''payments'' [''request_id''] None,
      CreateTable IfNotExists ''sessions'' sessions_ddl,
      CreateTable IfNotExists ''turns'' turns_ddl,
      CreateTable IfNotExists ''user_facts'' user_facts_ddl,
      CreateTable IfNotExists ''session_summaries'' session_summaries_ddl,
      CreateTable IfNotExists ''node_session_cache'' node_session_cache_ddl,
      CreateTable IfNotExists ''kv_cache_index'' kv_cache_index_ddl,
      CreateIndex IfNotExists ''idx_sessions_user'' ''sessions'' [''user_address''] None,
      CreateIndex IfNotExists ''idx_turns_session'' ''turns'' [''session_id''] None,
      CreateIndex IfNotExists ''idx_facts_user'' ''user_facts'' [''user_address''] (Some ''is_active''),
      CreateIndex IfNotExists ''idx_node_cache_session'' ''node_session_cache'' [''session_id''] None,
      CreateIndex IfNotExists ''idx_summaries_user'' ''session_summaries'' [''user_address''] None]"

section \<open>The catalog\<close>

record catalog =
  ct_tables :: "string \<rightharpoonup> table"
  ct_indexes :: "string list"

definition has_column :: "string \<Rightarrow> table \<Rightarrow> bool" where
  "has_column n t \<longleftrightarrow> n \<in> set (map col_name (tb_columns t))"

definition reference_ok :: "catalog \<Rightarrow> column \<Rightarrow> bool" where
  "reference_ok c col \<longleftrightarrow>
     (case col_references col of
        None \<Rightarrow> True
      | Some (target, key) \<Rightarrow>
          (case ct_tables c target of None \<Rightarrow> False | Some t \<Rightarrow> has_column key t \<and> tb_primary_key t = [key]))"

definition relation_exists :: "catalog \<Rightarrow> string \<Rightarrow> bool" where
  "relation_exists c n \<longleftrightarrow> ct_tables c n \<noteq> None \<or> n \<in> set (ct_indexes c)"

definition when_exists :: "existing \<Rightarrow> string \<Rightarrow> catalog \<Rightarrow> string + catalog" where
  "when_exists g msg c = (case g of IfNotExists \<Rightarrow> Inr c | MustNotExist \<Rightarrow> Inl msg)"

definition execute :: "ddl \<Rightarrow> catalog \<Rightarrow> string + catalog" where
  "execute s c =
     (case s of
        CreateTable g n t \<Rightarrow>
          if relation_exists c n then when_exists g ''relation already exists'' c
          else if list_all (reference_ok c) (tb_columns t) then Inr (c\<lparr>ct_tables := (ct_tables c)(n \<mapsto> t)\<rparr>)
          else Inl ''referenced relation or key does not exist''
      | AddColumn g n col \<Rightarrow>
          (case ct_tables c n of
             None \<Rightarrow> Inl ''relation does not exist''
           | Some t \<Rightarrow>
               if has_column (col_name col) t then when_exists g ''column already exists'' c
               else if \<not> reference_ok c col then Inl ''referenced relation or key does not exist''
               else Inr (c\<lparr>ct_tables := (ct_tables c)(n \<mapsto> t\<lparr>tb_columns := tb_columns t @ [col]\<rparr>)\<rparr>))
      | CreateIndex g i n cols cond \<Rightarrow>
          (case ct_tables c n of
             None \<Rightarrow> Inl ''relation does not exist''
           | Some t \<Rightarrow>
               if \<not> list_all (\<lambda>col. has_column col t) (cols @ (case cond of None \<Rightarrow> [] | Some col \<Rightarrow> [col]))
               then Inl ''column does not exist''
               else if relation_exists c i then when_exists g ''relation already exists'' c
               else Inr (c\<lparr>ct_indexes := ct_indexes c @ [i]\<rparr>)))"

text \<open>
  The loop of \<^verbatim>\<open>run_migrations\<close>: \<open>conn i\<close> is the connection-level error of statement \<open>i\<close>, if any; the
  first error ends the run and leaves the effects so far.
\<close>

fun run_statements :: "(nat \<Rightarrow> string option) \<Rightarrow> nat \<Rightarrow> ddl list \<Rightarrow> catalog \<Rightarrow> (string + unit) \<times> catalog" where
  "run_statements conn i [] c = (Inr (), c)"
| "run_statements conn i (s # ss) c =
     (case conn i of
        Some e \<Rightarrow> (Inl e, c)
      | None \<Rightarrow> (case execute s c of Inl e \<Rightarrow> (Inl e, c) | Inr c1 \<Rightarrow> run_statements conn (Suc i) ss c1))"

definition run_migrations :: "(nat \<Rightarrow> string option) \<Rightarrow> catalog \<Rightarrow> (string + unit) \<times> catalog" where
  "run_migrations conn c = run_statements conn 0 statements c"

section \<open>Catalogs only grow\<close>

definition table_extends :: "table \<Rightarrow> table \<Rightarrow> bool" where
  "table_extends t t' \<longleftrightarrow> tb_primary_key t' = tb_primary_key t \<and> (\<forall>x. has_column x t \<longrightarrow> has_column x t')"

lemma table_extends_refl [simp]: "table_extends t t"
  by (simp add: table_extends_def)

lemma table_extends_trans: "table_extends a b \<Longrightarrow> table_extends b c \<Longrightarrow> table_extends a c"
  by (simp add: table_extends_def)

definition extends :: "catalog \<Rightarrow> catalog \<Rightarrow> bool" where
  "extends c c' \<longleftrightarrow>
     (\<forall>n t. ct_tables c n = Some t \<longrightarrow> (\<exists>t'. ct_tables c' n = Some t' \<and> table_extends t t')) \<and>
     set (ct_indexes c) \<subseteq> set (ct_indexes c')"

lemma extends_refl [simp]: "extends c c"
  by (simp add: extends_def)

lemma extendsE:
  assumes "extends c c'" "ct_tables c n = Some t"
  obtains t' where "ct_tables c' n = Some t'" "table_extends t t'"
  using assms unfolding extends_def by blast

lemma extends_indexes: "extends c c' \<Longrightarrow> i \<in> set (ct_indexes c) \<Longrightarrow> i \<in> set (ct_indexes c')"
  by (auto simp: extends_def)

lemma extends_trans:
  assumes "extends a b" "extends b c"
  shows "extends a c"
proof -
  have "\<exists>t'. ct_tables c n = Some t' \<and> table_extends t t'" if n: "ct_tables a n = Some t" for n t
  proof -
    obtain t1 where t1: "ct_tables b n = Some t1" "table_extends t t1" using assms(1) n by (rule extendsE)
    obtain t2 where "ct_tables c n = Some t2" "table_extends t1 t2" using assms(2) t1(1) by (rule extendsE)
    then show ?thesis using t1(2) table_extends_trans by blast
  qed
  then show ?thesis using assms by (auto simp: extends_def)
qed

lemma extends_relation: "extends c c' \<Longrightarrow> relation_exists c n \<Longrightarrow> relation_exists c' n"
  by (auto simp: relation_exists_def elim: extendsE dest: extends_indexes)

lemma execute_extends: "execute s c = Inr c' \<Longrightarrow> extends c c'"
  by (auto simp: execute_def when_exists_def relation_exists_def extends_def table_extends_def has_column_def
      split: ddl.splits if_splits option.splits existing.splits)

text \<open>
  A statement that has nothing left to do in a catalog has nothing left to do in any later one. Only a
  statement with \<^verbatim>\<open>IF NOT EXISTS\<close> ever has nothing left to do.
\<close>

definition satisfied :: "ddl \<Rightarrow> catalog \<Rightarrow> bool" where
  "satisfied s c \<longleftrightarrow> execute s c = Inr c"

fun guarded :: "ddl \<Rightarrow> bool" where
  "guarded (CreateTable g n t) \<longleftrightarrow> g = IfNotExists"
| "guarded (AddColumn g n col) \<longleftrightarrow> g = IfNotExists"
| "guarded (CreateIndex g i n cols cond) \<longleftrightarrow> g = IfNotExists"

lemma statements_guarded: "list_all guarded statements"
  by (simp add: statements_def)

lemma satisfied_iff:
  "satisfied (CreateTable IfNotExists n t) c \<longleftrightarrow> relation_exists c n"
  "satisfied (AddColumn IfNotExists n col) c \<longleftrightarrow> (\<exists>t. ct_tables c n = Some t \<and> has_column (col_name col) t)"
  "satisfied (CreateIndex IfNotExists i n cols cond) c \<longleftrightarrow>
     (\<exists>t. ct_tables c n = Some t \<and> list_all (\<lambda>col. has_column col t) (cols @ (case cond of None \<Rightarrow> [] | Some col \<Rightarrow> [col]))) \<and>
     relation_exists c i"
proof -
  have neq: "c\<lparr>ct_tables := (ct_tables c)(n \<mapsto> t)\<rparr> \<noteq> c" if "ct_tables c n \<noteq> Some t" for t
    using that by (metis catalog.select_convs(1) catalog.surjective catalog.update_convs(1) fun_upd_same)
  have idx: "c\<lparr>ct_indexes := ct_indexes c @ [i]\<rparr> \<noteq> c"
    by (metis catalog.select_convs(2) catalog.surjective catalog.update_convs(2) append_self_conv not_Cons_self2)
  show "satisfied (CreateTable IfNotExists n t) c \<longleftrightarrow> relation_exists c n"
    using neq [of t] by (auto simp: satisfied_def execute_def when_exists_def relation_exists_def)
  have "t\<lparr>tb_columns := tb_columns t @ [col]\<rparr> \<noteq> t" for t
    by (metis table.select_convs(1) table.surjective table.update_convs(1) append_self_conv not_Cons_self2)
  then have "c\<lparr>ct_tables := (ct_tables c)(n \<mapsto> t\<lparr>tb_columns := tb_columns t @ [col]\<rparr>)\<rparr> \<noteq> c"
    if "ct_tables c n = Some t" for t
    using neq [of "t\<lparr>tb_columns := tb_columns t @ [col]\<rparr>"] that by (metis option.inject)
  then show "satisfied (AddColumn IfNotExists n col) c \<longleftrightarrow> (\<exists>t. ct_tables c n = Some t \<and> has_column (col_name col) t)"
    by (auto simp: satisfied_def execute_def when_exists_def split: option.splits)
  show "satisfied (CreateIndex IfNotExists i n cols cond) c \<longleftrightarrow>
     (\<exists>t. ct_tables c n = Some t \<and> list_all (\<lambda>col. has_column col t) (cols @ (case cond of None \<Rightarrow> [] | Some col \<Rightarrow> [col]))) \<and>
     relation_exists c i"
    using idx by (auto simp: satisfied_def execute_def when_exists_def split: option.splits if_splits)
qed

lemma satisfied_extends:
  assumes "guarded s" "satisfied s c" "extends c c'"
  shows "satisfied s c'"
proof (cases s)
  case (CreateTable g n t)
  with assms show ?thesis by (auto simp: satisfied_iff extends_relation)
next
  case (AddColumn g n col)
  with assms show ?thesis by (auto simp: satisfied_iff table_extends_def elim!: extendsE)
next
  case (CreateIndex g i n cols cond)
  with assms obtain t where t: "ct_tables c n = Some t" "relation_exists c i"
      "list_all (\<lambda>col. has_column col t) (cols @ (case cond of None \<Rightarrow> [] | Some col \<Rightarrow> [col]))"
    by (auto simp: satisfied_iff)
  moreover obtain t' where "ct_tables c' n = Some t'" "table_extends t t'"
    using assms(3) t(1) by (rule extendsE)
  ultimately show ?thesis
    using CreateIndex assms(1) extends_relation [OF assms(3)] by (auto simp: satisfied_iff list_all_iff table_extends_def)
qed

lemma execute_satisfied:
  assumes "guarded s" "execute s c = Inr c'"
  shows "satisfied s c'"
proof (cases s)
  case (CreateTable g n t)
  with assms show ?thesis
    by (auto simp: satisfied_iff) (auto simp: execute_def when_exists_def relation_exists_def split: if_splits)
next
  case (AddColumn g n col)
  with assms show ?thesis
    by (auto simp: satisfied_iff) (auto simp: execute_def when_exists_def has_column_def split: if_splits option.splits)
next
  case (CreateIndex g i n cols cond)
  with assms show ?thesis
    by (auto simp: satisfied_iff)
      (auto simp: execute_def when_exists_def relation_exists_def split: if_splits option.splits)
qed

lemma run_extends: "run_statements conn i ss c = (r, c') \<Longrightarrow> extends c c'"
proof (induction conn i ss c rule: run_statements.induct)
  case (2 conn i s ss c)
  then show ?case
    by (auto split: option.splits sum.splits intro: extends_trans [OF execute_extends])
qed simp

section \<open>Interrupted migrations\<close>

lemma run_satisfied_ok:
  "list_all (\<lambda>s. satisfied s c) ss \<Longrightarrow> run_statements (\<lambda>_. None) i ss c = (Inr (), c)"
  by (induction ss arbitrary: i) (simp_all add: satisfied_def)

lemma run_all_satisfied:
  "run_statements (\<lambda>_. None) i ss c = (Inr (), c') \<Longrightarrow> list_all guarded ss \<Longrightarrow> list_all (\<lambda>s. satisfied s c') ss"
proof (induction ss arbitrary: i c)
  case (Cons s ss)
  then obtain c1 where c1: "execute s c = Inr c1" "run_statements (\<lambda>_. None) (Suc i) ss c1 = (Inr (), c')"
    by (auto split: sum.splits)
  have "satisfied s c'"
    using satisfied_extends [OF _ execute_satisfied [OF _ c1(1)] run_extends [OF c1(2)]] Cons.prems(2) by simp
  then show ?case using Cons.IH [OF c1(2)] Cons.prems(2) by simp
qed simp

text \<open>An interrupted run performed a prefix of the statements.\<close>

lemma run_prefix:
  assumes "run_statements conn i ss c = (r, c1)" and "run_statements (\<lambda>_. None) j ss c = (Inr (), c2)"
  obtains pre post where "ss = pre @ post" "run_statements (\<lambda>_. None) j pre c = (Inr (), c1)"
    "run_statements (\<lambda>_. None) (j + length pre) post c1 = (Inr (), c2)"
proof -
  have "\<exists>pre post. ss = pre @ post \<and> run_statements (\<lambda>_. None) j pre c = (Inr (), c1) \<and>
      run_statements (\<lambda>_. None) (j + length pre) post c1 = (Inr (), c2)"
    using assms
  proof (induction ss arbitrary: i j c)
    case (Cons s ss)
    obtain c' where c': "execute s c = Inr c'" "run_statements (\<lambda>_. None) (Suc j) ss c' = (Inr (), c2)"
      using Cons.prems(2) by (auto split: sum.splits)
    show ?case
    proof (cases "conn i")
      case (Some e)
      then show ?thesis using Cons.prems by (intro exI [of _ "[]"] exI [of _ "s # ss"]) simp
    next
      case None
      then have "run_statements conn (Suc i) ss c' = (r, c1)" using Cons.prems(1) c'(1) by simp
      from Cons.IH [OF this c'(2)] obtain pre post where "ss = pre @ post"
          "run_statements (\<lambda>_. None) (Suc j) pre c' = (Inr (), c1)"
          "run_statements (\<lambda>_. None) (Suc j + length pre) post c1 = (Inr (), c2)" by blast
      then show ?thesis using c'(1) by (intro exI [of _ "s # pre"] exI [of _ post]) simp
    qed
  qed simp
  then show ?thesis using that by blast
qed

lemma run_append:
  "run_statements (\<lambda>_. None) i (pre @ post) c =
     (case run_statements (\<lambda>_. None) i pre c of
        (Inl e, c1) \<Rightarrow> (Inl e, c1)
      | (Inr _, c1) \<Rightarrow> run_statements (\<lambda>_. None) (i + length pre) post c1)"
proof (induction pre arbitrary: i c)
  case (Cons s pre)
  show ?case
  proof (cases "execute s c")
    case (Inr c1)
    then show ?thesis using Cons.IH [of "Suc i" c1] by (auto split: prod.split sum.split)
  qed simp
qed simp

definition empty_catalog :: catalog where
  "empty_catalog = \<lparr>ct_tables = Map.empty, ct_indexes = []\<rparr>"

definition declared :: "(string \<times> table) list" where
  "declared = [(''routing_receipts'', routing_receipts_ddl), (''dispatch_jobs'', dispatch_jobs_ddl), (''payments'', payments_ddl),
     (''sessions'', sessions_ddl), (''turns'', turns_ddl), (''user_facts'', user_facts_ddl),
     (''session_summaries'', session_summaries_ddl), (''node_session_cache'', node_session_cache_ddl),
     (''kv_cache_index'', kv_cache_index_ddl)]"

text \<open>The tables after a run on an empty database.\<close>

lemma migrations_from_empty:
  "fst (run_migrations (\<lambda>_. None) empty_catalog) = Inr ()"
  "list_all (\<lambda>(n, t). ct_tables (snd (run_migrations (\<lambda>_. None) empty_catalog)) n = Some t) declared"
  by code_simp+

text \<open>
  C29: Migrations can be interrupted and run again, and bring old databases up to date. Take any catalog
  on which an undisturbed run succeeds, let a run on it be cut off at whichever statement, and run
  again: the second run succeeds and ends in the very catalog the undisturbed run ends in, and a further
  complete run changes nothing. In that catalog the receipts table has the two columns added after its first
  version and the payments table the columns its indexes need. A run on an empty database succeeds and
  creates the nine tables as declared.
\<close>

theorem migrations_resume:
  assumes "run_migrations conn c = (r, c1)" and "run_migrations (\<lambda>_. None) c = (Inr (), c2)"
  shows "run_migrations (\<lambda>_. None) c1 = (Inr (), c2) \<and> run_migrations (\<lambda>_. None) c2 = (Inr (), c2) \<and>
    (\<exists>t. ct_tables c2 ''routing_receipts'' = Some t \<and> has_column ''walrus_blob_id'' t \<and> has_column ''created_at'' t) \<and>
    (\<exists>t. ct_tables c2 ''payments'' = Some t \<and> has_column ''status'' t \<and> has_column ''request_id'' t) \<and>
    fst (run_migrations (\<lambda>_. None) empty_catalog) = Inr () \<and>
    list_all (\<lambda>(n, t). ct_tables (snd (run_migrations (\<lambda>_. None) empty_catalog)) n = Some t) declared"
proof -
  obtain pre post where p: "statements = pre @ post" "run_statements (\<lambda>_. None) 0 pre c = (Inr (), c1)"
      "run_statements (\<lambda>_. None) (0 + length pre) post c1 = (Inr (), c2)"
    using assms unfolding run_migrations_def by (rule run_prefix)
  have "list_all guarded pre" using statements_guarded unfolding p(1) list_all_append by (rule conjunct1)
  then have "run_statements (\<lambda>_. None) 0 pre c1 = (Inr (), c1)"
    by (intro run_satisfied_ok run_all_satisfied [OF p(2)])
  then have "run_migrations (\<lambda>_. None) c1 = (Inr (), c2)"
    unfolding run_migrations_def p(1) run_append using p(3) by simp
  moreover have sat: "list_all (\<lambda>s. satisfied s c2) statements"
    using assms(2) statements_guarded unfolding run_migrations_def by (rule run_all_satisfied)
  then have "run_migrations (\<lambda>_. None) c2 = (Inr (), c2)"
    unfolding run_migrations_def by (rule run_satisfied_ok)
  moreover have "\<exists>t. ct_tables c2 ''routing_receipts'' = Some t \<and> has_column ''walrus_blob_id'' t \<and> has_column ''created_at'' t"
    "\<exists>t. ct_tables c2 ''payments'' = Some t \<and> has_column ''status'' t \<and> has_column ''request_id'' t"
    using sat by (auto simp: statements_def satisfied_iff nullable_def required_def defaulting_def)
  ultimately show ?thesis using migrations_from_empty by simp
qed

lemma migrations_resume_witness:
  "\<exists>c1 c2. run_migrations (\<lambda>i. if i = 8 then Some ''closed'' else None) empty_catalog = (Inl ''closed'', c1) \<and>
     ct_tables c1 ''turns'' = None \<and> run_migrations (\<lambda>_. None) c1 = (Inr (), c2) \<and> ct_tables c2 ''turns'' \<noteq> None"
proof -
  let ?conn = "\<lambda>i. if i = 8 then Some ''closed'' else None"
  obtain c2 where c2: "run_migrations (\<lambda>_. None) empty_catalog = (Inr (), c2)"
    using migrations_from_empty(1) by (cases "run_migrations (\<lambda>_. None) empty_catalog") auto
  obtain r c1 where c1: "run_migrations ?conn empty_catalog = (r, c1)" by fastforce
  have "fst (run_migrations ?conn empty_catalog) = Inl ''closed''"
    "ct_tables (snd (run_migrations ?conn empty_catalog)) ''turns'' = None"
    "ct_tables (snd (run_migrations (\<lambda>_. None) empty_catalog)) ''turns'' \<noteq> None"
    by code_simp+
  then show ?thesis using migrations_resume [OF c1 c2] c1 c2 by (intro exI [of _ c1] exI [of _ c2]) simp
qed

end
