(* ===== verification/Dispatch_Token.thy ===== *)
theory Dispatch_Token
  imports Sample_Codecs
begin

text \<open>
  \<^verbatim>\<open>DispatchToken\<close> (\<^verbatim>\<open>src/pinaivu-protocol/src/dispatch_token.rs\<close>): the
  coordinator-signed authorisation a winning node receives, with its canonical bytes, signing and
  verification; and the inference request-response messages that carry it
  (\<^verbatim>\<open>mesh/inference_proto.rs\<close>).
\<close>

section \<open>Data\<close>

record dispatch_token =
  dt_request_id :: uuid
  dt_session_id :: uuid
  dt_client_pubkey :: bytes
  dt_primary_peer_id :: node_peer_id
  dt_settlement_id :: string
  dt_max_price_nanox :: nanox
  dt_issued_at_ms :: u64
  dt_deadline_ms :: u64
  dt_coordinator_pubkey :: bytes
  dt_node_x25519_pubkey :: "bytes option"
  dt_signature :: bytes

record token_canonical =
  tc_request_id :: uuid
  tc_session_id :: uuid
  tc_client_pubkey :: bytes
  tc_primary_peer_id :: node_peer_id
  tc_settlement_id :: string
  tc_max_price_nanox :: nanox
  tc_issued_at_ms :: u64
  tc_deadline_ms :: u64
  tc_coordinator_pubkey :: bytes
  tc_node_x25519_pubkey :: "bytes option"

text \<open>The inference job sent to the winner and its reply.\<close>

record inference_dispatch =
  id_dispatch_token :: dispatch_token
  id_session_key :: string
  id_new_user_message :: string
  id_memwal_context :: "string option"

record inference_reply =
  ir_request_id :: uuid
  ir_session_id :: uuid
  ir_content :: string
  ir_input_tokens :: u32
  ir_output_tokens :: u32
  ir_latency_ms :: u32
  ir_error :: "string option"

section \<open>Operations\<close>

definition token_canonical_of :: "dispatch_token \<Rightarrow> token_canonical" where
  "token_canonical_of t =
     \<lparr>tc_request_id = dt_request_id t, tc_session_id = dt_session_id t,
      tc_client_pubkey = dt_client_pubkey t, tc_primary_peer_id = dt_primary_peer_id t,
      tc_settlement_id = dt_settlement_id t, tc_max_price_nanox = dt_max_price_nanox t,
      tc_issued_at_ms = dt_issued_at_ms t, tc_deadline_ms = dt_deadline_ms t,
      tc_coordinator_pubkey = dt_coordinator_pubkey t,
      tc_node_x25519_pubkey = dt_node_x25519_pubkey t\<rparr>"

definition token_canonical_bytes :: "(token_canonical \<Rightarrow> bytes) \<Rightarrow> dispatch_token \<Rightarrow> bytes" where
  "token_canonical_bytes json t = json (token_canonical_of t)"

definition token_sign ::
  "(token_canonical \<Rightarrow> bytes) \<Rightarrow> ed25519 \<Rightarrow> bytes \<Rightarrow> dispatch_token \<Rightarrow> dispatch_token" where
  "token_sign json E key t =
     (let t1 = t\<lparr>dt_coordinator_pubkey := vk_of E key\<rparr>;
          msg = token_canonical_bytes json t1
      in t1\<lparr>dt_signature := ed_sign E key msg\<rparr>)"

definition token_verify ::
  "(token_canonical \<Rightarrow> bytes) \<Rightarrow> ed25519 \<Rightarrow> dispatch_token \<Rightarrow> verify_error + unit" where
  "token_verify json E t =
     verify_sig E (dt_coordinator_pubkey t) (token_canonical_bytes json t) (dt_signature t)"

section \<open>The interface is met\<close>

interpretation token: signed_artefact
  "token_canonical_bytes json" dt_coordinator_pubkey dt_signature
  "\<lambda>pk t. t\<lparr>dt_coordinator_pubkey := pk\<rparr>" "\<lambda>s t. t\<lparr>dt_signature := s\<rparr>"
  "token_sign json" "token_verify json" for json
  by unfold_locales
    (simp_all add: token_canonical_bytes_def token_canonical_of_def token_sign_def token_verify_def Let_def)

lemma token_canonical_of_eq_iff:
  "token_canonical_of t = token_canonical_of u \<longleftrightarrow> t\<lparr>dt_signature := s\<rparr> = u\<lparr>dt_signature := s\<rparr>"
  by (cases t; cases u) (simp add: token_canonical_of_def)

lemma token_canonical_bytes_eq_iff:
  "inj json \<Longrightarrow> token_canonical_bytes json t = token_canonical_bytes json u \<longleftrightarrow>
     t\<lparr>dt_signature := s\<rparr> = u\<lparr>dt_signature := s\<rparr>"
  unfolding token_canonical_bytes_def by (simp add: inj_eq token_canonical_of_eq_iff)

lemma token_eqI:
  "t\<lparr>dt_signature := s\<rparr> = u\<lparr>dt_signature := s\<rparr> \<Longrightarrow> dt_signature t = dt_signature u \<Longrightarrow> t = u"
  by (cases t; cases u) simp

text \<open>Signing touches the key and the signature only.\<close>

lemma token_sign_frame [simp]:
  "dt_request_id (token_sign json E k t) = dt_request_id t"
  "dt_session_id (token_sign json E k t) = dt_session_id t"
  "dt_client_pubkey (token_sign json E k t) = dt_client_pubkey t"
  "dt_primary_peer_id (token_sign json E k t) = dt_primary_peer_id t"
  "dt_settlement_id (token_sign json E k t) = dt_settlement_id t"
  "dt_max_price_nanox (token_sign json E k t) = dt_max_price_nanox t"
  "dt_issued_at_ms (token_sign json E k t) = dt_issued_at_ms t"
  "dt_deadline_ms (token_sign json E k t) = dt_deadline_ms t"
  "dt_node_x25519_pubkey (token_sign json E k t) = dt_node_x25519_pubkey t"
  "dt_coordinator_pubkey (token_sign json E k t) = vk_of E k"
  by (simp_all add: token_sign_def Let_def)

section \<open>Samples\<close>

definition sample_token_json :: "token_canonical \<Rightarrow> bytes" where
  "sample_token_json =
     enc_via (\<lambda>c. (tc_request_id c, tc_session_id c, tc_client_pubkey c, tc_primary_peer_id c,
       tc_settlement_id c, tc_max_price_nanox c, tc_issued_at_ms c, tc_deadline_ms c,
       tc_coordinator_pubkey c, tc_node_x25519_pubkey c))
     (enc_pair enc_uuid (enc_pair enc_uuid (enc_pair enc_bytes
       (enc_pair (enc_via peer_str enc_string) (enc_pair enc_string
       (enc_pair (enc_via nanox_amount enc_word) (enc_pair enc_word (enc_pair enc_word
       (enc_pair enc_bytes (enc_option enc_bytes))))))))))"

lemma sample_token_json_inj: "inj sample_token_json"
  unfolding sample_token_json_def
  by (intro prefix_free_inj prefix_free_intros sample_codec_inj)
    (auto intro!: injI)

definition sample_token :: dispatch_token where
  "sample_token =
     \<lparr>dt_request_id = Uuid (replicate 16 0), dt_session_id = Uuid (replicate 16 0),
      dt_client_pubkey = replicate 32 3, dt_primary_peer_id = NodePeerId ''12D3KooWPrimary'',
      dt_settlement_id = ''free'', dt_max_price_nanox = NanoX 10000,
      dt_issued_at_ms = 1700000000000, dt_deadline_ms = 1700000005000,
      dt_coordinator_pubkey = zeros32, dt_node_x25519_pubkey = None, dt_signature = []\<rparr>"

section \<open>Properties\<close>

text \<open>
  C10: A dispatch token verifies under the coordinator's key after signing, and a token that carries
  the key and the signature of a signed token verifies if and only if it is that token: no
  holder can move the primary node, the deadline, the price cap, the client key or the
  encryption key of a token without the verification failing.
\<close>

theorem token_tamper_evident:
  assumes "ed25519_correct E" and "inj json"
    and "no_forgery E key {token_canonical_bytes json (token_sign json E key t), token_canonical_bytes json u}"
    and "dt_coordinator_pubkey u = vk_of E key"
    and "dt_signature u = dt_signature (token_sign json E key t)"
  shows "token_verify json E (token_sign json E key t) = Inr () \<and>
    token_verify json E u = (if u = token_sign json E key t then Inr () else Inl SignatureMismatch)"
proof -
  have "token_canonical_bytes json u = token_canonical_bytes json (token_sign json E key t)
      \<longleftrightarrow> u = token_sign json E key t"
    using token_canonical_bytes_eq_iff [OF assms(2), of u _ "[]"] assms(5) token_eqI by metis
  then show ?thesis
    using token.verify_altered [OF assms(1,3,4,5)] token.sign_verify [OF assms(1)] by simp
qed

theorem token_tamper_evident_witness:
  "token_verify sample_token_json sample_ed
     ((token_sign sample_token_json sample_ed [1] sample_token)\<lparr>dt_deadline_ms := - 1\<rparr>)
   = Inl SignatureMismatch"
proof -
  let ?t = "token_sign sample_token_json sample_ed [1] sample_token"
  let ?u = "?t\<lparr>dt_deadline_ms := - 1\<rparr>"
  have "token_verify sample_token_json sample_ed ?u =
      (if ?u = ?t then Inr () else Inl SignatureMismatch)"
    by (rule token_tamper_evident [THEN conjunct2]) (simp_all add: sample_token_json_inj)
  moreover have "dt_deadline_ms ?u \<noteq> dt_deadline_ms ?t"
    by (simp add: sample_token_def)
  ultimately show ?thesis by metis
qed

end
