(* ===== verification/Database.thy ===== *)
theory Database
  imports Wire_Types
begin

text \<open>
  The Postgres tables the coordinator reads and writes, as
  \<^verbatim>\<open>src/coordinator/src/persistence/postgres.rs\<close> creates them: one record per table, with the
  table's columns, and the database as the lists of their rows in insertion order. The keys that
  the migrations declare are the well-formedness invariant \<open>db_wf\<close>; every statement of the
  component theories is shown to keep it. Also the JSON values of
  \<^verbatim>\<open>serde_json\<close> and the outcome of executing one statement.
\<close>

section \<open>JSON values\<close>

datatype json =
    JNull
  | JBool bool
  | JNumber int
  | JString string
  | JArray "json list"
  | JObject "(string \<times> json) list"

section \<open>Tables\<close>

type_synonym timestamptz = nat

record receipt_row =
  rcr_request_id :: uuid
  rcr_receipt_json :: json
  rcr_stored_at :: timestamptz
  rcr_walrus_blob_id :: "string option"
  rcr_created_at :: timestamptz

record dispatch_row =
  dr_request_id :: uuid
  dr_primary_peer_id :: string
  dr_dispatched_at_ms :: i64
  dr_deadline_ms :: i64
  dr_status :: string
  dr_escrow_handle_json :: string

record payment_row =
  pr_id :: uuid
  pr_request_id :: uuid
  pr_payee_peer_id :: string
  pr_payee_sui_address :: string
  pr_amount_nanox :: i64
  pr_status :: string
  pr_tx_digest :: "string option"
  pr_created_at :: timestamptz
  pr_submitted_at :: "timestamptz option"
  pr_confirmed_at :: "timestamptz option"

record session_row =
  sr_session_id :: uuid
  sr_user_address :: string
  sr_model_id :: string
  sr_title :: "string option"
  sr_created_at :: timestamptz
  sr_last_updated :: timestamptz
  sr_turn_count :: u32
  sr_total_tokens :: i64
  sr_total_cost_nanox :: i64
  sr_walrus_blob_id :: "string option"
  sr_prev_blob_id :: "string option"
  sr_status :: string

record turn_row =
  tr_turn_id :: uuid
  tr_session_id :: uuid
  tr_user_address :: string
  tr_request_id :: string
  tr_node_peer_id :: "string option"
  tr_input_tokens :: "u32 option"
  tr_output_tokens :: "u32 option"
  tr_latency_ms :: "u32 option"
  tr_cost_nanox :: "i64 option"
  tr_kv_token_hash :: "string option"
  tr_proof_hash :: "string option"
  tr_node_signature :: "string option"
  tr_settlement_status :: string
  tr_sui_tx_digest :: "string option"
  tr_created_at :: timestamptz

record warm_row =
  wr_node_peer_id :: string
  wr_session_id :: uuid
  wr_last_served_at :: timestamptz
  wr_cache_tier :: string

record db =
  db_routing_receipts :: "receipt_row list"
  db_dispatch_jobs :: "dispatch_row list"
  db_payments :: "payment_row list"
  db_sessions :: "session_row list"
  db_turns :: "turn_row list"
  db_node_session_cache :: "warm_row list"

definition db_empty :: db where
  "db_empty = \<lparr>db_routing_receipts = [], db_dispatch_jobs = [], db_payments = [],
     db_sessions = [], db_turns = [], db_node_session_cache = []\<rparr>"

section \<open>Declared constraints\<close>

definition warm_key :: "warm_row \<Rightarrow> string \<times> uuid" where
  "warm_key r = (wr_node_peer_id r, wr_session_id r)"

text \<open>
  The primary keys are unique, and a \<^verbatim>\<open>node_session_cache\<close> or \<^verbatim>\<open>turns\<close> row
  references an existing session.
\<close>

definition db_wf :: "db \<Rightarrow> bool" where
  "db_wf d \<longleftrightarrow>
     distinct (map rcr_request_id (db_routing_receipts d)) \<and>
     distinct (map dr_request_id (db_dispatch_jobs d)) \<and>
     distinct (map pr_id (db_payments d)) \<and>
     distinct (map sr_session_id (db_sessions d)) \<and>
     distinct (map tr_turn_id (db_turns d)) \<and>
     distinct (map warm_key (db_node_session_cache d)) \<and>
     list_all (\<lambda>t. tr_session_id t \<in> set (map sr_session_id (db_sessions d))) (db_turns d) \<and>
     list_all (\<lambda>w. wr_session_id w \<in> set (map sr_session_id (db_sessions d))) (db_node_session_cache d)"

lemma db_wf_empty [simp]: "db_wf db_empty"
  by (simp add: db_wf_def db_empty_def)

section \<open>Statements\<close>

text \<open>
  What the environment decides for one executed statement: the value of \<^verbatim>\<open>NOW()\<close>, a value
  of \<^verbatim>\<open>Uuid::new_v4()\<close> where the caller draws one, and the connection-level error that keeps
  the statement from running, if any.
\<close>

record stmt_env =
  se_now :: timestamptz
  se_uuid :: uuid
  se_err :: "string option"

definition stmt_ok :: "stmt_env \<Rightarrow> bool" where
  "stmt_ok e \<longleftrightarrow> se_err e = None"

definition sample_env :: "nat \<Rightarrow> stmt_env" where
  "sample_env n = \<lparr>se_now = n, se_uuid = Uuid [of_nat n], se_err = None\<rparr>"

text \<open>\<^verbatim>\<open>UPDATE ... WHERE key = k\<close> on a table: the rows with the key are rewritten in place.\<close>

definition update_where :: "('r \<Rightarrow> bool) \<Rightarrow> ('r \<Rightarrow> 'r) \<Rightarrow> 'r list \<Rightarrow> 'r list" where
  "update_where p f rows = map (\<lambda>r. if p r then f r else r) rows"

lemma update_where_keys: "(\<And>r. key (f r) = key r) \<Longrightarrow> map key (update_where p f rows) = map key rows"
  by (induction rows) (simp_all add: update_where_def)

lemma update_where_filter_other:
  "(\<And>r. p r \<Longrightarrow> \<not> q r) \<Longrightarrow> (\<And>r. p r \<Longrightarrow> \<not> q (f r)) \<Longrightarrow> filter q (update_where p f rows) = filter q rows"
  by (induction rows) (auto simp: update_where_def)

lemma length_update_where [simp]: "length (update_where p f rows) = length rows"
  by (simp add: update_where_def)

lemma set_update_where: "set (update_where p f rows) = (\<lambda>r. if p r then f r else r) ` set rows"
  by (simp add: update_where_def)

text \<open>\<^verbatim>\<open>SELECT\<close> of the row with a key, which is unique in a well-formed table.\<close>

lemma find_by_key:
  assumes "distinct (map key rows)" "r \<in> set rows"
  shows "find (\<lambda>x. key x = key r) rows = Some r"
  using assms by (induction rows) (auto simp: image_iff)

text \<open>
  \<^verbatim>\<open>INSERT ... ON CONFLICT (key) DO UPDATE\<close>: the row with the key is rewritten, or the new
  row appended.
\<close>

definition upsert_by :: "('r \<Rightarrow> 'k) \<Rightarrow> 'r \<Rightarrow> ('r \<Rightarrow> 'r) \<Rightarrow> 'r list \<Rightarrow> 'r list" where
  "upsert_by key new f rows =
     (if list_ex (\<lambda>r. key r = key new) rows
      then update_where (\<lambda>r. key r = key new) f rows else rows @ [new])"

lemma upsert_by_distinct:
  assumes "distinct (map key rows)" "\<And>r. key (f r) = key r"
  shows "distinct (map key (upsert_by key new f rows))"
  using assms by (auto simp: upsert_by_def list_ex_iff update_where_keys)

lemma upsert_by_keys:
  assumes "\<And>r. key (f r) = key r"
  shows "set (map key (upsert_by key new f rows)) = insert (key new) (set (map key rows))"
proof -
  have "map key (update_where (\<lambda>r. key r = key new) f rows) = map key rows"
    using assms by (rule update_where_keys)
  then have "key ` set (update_where (\<lambda>r. key r = key new) f rows) = key ` set rows"
    by (metis set_map)
  then show ?thesis by (auto simp: upsert_by_def list_ex_iff) (metis imageI)
qed

lemma find_upsert_same:
  assumes "\<And>r. key (f r) = key r"
  shows "\<exists>r. find (\<lambda>x. key x = key new) (upsert_by key new f rows) = Some r \<and>
     (r = new \<or> (\<exists>s\<in>set rows. r = f s))"
proof (cases "list_ex (\<lambda>r. key r = key new) rows")
  case True
  then have "\<exists>s\<in>set rows. find (\<lambda>x. key x = key new) (update_where (\<lambda>r. key r = key new) f rows) = Some (f s)"
    using assms by (induction rows) (auto simp: update_where_def)
  with True show ?thesis by (auto simp: upsert_by_def)
next
  case False
  then have "find (\<lambda>x. key x = key new) (rows @ [new]) = Some new"
    by (induction rows) auto
  with False show ?thesis by (auto simp: upsert_by_def)
qed

lemma find_upsert_other:
  assumes "\<And>r. key (f r) = key r" "k \<noteq> key new"
  shows "find (\<lambda>x. key x = k) (upsert_by key new f rows) = find (\<lambda>x. key x = k) rows"
proof -
  have "find (\<lambda>x. key x = k) (update_where (\<lambda>r. key r = key new) f rows) = find (\<lambda>x. key x = k) rows"
    using assms by (induction rows) (auto simp: update_where_def)
  moreover have "find (\<lambda>x. key x = k) (rows @ [new]) = find (\<lambda>x. key x = k) rows"
    using assms(2) by (induction rows) auto
  ultimately show ?thesis by (simp add: upsert_by_def)
qed

end
