(* ===== verification/Auction.thy ===== *)
theory Auction
  imports Database
begin

text \<open>
  The sealed-bid auction (\<^verbatim>\<open>src/coordinator/src/marketplace/auction.rs\<close>): collection of bids
  over a window, the composite scores in binary32 arithmetic, and the choice of the winner with
  its tie-breaks and warm-cache bonus.
\<close>

section \<open>Weights\<close>

definition WEIGHT_PRICE :: f32 where "WEIGHT_PRICE = f32_of_rat (4 / 10)"
definition WEIGHT_LATENCY :: f32 where "WEIGHT_LATENCY = f32_of_rat (3 / 10)"
definition WEIGHT_REPUTATION :: f32 where "WEIGHT_REPUTATION = f32_of_rat (3 / 10)"
definition WEIGHT_PRICE_W :: f32 where "WEIGHT_PRICE_W = f32_of_rat (35 / 100)"
definition WEIGHT_LATENCY_W :: f32 where "WEIGHT_LATENCY_W = f32_of_rat (25 / 100)"
definition WEIGHT_REPUTATION_W :: f32 where "WEIGHT_REPUTATION_W = f32_of_rat (25 / 100)"
definition WEIGHT_WARMTH :: f32 where "WEIGHT_WARMTH = f32_of_rat (15 / 100)"

text \<open>The collection window, in milliseconds.\<close>

definition DEFAULT_AUCTION_WINDOW :: nat where
  "DEFAULT_AUCTION_WINDOW = 1500"

section \<open>Warmth\<close>

type_synonym warmth_map = "string \<rightharpoonup> f32"

definition warmth_for_tier :: "string \<Rightarrow> f32" where
  "warmth_for_tier tier =
     (if tier = ''gpu'' then Fin 1
      else if tier = ''cpu'' then f32_of_rat (7 / 10)
      else if tier = ''disk'' then f32_of_rat (4 / 10)
      else Fin 0)"

text \<open>
  The \<^verbatim>\<open>SELECT node_peer_id, cache_tier\<close> of one session. The pool is absent, or present
  with the database behind it and the environment of the statement. Collecting into a
  \<^verbatim>\<open>HashMap\<close> lets a later row replace an earlier one.
\<close>

definition select_warmth :: "uuid \<Rightarrow> db \<Rightarrow> (string \<times> string) list" where
  "select_warmth session_id d =
     map (\<lambda>w. (wr_node_peer_id w, wr_cache_tier w))
       (filter (\<lambda>w. wr_session_id w = session_id) (db_node_session_cache d))"

definition fetch_warmth_map :: "stmt_env \<Rightarrow> db option \<Rightarrow> uuid \<Rightarrow> warmth_map" where
  "fetch_warmth_map env pool session_id =
     (case pool of
        None \<Rightarrow> Map.empty
      | Some d \<Rightarrow>
          (case se_err env of
             Some _ \<Rightarrow> Map.empty
           | None \<Rightarrow>
               map_of (rev (map (\<lambda>(peer, tier). (peer, warmth_for_tier tier)) (select_warmth session_id d)))))"

section \<open>Bid collection\<close>

text \<open>What one \<^verbatim>\<open>timeout_at(deadline, rx.recv())\<close> yields.\<close>

datatype recv_outcome = RecvBid inference_bid | SenderClosed | DeadlineReached

text \<open>The loop, on the outcomes of its successive receives; \<open>None\<close>: still waiting.\<close>

fun collect_bids_loop :: "inference_bid list \<Rightarrow> recv_outcome list \<Rightarrow> inference_bid list option" where
  "collect_bids_loop bids [] = None"
| "collect_bids_loop bids (RecvBid b # rs) = collect_bids_loop (bids @ [b]) rs"
| "collect_bids_loop bids (SenderClosed # rs) = Some bids"
| "collect_bids_loop bids (DeadlineReached # rs) = Some bids"

definition collect_bids :: "recv_outcome list \<Rightarrow> inference_bid list option" where
  "collect_bids rs = collect_bids_loop [] rs"

section \<open>Scores\<close>

definition inv_or_zero :: "f32 \<Rightarrow> f32" where
  "inv_or_zero x = (if f32_gt x (Fin 0) then f32_recip x else Fin 0)"

definition score_bid :: "inference_bid \<Rightarrow> f32" where
  "score_bid bid =
     (let price = f32_of_u64 (nanox_amount (bid_price_per_1k bid));
          latency = f32_of_u32 (bid_latency_ms bid);
          inv_price = inv_or_zero price;
          inv_latency = inv_or_zero latency
      in f32_add (f32_add (f32_mul WEIGHT_PRICE inv_price) (f32_mul WEIGHT_LATENCY inv_latency))
           (f32_mul WEIGHT_REPUTATION (bid_reputation bid)))"

definition score_bid_with_warmth :: "inference_bid \<Rightarrow> f32 \<Rightarrow> f32" where
  "score_bid_with_warmth bid warmth =
     (let price = f32_of_u64 (nanox_amount (bid_price_per_1k bid));
          latency = f32_of_u32 (bid_latency_ms bid);
          inv_price = inv_or_zero price;
          inv_latency = inv_or_zero latency
      in f32_add
           (f32_add (f32_add (f32_mul WEIGHT_PRICE_W inv_price) (f32_mul WEIGHT_LATENCY_W inv_latency))
             (f32_mul WEIGHT_REPUTATION_W (bid_reputation bid)))
           (f32_mul WEIGHT_WARMTH (f32_clamp warmth (Fin 0) (Fin 1))))"

section \<open>The winner\<close>

definition warmth_of :: "warmth_map \<Rightarrow> inference_bid \<Rightarrow> f32" where
  "warmth_of warmth_map b =
     (case warmth_map (peer_str (bid_node_peer_id b)) of None \<Rightarrow> Fin 0 | Some w \<Rightarrow> w)"

definition compare_bids :: "warmth_map \<Rightarrow> inference_bid \<Rightarrow> inference_bid \<Rightarrow> ordering" where
  "compare_bids warmth_map a b =
     (let wa = warmth_of warmth_map a;
          wb = warmth_of warmth_map b;
          sa = score_bid_with_warmth a wa;
          sb = score_bid_with_warmth b wb
      in case (case f32_partial_cmp sa sb of None \<Rightarrow> Equal | Some c \<Rightarrow> c) of
           Equal \<Rightarrow>
             (case cmp_nat (unat (nanox_amount (bid_price_per_1k b))) (unat (nanox_amount (bid_price_per_1k a))) of
                Equal \<Rightarrow> cmp_nat (unat (bid_latency_ms b)) (unat (bid_latency_ms a))
              | other \<Rightarrow> other)
         | other \<Rightarrow> other)"

definition pick_winner_with_warmth :: "inference_bid list \<Rightarrow> warmth_map \<Rightarrow> inference_bid option" where
  "pick_winner_with_warmth bids warmth_map = max_by (compare_bids warmth_map) bids"

definition pick_winner :: "inference_bid list \<Rightarrow> inference_bid option" where
  "pick_winner bids = pick_winner_with_warmth bids Map.empty"

section \<open>Values of the weights\<close>

lemma weight_values:
  "WEIGHT_PRICE_W = Fin (11744051 / 33554432)" "WEIGHT_LATENCY_W = Fin (1 / 4)"
  "WEIGHT_REPUTATION_W = Fin (1 / 4)" "WEIGHT_WARMTH = Fin (5033165 / 33554432)"
  by code_simp+

lemma f32_of_rat_2: "f32_of_rat 2 = Fin 2"
  by code_simp

section \<open>The inverse terms\<close>

lemma f32_of_nat_pos:
  assumes "0 < n"
  shows "f32_of_rat (of_nat n) = PInf \<or> (\<exists>a. f32_of_rat (of_nat n) = Fin a \<and> 1 \<le> a)"
proof -
  have "f32_le (Fin 1) (f32_of_rat (of_nat n))"
    using f32_of_rat_mono [of 1 "of_nat n"] assms by (simp add: f32_of_rat_1)
  then show ?thesis by (cases "f32_of_rat (of_nat n)") auto
qed

lemma inv_or_zero_unit:
  obtains y where "inv_or_zero (f32_of_rat (of_nat n)) = Fin y" "0 \<le> y" "y \<le> 1"
proof (cases "n = 0")
  case True
  then show thesis by (intro that [of 0]) (simp_all add: inv_or_zero_def f32_gt_def)
next
  case False
  then consider "f32_of_rat (of_nat n) = PInf" | a where "f32_of_rat (of_nat n) = Fin a" "1 \<le> a"
    using f32_of_nat_pos [of n] by auto
  then show thesis
  proof cases
    case 1
    then show thesis by (intro that [of 0]) (simp_all add: inv_or_zero_def f32_gt_def)
  next
    case 2
    obtain y where "f32_of_rat (1 / a) = Fin y" "0 \<le> y" "y \<le> 1"
      by (rule f32_of_rat_unit [of "1 / a"]) (use 2 in \<open>simp_all add: divide_le_eq\<close>)
    with 2 show thesis by (intro that [of y]) (simp_all add: inv_or_zero_def f32_gt_def)
  qed
qed

lemma inv_or_zero_antimono:
  assumes "0 < m" "m \<le> n"
  shows "f32_le (inv_or_zero (f32_of_rat (of_nat n))) (inv_or_zero (f32_of_rat (of_nat m)))"
proof -
  have le: "f32_le (f32_of_rat (of_nat m)) (f32_of_rat (of_nat n))"
    using assms by (intro f32_of_rat_mono) simp
  obtain y where y: "inv_or_zero (f32_of_rat (of_nat m)) = Fin y" "0 \<le> y" "y \<le> 1"
    by (rule inv_or_zero_unit)
  consider "f32_of_rat (of_nat n) = PInf" | b where "f32_of_rat (of_nat n) = Fin b" "1 \<le> b"
    using f32_of_nat_pos [of n] assms by auto
  then show ?thesis
  proof cases
    case 1
    then show ?thesis using y by (simp add: inv_or_zero_def f32_gt_def)
  next
    case 2
    then obtain a where a: "f32_of_rat (of_nat m) = Fin a" "1 \<le> a" "a \<le> b"
      using f32_of_nat_pos [of m] assms le by auto
    then have "f32_le (f32_of_rat (1 / b)) (f32_of_rat (1 / a))"
      using 2 by (intro f32_of_rat_mono frac_le) auto
    with 2 a show ?thesis by (simp add: inv_or_zero_def f32_gt_def)
  qed
qed

section \<open>The score is a number, and monotone\<close>

lemma f32_weighted_unit:
  assumes "0 \<le> c" "c \<le> 1" "0 \<le> x" "x \<le> 1"
  obtains y where "f32_mul (Fin c) (Fin x) = Fin y" "0 \<le> y" "y \<le> 1"
  by (rule f32_of_rat_unit [of "c * x"]) (use assms that in \<open>auto simp: mult_le_one\<close>)

lemma f32_add_units:
  assumes "0 \<le> x" "x \<le> 1" "0 \<le> y" "y \<le> 1"
  obtains z where "f32_add (Fin x) (Fin y) = Fin z"
proof -
  have "f32_le (Fin 0) (f32_of_rat (x + y))" "f32_le (f32_of_rat (x + y)) (Fin 2)"
    using f32_of_rat_mono [of 0 "x + y"] f32_of_rat_mono [of "x + y" 2] assms
    by (simp_all add: f32_of_rat_2)
  then show thesis using that by (cases "f32_of_rat (x + y)") auto
qed

text \<open>Price and latency together contribute a finite amount, whatever the bid says.\<close>

definition price_latency_term :: "inference_bid \<Rightarrow> f32" where
  "price_latency_term bid =
     f32_add (f32_mul WEIGHT_PRICE_W (inv_or_zero (f32_of_u64 (nanox_amount (bid_price_per_1k bid)))))
       (f32_mul WEIGHT_LATENCY_W (inv_or_zero (f32_of_u32 (bid_latency_ms bid))))"

definition warmth_term :: "f32 \<Rightarrow> f32" where
  "warmth_term w = f32_mul WEIGHT_WARMTH (f32_clamp w (Fin 0) (Fin 1))"

lemma score_terms:
  "score_bid_with_warmth bid w =
     f32_add (f32_add (price_latency_term bid) (f32_mul WEIGHT_REPUTATION_W (bid_reputation bid))) (warmth_term w)"
  by (simp add: score_bid_with_warmth_def price_latency_term_def warmth_term_def Let_def)

lemma price_latency_finite: "\<exists>x. price_latency_term bid = Fin x"
proof -
  obtain p where p: "inv_or_zero (f32_of_u64 (nanox_amount (bid_price_per_1k bid))) = Fin p" "0 \<le> p" "p \<le> 1"
    unfolding f32_of_u64_def by (rule inv_or_zero_unit)
  obtain l where l: "inv_or_zero (f32_of_u32 (bid_latency_ms bid)) = Fin l" "0 \<le> l" "l \<le> 1"
    unfolding f32_of_u32_def by (rule inv_or_zero_unit)
  obtain x where x: "f32_mul WEIGHT_PRICE_W (Fin p) = Fin x" "0 \<le> x" "x \<le> 1"
    unfolding weight_values by (rule f32_weighted_unit [of "11744051 / 33554432" p]) (use p in auto)
  obtain y where y: "f32_mul WEIGHT_LATENCY_W (Fin l) = Fin y" "0 \<le> y" "y \<le> 1"
    unfolding weight_values by (rule f32_weighted_unit [of "1 / 4" l]) (use l in auto)
  obtain z where "f32_add (Fin x) (Fin y) = Fin z"
    by (rule f32_add_units [of x y]) (use x y in auto)
  then show ?thesis by (simp only: price_latency_term_def p l x y) blast
qed

lemma clamp_unit:
  assumes "w \<noteq> NaN"
  obtains y where "f32_clamp w (Fin 0) (Fin 1) = Fin y" "0 \<le> y" "y \<le> 1"
proof -
  have "\<exists>y. f32_clamp w (Fin 0) (Fin 1) = Fin y \<and> 0 \<le> y \<and> y \<le> 1"
    using assms by (cases w) (auto simp: f32_clamp_def f32_lt_def f32_gt_def)
  then show thesis using that by blast
qed

lemma clamp_mono: "f32_le v w \<Longrightarrow> f32_le (f32_clamp v (Fin 0) (Fin 1)) (f32_clamp w (Fin 0) (Fin 1))"
  by (cases v; cases w) (auto simp: f32_clamp_def f32_lt_def f32_gt_def split: if_splits)

lemma warmth_finite:
  assumes "w \<noteq> NaN"
  shows "\<exists>x. warmth_term w = Fin x"
proof -
  obtain y where y: "f32_clamp w (Fin 0) (Fin 1) = Fin y" "0 \<le> y" "y \<le> 1"
    using assms by (rule clamp_unit)
  obtain x where "f32_mul WEIGHT_WARMTH (Fin y) = Fin x"
    unfolding weight_values by (rule f32_weighted_unit [of "5033165 / 33554432" y]) (use y in auto)
  then show ?thesis by (simp only: warmth_term_def y) blast
qed

lemma score_not_NaN:
  assumes "bid_reputation bid \<noteq> NaN" "w \<noteq> NaN"
  shows "score_bid_with_warmth bid w \<noteq> NaN"
proof -
  obtain x where x: "price_latency_term bid = Fin x" using price_latency_finite by blast
  obtain y where y: "warmth_term w = Fin y" using warmth_finite assms(2) by blast
  have "f32_mul WEIGHT_REPUTATION_W (bid_reputation bid) \<noteq> NaN"
    unfolding weight_values by (rule f32_mul_not_NaN) (use assms in auto)
  then show ?thesis
    unfolding score_terms x y by (intro f32_add_Fin_not_NaN)
qed

lemma price_latency_mono:
  assumes "0 < nanox_amount (bid_price_per_1k a)" "nanox_amount (bid_price_per_1k a) \<le> nanox_amount (bid_price_per_1k b)"
    and "0 < bid_latency_ms a" "bid_latency_ms a \<le> bid_latency_ms b"
  shows "f32_le (price_latency_term b) (price_latency_term a)"
proof -
  have "f32_le (f32_mul WEIGHT_PRICE_W (inv_or_zero (f32_of_u64 (nanox_amount (bid_price_per_1k b)))))
      (f32_mul WEIGHT_PRICE_W (inv_or_zero (f32_of_u64 (nanox_amount (bid_price_per_1k a)))))"
    unfolding weight_values f32_of_u64_def using assms(1,2)
    by (intro f32_mul_mono inv_or_zero_antimono) (simp_all add: word_le_nat_alt word_less_nat_alt)
  moreover have "f32_le (f32_mul WEIGHT_LATENCY_W (inv_or_zero (f32_of_u32 (bid_latency_ms b))))
      (f32_mul WEIGHT_LATENCY_W (inv_or_zero (f32_of_u32 (bid_latency_ms a))))"
    unfolding weight_values f32_of_u32_def using assms(3,4)
    by (intro f32_mul_mono inv_or_zero_antimono) (simp_all add: word_le_nat_alt word_less_nat_alt)
  ultimately show ?thesis
    using price_latency_finite [of a] price_latency_finite [of b]
    unfolding price_latency_term_def by (intro f32_add_mono) auto
qed

lemma score_mono:
  assumes "f32_le (price_latency_term b) (price_latency_term a)"
    and "f32_le (bid_reputation b) (bid_reputation a)" "f32_le v w"
  shows "f32_le (score_bid_with_warmth b v) (score_bid_with_warmth a w)"
proof -
  have nn: "bid_reputation a \<noteq> NaN" "bid_reputation b \<noteq> NaN" "v \<noteq> NaN" "w \<noteq> NaN"
    using assms(2,3) by auto
  obtain x y where xy: "price_latency_term a = Fin x" "price_latency_term b = Fin y"
    using price_latency_finite by blast
  have rep: "f32_le (f32_mul WEIGHT_REPUTATION_W (bid_reputation b)) (f32_mul WEIGHT_REPUTATION_W (bid_reputation a))"
    unfolding weight_values by (intro f32_mul_mono assms) simp
  then have repn: "f32_mul WEIGHT_REPUTATION_W (bid_reputation b) \<noteq> NaN"
      "f32_mul WEIGHT_REPUTATION_W (bid_reputation a) \<noteq> NaN" by auto
  have warm: "f32_le (warmth_term v) (warmth_term w)"
    unfolding weight_values warmth_term_def by (intro f32_mul_mono clamp_mono assms) simp
  have "f32_le (f32_add (price_latency_term b) (f32_mul WEIGHT_REPUTATION_W (bid_reputation b)))
      (f32_add (price_latency_term a) (f32_mul WEIGHT_REPUTATION_W (bid_reputation a)))"
    using repn unfolding xy by (intro f32_add_mono rep f32_add_Fin_not_NaN) (use assms(1) xy in auto)
  then show ?thesis
    unfolding score_terms using warm score_not_NaN [OF nn(1,4)] score_not_NaN [OF nn(2,3)]
    by (intro f32_add_mono [OF _ warm]) (simp_all add: score_terms)
qed

text \<open>
  C17: A bid that is at least as good in every respect scores at least as high: with a non-zero price
  and latency no greater than another's, at least its reputation and at least its warmth, the
  composite binary32 score (rounding of every operation included) is at least the other's.
\<close>

theorem dominating_bid_scores_higher:
  assumes "0 < nanox_amount (bid_price_per_1k a)"
    and "nanox_amount (bid_price_per_1k a) \<le> nanox_amount (bid_price_per_1k b)"
    and "0 < bid_latency_ms a" and "bid_latency_ms a \<le> bid_latency_ms b"
    and "f32_le (bid_reputation b) (bid_reputation a)" and "f32_le v w"
  shows "f32_le (score_bid_with_warmth b v) (score_bid_with_warmth a w)"
  using price_latency_mono [OF assms(1-4)] assms(5,6) by (rule score_mono)

definition sample_bid :: "string \<Rightarrow> u64 \<Rightarrow> u32 \<Rightarrow> f32 \<Rightarrow> inference_bid" where
  "sample_bid peer price latency reputation =
     \<lparr>bid_request_id = Uuid [], bid_node_peer_id = NodePeerId peer, bid_price_per_1k = NanoX price,
      bid_latency_ms = latency, bid_reputation = reputation, bid_http_endpoint = [],
      bid_payout_address = peer, bid_node_x25519_pubkey = None\<rparr>"

lemma dominating_bid_scores_higher_witness:
  "f32_le (score_bid_with_warmth (sample_bid ''B'' 90 300 (Fin (1 / 2))) (Fin 0))
     (score_bid_with_warmth (sample_bid ''A'' 50 300 (Fin (3 / 4))) (Fin 1))"
  by (rule dominating_bid_scores_higher) (simp_all add: sample_bid_def)

section \<open>The order of the auction\<close>

definition bid_score :: "warmth_map \<Rightarrow> inference_bid \<Rightarrow> f32" where
  "bid_score wm b = score_bid_with_warmth b (warmth_of wm b)"

text \<open>The bids the comparison orders: those whose score is a number.\<close>

definition scored :: "warmth_map \<Rightarrow> inference_bid \<Rightarrow> bool" where
  "scored wm b \<longleftrightarrow> bid_score wm b \<noteq> NaN"

text \<open>\<open>b\<close> does not beat \<open>w\<close>: its score is lower, or equal with a higher price, or equal in both with no lower latency.\<close>

definition not_better :: "warmth_map \<Rightarrow> inference_bid \<Rightarrow> inference_bid \<Rightarrow> bool" where
  "not_better wm b w \<longleftrightarrow>
     f32_lt (bid_score wm b) (bid_score wm w) \<or>
     bid_score wm b = bid_score wm w \<and>
       (nanox_amount (bid_price_per_1k w) < nanox_amount (bid_price_per_1k b) \<or>
        nanox_amount (bid_price_per_1k w) = nanox_amount (bid_price_per_1k b) \<and> bid_latency_ms w \<le> bid_latency_ms b)"

lemma f32_lt_trans: "f32_lt a b \<Longrightarrow> f32_lt b c \<Longrightarrow> f32_lt a c"
  by (cases a; cases b; cases c) (auto simp: f32_lt_def split: if_splits)

lemma f32_partial_cmp_lt:
  assumes "a \<noteq> NaN" "b \<noteq> NaN"
  shows "f32_partial_cmp a b = Some (if f32_lt a b then Less else if a = b then Equal else Greater)"
  using assms by (cases a; cases b) (auto simp: f32_lt_def)

lemma f32_lt_linear: "a \<noteq> NaN \<Longrightarrow> b \<noteq> NaN \<Longrightarrow> a \<noteq> b \<Longrightarrow> f32_lt a b \<longleftrightarrow> \<not> f32_lt b a"
  by (cases a; cases b) (auto simp: f32_lt_def)

lemma f32_lt_irrefl [simp]: "\<not> f32_lt a a"
  by (cases a) (auto simp: f32_lt_def)

lemma compare_bids_scored:
  assumes "scored wm a" "scored wm b"
  shows "compare_bids wm a b =
    (if f32_lt (bid_score wm a) (bid_score wm b) then Less
     else if bid_score wm a = bid_score wm b then
       (if nanox_amount (bid_price_per_1k b) = nanox_amount (bid_price_per_1k a)
        then cmp_nat (unat (bid_latency_ms b)) (unat (bid_latency_ms a))
        else if nanox_amount (bid_price_per_1k b) < nanox_amount (bid_price_per_1k a) then Less else Greater)
     else Greater)"
  using assms
  by (simp add: compare_bids_def scored_def bid_score_def Let_def f32_partial_cmp_lt cmp_nat_def
      word_less_nat_alt word_unat_eq_iff split: ordering.split)

lemma compare_bids_not_Greater:
  assumes "scored wm a" "scored wm b"
  shows "compare_bids wm a b \<noteq> Greater \<longleftrightarrow> not_better wm a b"
  using assms
  by (auto simp: compare_bids_scored not_better_def cmp_nat_def word_less_nat_alt word_le_nat_alt word_unat_eq_iff)

interpretation auction: comparison "scored wm" "compare_bids wm" for wm
proof unfold_locales
  fix a b c
  show "scored wm a \<Longrightarrow> compare_bids wm a a = Equal"
    by (simp add: compare_bids_scored cmp_nat_def)
  show "scored wm a \<Longrightarrow> scored wm b \<Longrightarrow> compare_bids wm a b = Greater \<longleftrightarrow> compare_bids wm b a = Less"
    using f32_lt_linear [of "bid_score wm a" "bid_score wm b"]
    by (auto simp: compare_bids_scored cmp_nat_def scored_def)
  show "scored wm a \<Longrightarrow> scored wm b \<Longrightarrow> scored wm c \<Longrightarrow> compare_bids wm a b \<noteq> Greater \<Longrightarrow>
      compare_bids wm b c \<noteq> Greater \<Longrightarrow> compare_bids wm a c \<noteq> Greater"
    using f32_lt_trans [of "bid_score wm a" "bid_score wm b" "bid_score wm c"]
    by (auto simp: compare_bids_not_Greater not_better_def)
qed

lemma warmth_for_tier_not_NaN: "warmth_for_tier t \<noteq> NaN"
  by (simp add: warmth_for_tier_def)

lemma fetch_warmth_map_not_NaN:
  assumes "fetch_warmth_map env pool sid p = Some w"
  shows "w \<noteq> NaN"
proof -
  obtain d where "map_of (rev (map (\<lambda>(peer, tier). (peer, warmth_for_tier tier)) (select_warmth sid d))) p = Some w"
    using assms by (auto simp: fetch_warmth_map_def split: option.splits)
  then obtain t where "w = warmth_for_tier t"
    by (auto dest!: map_of_SomeD)
  then show ?thesis by (simp add: warmth_for_tier_not_NaN)
qed

lemma warmth_of_fetched: "warmth_of (fetch_warmth_map env pool sid) b \<noteq> NaN"
  by (auto simp: warmth_of_def dest: fetch_warmth_map_not_NaN split: option.splits)

text \<open>
  C16: The auction run by the request handler, on the bids collected and the warmth table of the
  session: when no bid declares a NaN reputation, it has a winner exactly when there is a bid, the
  winner is one of the bids, and no bid beats it: every bid has a lower score, or the same score and
  a higher price, or the same score and price and no lower latency.
\<close>

theorem auction_winner_is_best:
  assumes "\<forall>b\<in>set bids. bid_reputation b \<noteq> NaN"
  shows "case pick_winner_with_warmth bids (fetch_warmth_map env pool sid) of
           None \<Rightarrow> bids = []
         | Some w \<Rightarrow> w \<in> set bids \<and> (\<forall>b\<in>set bids. not_better (fetch_warmth_map env pool sid) b w)"
proof -
  let ?wm = "fetch_warmth_map env pool sid"
  have ok: "\<forall>b\<in>set bids. scored ?wm b"
    using assms score_not_NaN warmth_of_fetched by (simp add: scored_def bid_score_def)
  show ?thesis
  proof (cases "pick_winner_with_warmth bids ?wm")
    case None
    then show ?thesis by (simp add: pick_winner_with_warmth_def)
  next
    case (Some w)
    then have w: "max_by (compare_bids ?wm) bids = Some w"
      by (simp add: pick_winner_with_warmth_def)
    then have "w \<in> set bids" by (rule max_by_in)
    then show ?thesis
      using Some ok auction.max_by_upper [OF w ok] compare_bids_not_Greater by auto
  qed
qed

lemma auction_winner_is_best_witness:
  "case pick_winner_with_warmth [sample_bid ''A'' 100 500 (Fin (1 / 2))] (fetch_warmth_map (sample_env 0) None (Uuid [])) of
     None \<Rightarrow> [sample_bid ''A'' 100 500 (Fin (1 / 2))] = []
   | Some w \<Rightarrow> w \<in> set [sample_bid ''A'' 100 500 (Fin (1 / 2))] \<and>
       (\<forall>b\<in>set [sample_bid ''A'' 100 500 (Fin (1 / 2))]. not_better (fetch_warmth_map (sample_env 0) None (Uuid [])) b w)"
  by (rule auction_winner_is_best) (simp add: sample_bid_def)

section \<open>The warm-cache formula is not the three-term formula\<close>

definition cheap_bid :: inference_bid where
  "cheap_bid = sample_bid ''A'' 1 0 (Fin 0)"

definition reputable_bid :: inference_bid where
  "reputable_bid = sample_bid ''B'' 0 0 (Fin (11 / 8))"

lemma three_term_weight_values:
  "WEIGHT_PRICE = Fin (13421773 / 33554432)" "WEIGHT_LATENCY = Fin (5033165 / 16777216)"
  "WEIGHT_REPUTATION = Fin (5033165 / 16777216)"
  by code_simp+

lemma f32_of_rat_quarter:
  assumes "1 / 4 \<le> x" "x < 1 / 2" "round_half_even (x * 33554432) = m"
  shows "f32_of_rat x = Fin (of_int m / 33554432)"
  using f32_of_rat_eqI [of "- 2" x m] assms by (simp add: power_int_def power_divide)

lemma floor_rounding: "\<lfloor>55364815 / 4 :: rat\<rfloor> = 13841203"
  by (simp add: floor_eq_iff)

lemma rounded_values:
  "f32_of_rat (13421773 / 33554432) = Fin (13421773 / 33554432)"
  "f32_of_rat (11744051 / 33554432) = Fin (11744051 / 33554432)"
  "f32_of_rat (55364815 / 134217728) = Fin (13841204 / 33554432)"
  "f32_of_rat (13841204 / 33554432) = Fin (13841204 / 33554432)"
  "f32_of_rat (11 / 32) = Fin (11 / 32)"
  using f32_of_rat_quarter [of "13421773 / 33554432" 13421773]
    f32_of_rat_quarter [of "11744051 / 33554432" 11744051]
    f32_of_rat_quarter [of "55364815 / 134217728" 13841204]
    f32_of_rat_quarter [of "13841204 / 33554432" 13841204]
    f32_of_rat_quarter [of "11 / 32" 11534336]
  by (simp_all add: round_half_even_def Let_def floor_rounding)

lemma score_values:
  "score_bid cheap_bid = Fin (13421773 / 33554432)"
  "score_bid reputable_bid = Fin (13841204 / 33554432)"
  "score_bid_with_warmth cheap_bid (Fin 0) = Fin (11744051 / 33554432)"
  "score_bid_with_warmth reputable_bid (Fin 0) = Fin (11 / 32)"
  using rounded_values
  by (simp_all add: score_bid_def score_bid_with_warmth_def cheap_bid_def reputable_bid_def sample_bid_def
      three_term_weight_values weight_values f32_of_u64_def f32_of_u32_def f32_of_rat_1 inv_or_zero_def
      f32_gt_def f32_clamp_def f32_lt_def Let_def)

text \<open>
  With no warmth known, \<open>pick_winner\<close> does not rank bids by the three-term score: there are two
  bids where one has the strictly higher \<open>score_bid\<close> and the auction picks the other, because the
  warmth-aware weights 0.35/0.25/0.25 are applied even when every warmth is zero.
\<close>

theorem pick_winner_ignores_three_term_score:
  "f32_lt (score_bid cheap_bid) (score_bid reputable_bid) \<and>
   pick_winner [cheap_bid, reputable_bid] = Some cheap_bid"
proof -
  have w: "warmth_of Map.empty b = Fin 0" for b
    by (simp add: warmth_of_def)
  have "compare_bids Map.empty cheap_bid reputable_bid = Greater"
    by (simp add: compare_bids_def w score_values)
  then show ?thesis
    by (simp add: score_values f32_lt_def pick_winner_def pick_winner_with_warmth_def)
qed

section \<open>Collection of bids\<close>

lemma collect_bids_loop_spec:
  assumes "r = SenderClosed \<or> r = DeadlineReached"
  shows "collect_bids_loop acc (map RecvBid bs @ r # rs) = Some (acc @ bs)"
  using assms by (induction bs arbitrary: acc) auto

lemma collect_bids_loop_waits: "collect_bids_loop acc (map RecvBid bs) = None"
  by (induction bs arbitrary: acc) auto

text \<open>
  Bid collection returns the bids that arrived before the window closed (or the senders went
  away), all of them, in arrival order, and nothing that arrives later; until then it keeps waiting.
\<close>

theorem collect_bids_until_deadline:
  "collect_bids (map RecvBid bs @ DeadlineReached # rs) = Some bs \<and>
   collect_bids (map RecvBid bs @ SenderClosed # rs) = Some bs \<and>
   collect_bids (map RecvBid bs) = None"
  by (simp add: collect_bids_def collect_bids_loop_spec collect_bids_loop_waits)

section \<open>Warmth of the fetched table\<close>

text \<open>
  On a well-formed database the warmth the auction uses for a peer is the one of its row for the
  session, by cache tier, and zero for a peer with no row, for a failed query and without a pool.
\<close>

theorem fetched_warmth_reads_table:
  assumes "db_wf d" and "w \<in> set (db_node_session_cache d)" and "wr_session_id w = sid"
    and "peer_str (bid_node_peer_id b) = wr_node_peer_id w" and "se_err env = None"
  shows "warmth_of (fetch_warmth_map env (Some d) sid) b = warmth_for_tier (wr_cache_tier w) \<and>
         warmth_of (fetch_warmth_map env None sid) b = Fin 0"
proof -
  let ?rows = "map (\<lambda>(peer, tier). (peer, warmth_for_tier tier)) (select_warmth sid d)"
  have "distinct (map warm_key (filter (\<lambda>w. wr_session_id w = sid) (db_node_session_cache d)))"
    using assms(1) by (simp add: db_wf_def distinct_map_filter)
  then have "distinct (map fst ?rows)"
    by (auto simp: select_warmth_def warm_key_def comp_def distinct_map inj_on_def case_prod_beta)
  moreover have "(wr_node_peer_id w, warmth_for_tier (wr_cache_tier w)) \<in> set ?rows"
    using assms(2,3) by (force simp: select_warmth_def)
  ultimately have "map_of (rev ?rows) (wr_node_peer_id w) = Some (warmth_for_tier (wr_cache_tier w))"
    by (subst map_of_rev_distinct) (auto intro: map_of_is_SomeI)
  then show ?thesis
    using assms(4,5) by (simp add: warmth_of_def fetch_warmth_map_def)
qed

definition sample_warm_db :: db where
  "sample_warm_db = db_empty
     \<lparr>db_sessions := [\<lparr>sr_session_id = Uuid [7], sr_user_address = ''u'', sr_model_id = ''m'',
        sr_title = None, sr_created_at = 0, sr_last_updated = 0, sr_turn_count = 0, sr_total_tokens = 0,
        sr_total_cost_nanox = 0, sr_walrus_blob_id = None, sr_prev_blob_id = None, sr_status = ''active''\<rparr>],
      db_node_session_cache := [\<lparr>wr_node_peer_id = ''A'', wr_session_id = Uuid [7],
        wr_last_served_at = 0, wr_cache_tier = ''cpu''\<rparr>]\<rparr>"

lemma fetched_warmth_reads_table_witness:
  "warmth_of (fetch_warmth_map (sample_env 0) (Some sample_warm_db) (Uuid [7])) (sample_bid ''A'' 1 1 (Fin 0)) =
     warmth_for_tier (wr_cache_tier (hd (db_node_session_cache sample_warm_db))) \<and>
   warmth_of (fetch_warmth_map (sample_env 0) None (Uuid [7])) (sample_bid ''A'' 1 1 (Fin 0)) = Fin 0"
  by (rule fetched_warmth_reads_table)
    (simp_all add: sample_warm_db_def db_empty_def db_wf_def warm_key_def sample_env_def sample_bid_def)

end
