(* ===== verification/Routing_Receipt.thy ===== *)
theory Routing_Receipt
  imports Sample_Codecs
begin

text \<open>
  \<^verbatim>\<open>RoutingReceipt\<close> (\<^verbatim>\<open>src/pinaivu-protocol/src/routing_receipt.rs\<close>): the signed
  audit artefact. Its signature covers a BCS \<^verbatim>\<open>IntentMessage\<close> built from the request id, the
  aggregated output hash, the timestamp and the payouts with their addresses parsed to 32 bytes.
  The BCS encoder and \<^verbatim>\<open>hex::decode\<close> are parameters (\<open>bcs\<close>, \<open>hex_decode\<close>).
\<close>

section \<open>Data\<close>

definition INTENT_ROUTING_RECEIPT :: u8 where
  "INTENT_ROUTING_RECEIPT = 1"

record payout =
  po_sui_address :: string
  po_amount_nanox :: u64

record routing_receipt =
  rr_request_id :: uuid
  rr_client_id :: string
  rr_primary_peer_id :: node_peer_id
  rr_helper_peer_ids :: "node_peer_id list"
  rr_bid_set_hash :: bytes
  rr_proof_ids :: "bytes list"
  rr_aggregated_output_hash :: bytes
  rr_payouts :: "payout list"
  rr_timestamp_ms :: u64
  rr_coordinator_pubkey :: bytes
  rr_signature :: bytes

record payout_bcs =
  pb_sui_address :: bytes
  pb_amount :: u64

record receipt_payload_bcs =
  rp_request_id :: bytes
  rp_aggregated_output_hash :: bytes
  rp_payouts :: "payout_bcs list"

record intent_message =
  im_intent :: u8
  im_timestamp_ms :: u64
  im_payload :: receipt_payload_bcs

section \<open>Operations\<close>

definition parse_sui_address :: "(string \<Rightarrow> bytes option) \<Rightarrow> string \<Rightarrow> bytes" where
  "parse_sui_address hex_decode s =
     (let trimmed = str_trim_start_matches ''0x'' (str_trim s)
      in case hex_decode trimmed of
           Some b \<Rightarrow> (if length b \<le> 32 then replicate (32 - length b) 0 @ b else zeros32)
         | None \<Rightarrow> zeros32)"

definition payout_bcs_of :: "(string \<Rightarrow> bytes option) \<Rightarrow> payout \<Rightarrow> payout_bcs" where
  "payout_bcs_of hex_decode p =
     \<lparr>pb_sui_address = parse_sui_address hex_decode (po_sui_address p), pb_amount = po_amount_nanox p\<rparr>"

definition intent_message_of :: "(string \<Rightarrow> bytes option) \<Rightarrow> routing_receipt \<Rightarrow> intent_message" where
  "intent_message_of hex_decode r =
     (let payload = \<lparr>rp_request_id = uuid_as_bytes (rr_request_id r),
                     rp_aggregated_output_hash = rr_aggregated_output_hash r,
                     rp_payouts = map (payout_bcs_of hex_decode) (rr_payouts r)\<rparr>
      in \<lparr>im_intent = INTENT_ROUTING_RECEIPT, im_timestamp_ms = rr_timestamp_ms r,
          im_payload = payload\<rparr>)"

definition intent_message_bytes ::
  "(string \<Rightarrow> bytes option) \<Rightarrow> (intent_message \<Rightarrow> bytes) \<Rightarrow> routing_receipt \<Rightarrow> bytes" where
  "intent_message_bytes hex_decode bcs r = bcs (intent_message_of hex_decode r)"

definition receipt_sign ::
  "(string \<Rightarrow> bytes option) \<Rightarrow> (intent_message \<Rightarrow> bytes) \<Rightarrow> ed25519 \<Rightarrow> bytes
   \<Rightarrow> routing_receipt \<Rightarrow> routing_receipt" where
  "receipt_sign hex_decode bcs E key r =
     (let r1 = r\<lparr>rr_coordinator_pubkey := vk_of E key\<rparr>;
          msg = intent_message_bytes hex_decode bcs r1
      in r1\<lparr>rr_signature := ed_sign E key msg\<rparr>)"

definition receipt_verify ::
  "(string \<Rightarrow> bytes option) \<Rightarrow> (intent_message \<Rightarrow> bytes) \<Rightarrow> ed25519
   \<Rightarrow> routing_receipt \<Rightarrow> verify_error + unit" where
  "receipt_verify hex_decode bcs E r =
     verify_sig E (rr_coordinator_pubkey r) (intent_message_bytes hex_decode bcs r) (rr_signature r)"

section \<open>The interface is met\<close>

lemmas receipt_defs = intent_message_bytes_def intent_message_of_def Let_def

interpretation receipt: signed_artefact
  "intent_message_bytes hex_decode bcs" rr_coordinator_pubkey rr_signature
  "\<lambda>pk r. r\<lparr>rr_coordinator_pubkey := pk\<rparr>" "\<lambda>s r. r\<lparr>rr_signature := s\<rparr>"
  "receipt_sign hex_decode bcs" "receipt_verify hex_decode bcs" for hex_decode bcs
  by unfold_locales (simp_all add: receipt_defs receipt_sign_def receipt_verify_def)

lemma receipt_sign_frame [simp]:
  "rr_request_id (receipt_sign hx bcs E k r) = rr_request_id r"
  "rr_client_id (receipt_sign hx bcs E k r) = rr_client_id r"
  "rr_primary_peer_id (receipt_sign hx bcs E k r) = rr_primary_peer_id r"
  "rr_helper_peer_ids (receipt_sign hx bcs E k r) = rr_helper_peer_ids r"
  "rr_bid_set_hash (receipt_sign hx bcs E k r) = rr_bid_set_hash r"
  "rr_proof_ids (receipt_sign hx bcs E k r) = rr_proof_ids r"
  "rr_aggregated_output_hash (receipt_sign hx bcs E k r) = rr_aggregated_output_hash r"
  "rr_payouts (receipt_sign hx bcs E k r) = rr_payouts r"
  "rr_timestamp_ms (receipt_sign hx bcs E k r) = rr_timestamp_ms r"
  "rr_coordinator_pubkey (receipt_sign hx bcs E k r) = vk_of E k"
  by (simp_all add: receipt_sign_def Let_def)

section \<open>The settlement subset\<close>

text \<open>What the vault contract sees of a receipt: the fields the signature is meant to commit to.\<close>

definition settlement_subset ::
  "(string \<Rightarrow> bytes option) \<Rightarrow> routing_receipt \<Rightarrow> uuid \<times> bytes \<times> u64 \<times> (bytes \<times> u64) list" where
  "settlement_subset hex_decode r =
     (rr_request_id r, rr_aggregated_output_hash r, rr_timestamp_ms r,
      map (\<lambda>p. (parse_sui_address hex_decode (po_sui_address p), po_amount_nanox p)) (rr_payouts r))"

lemma payout_bcs_map_eq_iff:
  "map (payout_bcs_of hx) ps = map (payout_bcs_of hx) qs \<longleftrightarrow>
   map (\<lambda>p. (parse_sui_address hx (po_sui_address p), po_amount_nanox p)) ps =
   map (\<lambda>p. (parse_sui_address hx (po_sui_address p), po_amount_nanox p)) qs"
proof -
  have f: "payout_bcs_of hx =
      (\<lambda>(a, n). \<lparr>pb_sui_address = a, pb_amount = n\<rparr>) \<circ>
      (\<lambda>p. (parse_sui_address hx (po_sui_address p), po_amount_nanox p))"
    by (simp add: fun_eq_iff payout_bcs_of_def)
  have "inj (\<lambda>(a, n). \<lparr>pb_sui_address = a, pb_amount = n\<rparr>)"
    by (auto intro!: injI)
  then show ?thesis unfolding f by (simp only: map_map [symmetric] inj_map_eq_map)
qed

lemma intent_message_of_eq_iff:
  "intent_message_of hx r = intent_message_of hx r' \<longleftrightarrow> settlement_subset hx r = settlement_subset hx r'"
  by (auto simp: intent_message_of_def settlement_subset_def Let_def payout_bcs_map_eq_iff uuid.expand)

lemma intent_message_bytes_eq_iff:
  "inj bcs \<Longrightarrow> intent_message_bytes hx bcs r = intent_message_bytes hx bcs r' \<longleftrightarrow>
     settlement_subset hx r = settlement_subset hx r'"
  by (simp add: intent_message_bytes_def inj_eq intent_message_of_eq_iff)

lemma length_parse_sui_address: "length (parse_sui_address hx s) = 32"
  by (simp add: parse_sui_address_def Let_def split: option.split)

section \<open>Samples\<close>

definition sample_bcs :: "intent_message \<Rightarrow> bytes" where
  "sample_bcs =
     enc_via (\<lambda>m. (im_intent m, im_timestamp_ms m, rp_request_id (im_payload m),
       rp_aggregated_output_hash (im_payload m),
       map (\<lambda>p. (pb_sui_address p, pb_amount p)) (rp_payouts (im_payload m))))
     (enc_pair enc_word (enc_pair enc_word (enc_pair enc_bytes (enc_pair enc_bytes
       (enc_list (enc_pair enc_bytes enc_word))))))"

lemma sample_bcs_inj: "inj sample_bcs"
proof -
  have "inj (\<lambda>p :: payout_bcs. (pb_sui_address p, pb_amount p))" by (auto intro!: injI)
  then have "inj (\<lambda>m :: intent_message. (im_intent m, im_timestamp_ms m, rp_request_id (im_payload m),
       rp_aggregated_output_hash (im_payload m),
       map (\<lambda>p. (pb_sui_address p, pb_amount p)) (rp_payouts (im_payload m))))"
    by (auto intro!: injI simp: inj_map_eq_map)
  then show ?thesis
    unfolding sample_bcs_def by (intro prefix_free_inj prefix_free_intros)
qed

text \<open>A decoder of two-digit strings, enough to tell valid from invalid addresses.\<close>

fun sample_nibble :: "char \<Rightarrow> byte option" where
  "sample_nibble c =
     (let n = (of_char c :: nat)
      in if 48 \<le> n \<and> n \<le> 57 then Some (of_nat (n - 48))
         else if 97 \<le> n \<and> n \<le> 102 then Some (of_nat (n - 87))
         else if 65 \<le> n \<and> n \<le> 70 then Some (of_nat (n - 55)) else None)"

fun sample_hex_decode :: "string \<Rightarrow> bytes option" where
  "sample_hex_decode [] = Some []"
| "sample_hex_decode [_] = None"
| "sample_hex_decode (a # b # s) =
     (case (sample_nibble a, sample_nibble b, sample_hex_decode s) of
        (Some x, Some y, Some r) \<Rightarrow> Some ((16 * x + y) # r)
      | _ \<Rightarrow> None)"

definition sample_receipt :: routing_receipt where
  "sample_receipt =
     \<lparr>rr_request_id = Uuid (replicate 16 0), rr_client_id = ''client-abc'',
      rr_primary_peer_id = NodePeerId ''12D3KooWPrimary'',
      rr_helper_peer_ids = [NodePeerId ''12D3KooWHelper''],
      rr_bid_set_hash = replicate 32 4, rr_proof_ids = [replicate 32 5, replicate 32 6],
      rr_aggregated_output_hash = replicate 32 7,
      rr_payouts = [\<lparr>po_sui_address = ''0x0abc'', po_amount_nanox = 1000\<rparr>,
                    \<lparr>po_sui_address = ''0x0def'', po_amount_nanox = 500\<rparr>],
      rr_timestamp_ms = 1700000010000, rr_coordinator_pubkey = zeros32, rr_signature = []\<rparr>"

section \<open>Properties\<close>

text \<open>
  C9: The signature of a routing receipt commits to exactly the settlement subset. A receipt with the
  key and signature of a signed one verifies if and only if it agrees with it on the request id,
  the output hash, the timestamp and the list of (32-byte address, amount) payouts; every other
  field (client, peers, bid-set hash, proof ids) can be altered without the verification noticing.
\<close>

theorem receipt_signature_commits_to_settlement_subset:
  assumes "ed25519_correct E" and "inj bcs"
    and "no_forgery E key {intent_message_bytes hx bcs (receipt_sign hx bcs E key r), intent_message_bytes hx bcs r'}"
    and "rr_coordinator_pubkey r' = vk_of E key"
    and "rr_signature r' = rr_signature (receipt_sign hx bcs E key r)"
  shows "receipt_verify hx bcs E r' =
    (if settlement_subset hx r' = settlement_subset hx r then Inr () else Inl SignatureMismatch)"
proof -
  have "settlement_subset hx (receipt_sign hx bcs E key r) = settlement_subset hx r"
    by (simp add: settlement_subset_def)
  then show ?thesis
    using receipt.verify_altered [OF assms(1,3,4,5)] intent_message_bytes_eq_iff [OF assms(2)]
    by simp
qed

theorem receipt_signature_commits_to_settlement_subset_witness:
  "receipt_verify sample_hex_decode sample_bcs sample_ed
     ((receipt_sign sample_hex_decode sample_bcs sample_ed [1] sample_receipt)
        \<lparr>rr_timestamp_ms := 0\<rparr>) = Inl SignatureMismatch \<and>
   receipt_verify sample_hex_decode sample_bcs sample_ed
     ((receipt_sign sample_hex_decode sample_bcs sample_ed [1] sample_receipt)
        \<lparr>rr_client_id := ''swapped''\<rparr>) = Inr ()"
proof -
  let ?s = "receipt_sign sample_hex_decode sample_bcs sample_ed [1] sample_receipt"
  have A: "receipt_verify sample_hex_decode sample_bcs sample_ed (?s\<lparr>rr_timestamp_ms := 0\<rparr>) =
    (if settlement_subset sample_hex_decode (?s\<lparr>rr_timestamp_ms := 0\<rparr>)
        = settlement_subset sample_hex_decode sample_receipt then Inr () else Inl SignatureMismatch)"
    by (rule receipt_signature_commits_to_settlement_subset) (simp_all add: sample_bcs_inj)
  have B: "receipt_verify sample_hex_decode sample_bcs sample_ed (?s\<lparr>rr_client_id := ''swapped''\<rparr>) =
    (if settlement_subset sample_hex_decode (?s\<lparr>rr_client_id := ''swapped''\<rparr>)
        = settlement_subset sample_hex_decode sample_receipt then Inr () else Inl SignatureMismatch)"
    by (rule receipt_signature_commits_to_settlement_subset) (simp_all add: sample_bcs_inj)
  have "settlement_subset sample_hex_decode (?s\<lparr>rr_timestamp_ms := 0\<rparr>) \<noteq> settlement_subset sample_hex_decode sample_receipt"
    by (simp add: settlement_subset_def sample_receipt_def)
  moreover have "settlement_subset sample_hex_decode (?s\<lparr>rr_client_id := ''swapped''\<rparr>) = settlement_subset sample_hex_decode sample_receipt"
    by (simp add: settlement_subset_def)
  ultimately show ?thesis using A B by simp
qed

text \<open>
  Parsing a Sui address always yields 32 bytes; a decodable address of at most 32 bytes is padded
  with zeros on the left, and an address that does not decode, or is too long, becomes the
  zero address.
\<close>

theorem parse_sui_address_spec:
  "length (parse_sui_address hx s) = 32 \<and>
   (let t = str_trim_start_matches ''0x'' (str_trim s)
    in (\<forall>b. hx t = Some b \<and> length b \<le> 32 \<longrightarrow>
          drop (32 - length b) (parse_sui_address hx s) = b \<and>
          take (32 - length b) (parse_sui_address hx s) = replicate (32 - length b) 0) \<and>
       ((\<forall>b. hx t = Some b \<longrightarrow> 32 < length b) \<longrightarrow> parse_sui_address hx s = zeros32))"
  using length_parse_sui_address [of hx s]
  by (auto simp: parse_sui_address_def Let_def split: option.splits)

theorem parse_sui_address_spec_witness:
  "parse_sui_address sample_hex_decode '' 0x0abc'' = replicate 30 0 @ [10, 188] \<and>
   parse_sui_address sample_hex_decode ''0xabc'' = zeros32"
proof -
  have t: "str_trim_start_matches ''0x'' (str_trim '' 0x0abc'') = ''0abc''"
    "str_trim_start_matches ''0x'' (str_trim ''0xabc'') = ''abc''"
    by code_simp+
  have d: "sample_hex_decode ''0abc'' = Some [10, 188]" "sample_hex_decode ''abc'' = None"
    by code_simp+
  have "drop 30 (parse_sui_address sample_hex_decode '' 0x0abc'') = [10, 188]"
    "take 30 (parse_sui_address sample_hex_decode '' 0x0abc'') = replicate 30 0"
    using parse_sui_address_spec [of sample_hex_decode "'' 0x0abc''"] by (auto simp: Let_def t d)
  then have "parse_sui_address sample_hex_decode '' 0x0abc'' = replicate 30 0 @ [10, 188]"
    by (metis append_take_drop_id)
  moreover have "parse_sui_address sample_hex_decode ''0xabc'' = zeros32"
    using parse_sui_address_spec [of sample_hex_decode "''0xabc''"] by (simp add: Let_def t d)
  ultimately show ?thesis by simp
qed

text \<open>
  A payout address that does not parse is not caught by the signature: the receipt that carries it
  verifies after signing, and it verifies with the very same signature as a receipt that pays
  the same amount to the zero address.
\<close>

theorem unparsable_payout_address_verifies:
  assumes "ed25519_correct E" and "hx (str_trim_start_matches ''0x'' (str_trim bad)) = None"
    and "parse_sui_address hx zero = zeros32"
    and "rr_payouts r = [\<lparr>po_sui_address = bad, po_amount_nanox = n\<rparr>]"
  shows "receipt_verify hx bcs E (receipt_sign hx bcs E key r) = Inr () \<and>
    receipt_verify hx bcs E ((receipt_sign hx bcs E key r)
      \<lparr>rr_payouts := [\<lparr>po_sui_address = zero, po_amount_nanox = n\<rparr>]\<rparr>) = Inr ()"
proof -
  have ok: "receipt_verify hx bcs E (receipt_sign hx bcs E key r) = Inr ()"
    by (rule receipt.sign_verify) (rule assms(1))
  have "parse_sui_address hx bad = zeros32"
    using assms(2) by (simp add: parse_sui_address_def Let_def)
  then have "intent_message_of hx ((receipt_sign hx bcs E key r)
      \<lparr>rr_payouts := [\<lparr>po_sui_address = zero, po_amount_nanox = n\<rparr>]\<rparr>)
    = intent_message_of hx (receipt_sign hx bcs E key r)"
    by (simp add: intent_message_of_def Let_def payout_bcs_of_def assms(3,4))
  then have "receipt_verify hx bcs E ((receipt_sign hx bcs E key r)
      \<lparr>rr_payouts := [\<lparr>po_sui_address = zero, po_amount_nanox = n\<rparr>]\<rparr>)
    = receipt_verify hx bcs E (receipt_sign hx bcs E key r)"
    by (intro receipt.verify_cong) (simp_all add: intent_message_bytes_def)
  with ok show ?thesis by simp
qed

theorem unparsable_payout_address_verifies_witness:
  "receipt_verify sample_hex_decode sample_bcs sample_ed
     (receipt_sign sample_hex_decode sample_bcs sample_ed [1]
       (sample_receipt\<lparr>rr_payouts := [\<lparr>po_sui_address = ''nonsense'', po_amount_nanox = 5\<rparr>]\<rparr>)) = Inr ()"
proof -
  have "sample_hex_decode (str_trim_start_matches ''0x'' (str_trim ''nonsense'')) = None"
    "parse_sui_address sample_hex_decode ''0x00'' = zeros32"
    by code_simp+
  from unparsable_payout_address_verifies [OF sample_ed_correct this] show ?thesis by simp
qed

end
