(* ===== verification/Completion_Proto.thy ===== *)
theory Completion_Proto
  imports Proof_Of_Inference Routing_Receipt
begin

text \<open>
  The completion protocol (\<^verbatim>\<open>src/pinaivu-protocol/src/mesh/completion_proto.rs\<close>): the
  \<^verbatim>\<open>CompletionAck\<close> a primary node signs over the identifiers of the bundled proofs, its two
  verification functions, and the coordinator's \<^verbatim>\<open>CompletionResponse\<close>.
\<close>

section \<open>Data\<close>

record completion_ack =
  ca_request_id :: uuid
  ca_proofs :: "proof_of_inference list"
  ca_aggregated_output_hash :: bytes
  ca_primary_pubkey :: bytes
  ca_signature :: bytes

record ack_canonical =
  ac_request_id :: uuid
  ac_proof_ids :: "bytes list"
  ac_aggregated_output_hash :: bytes
  ac_primary_pubkey :: bytes

record completion_response =
  cr_accepted :: bool
  cr_routing_receipt :: "routing_receipt option"
  cr_reason :: "string option"

section \<open>Operations\<close>

type_synonym proof_json = "proof_canonical \<Rightarrow> bytes"
type_synonym ack_json = "ack_canonical \<Rightarrow> bytes"

definition ack_proof_ids :: "(bytes \<Rightarrow> bytes) \<Rightarrow> proof_json \<Rightarrow> completion_ack \<Rightarrow> bytes list" where
  "ack_proof_ids sha256 pjson a = map (proof_id sha256 pjson) (ca_proofs a)"

definition ack_canonical_of :: "(bytes \<Rightarrow> bytes) \<Rightarrow> proof_json \<Rightarrow> completion_ack \<Rightarrow> ack_canonical" where
  "ack_canonical_of sha256 pjson a =
     \<lparr>ac_request_id = ca_request_id a,
      ac_proof_ids = map (proof_id sha256 pjson) (ca_proofs a),
      ac_aggregated_output_hash = ca_aggregated_output_hash a,
      ac_primary_pubkey = ca_primary_pubkey a\<rparr>"

definition ack_canonical_bytes ::
  "(bytes \<Rightarrow> bytes) \<Rightarrow> proof_json \<Rightarrow> ack_json \<Rightarrow> completion_ack \<Rightarrow> bytes" where
  "ack_canonical_bytes sha256 pjson ajson a = ajson (ack_canonical_of sha256 pjson a)"

definition ack_sign ::
  "(bytes \<Rightarrow> bytes) \<Rightarrow> proof_json \<Rightarrow> ack_json \<Rightarrow> ed25519 \<Rightarrow> bytes \<Rightarrow> completion_ack \<Rightarrow> completion_ack" where
  "ack_sign sha256 pjson ajson E key a =
     (let a1 = a\<lparr>ca_primary_pubkey := vk_of E key\<rparr>;
          msg = ack_canonical_bytes sha256 pjson ajson a1
      in a1\<lparr>ca_signature := ed_sign E key msg\<rparr>)"

definition ack_verify_primary ::
  "(bytes \<Rightarrow> bytes) \<Rightarrow> proof_json \<Rightarrow> ack_json \<Rightarrow> ed25519 \<Rightarrow> completion_ack \<Rightarrow> verify_error + unit" where
  "ack_verify_primary sha256 pjson ajson E a =
     verify_sig E (ca_primary_pubkey a) (ack_canonical_bytes sha256 pjson ajson a) (ca_signature a)"

fun verify_proofs :: "proof_json \<Rightarrow> ed25519 \<Rightarrow> proof_of_inference list \<Rightarrow> verify_error + unit" where
  "verify_proofs pjson E [] = Inr ()"
| "verify_proofs pjson E (p # ps) =
     (case proof_verify pjson E p of
        Inl e \<Rightarrow> Inl e
      | Inr _ \<Rightarrow> verify_proofs pjson E ps)"

definition ack_verify_all_proofs ::
  "proof_json \<Rightarrow> ed25519 \<Rightarrow> completion_ack \<Rightarrow> verify_error + unit" where
  "ack_verify_all_proofs pjson E a = verify_proofs pjson E (ca_proofs a)"

definition completion_ok :: "routing_receipt \<Rightarrow> completion_response" where
  "completion_ok receipt = \<lparr>cr_accepted = True, cr_routing_receipt = Some receipt, cr_reason = None\<rparr>"

definition completion_rejected :: "string \<Rightarrow> completion_response" where
  "completion_rejected reason = \<lparr>cr_accepted = False, cr_routing_receipt = None, cr_reason = Some reason\<rparr>"

section \<open>The interface is met\<close>

lemmas ack_defs = ack_canonical_bytes_def ack_canonical_of_def ack_sign_def ack_verify_primary_def Let_def

interpretation ack: signed_artefact
  "ack_canonical_bytes sha256 pjson ajson" ca_primary_pubkey ca_signature
  "\<lambda>pk a. a\<lparr>ca_primary_pubkey := pk\<rparr>" "\<lambda>s a. a\<lparr>ca_signature := s\<rparr>"
  "ack_sign sha256 pjson ajson" "ack_verify_primary sha256 pjson ajson" for sha256 pjson ajson
  by unfold_locales (simp_all add: ack_defs)

lemma ack_sign_frame [simp]:
  "ca_request_id (ack_sign sha256 pjson ajson E k a) = ca_request_id a"
  "ca_proofs (ack_sign sha256 pjson ajson E k a) = ca_proofs a"
  "ca_aggregated_output_hash (ack_sign sha256 pjson ajson E k a) = ca_aggregated_output_hash a"
  by (simp_all add: ack_sign_def Let_def)

lemma verify_proofs_ok_iff: "verify_proofs pjson E ps = Inr () \<longleftrightarrow> (\<forall>p\<in>set ps. proof_verify pjson E p = Inr ())"
  by (induction ps) (auto split: sum.splits)

lemma verify_proofs_append:
  "\<forall>p\<in>set pre. proof_verify pjson E p = Inr () \<Longrightarrow> verify_proofs pjson E (pre @ ps) = verify_proofs pjson E ps"
  by (induction pre) auto

lemma verify_proofs_first_error:
  "verify_proofs pjson E ps = Inl e \<Longrightarrow>
     \<exists>pre bad post. ps = pre @ bad # post \<and> (\<forall>p\<in>set pre. proof_verify pjson E p = Inr ()) \<and>
        proof_verify pjson E bad = Inl e"
proof (induction ps)
  case Nil
  then show ?case by simp
next
  case (Cons p ps)
  show ?case
  proof (cases "proof_verify pjson E p")
    case (Inl e')
    with Cons.prems show ?thesis by (intro exI [of _ "[]"]) auto
  next
    case (Inr u)
    with Cons obtain pre bad post where "ps = pre @ bad # post"
      "\<forall>p\<in>set pre. proof_verify pjson E p = Inr ()" "proof_verify pjson E bad = Inl e"
      by auto
    with Inr show ?thesis by (intro exI [of _ "p # pre"]) auto
  qed
qed

lemma verify_proofs_error:
  "verify_proofs pjson E ps = Inl e \<longleftrightarrow>
     (\<exists>pre bad post. ps = pre @ bad # post \<and> (\<forall>p\<in>set pre. proof_verify pjson E p = Inr ()) \<and>
        proof_verify pjson E bad = Inl e)"
  using verify_proofs_first_error by (auto simp: verify_proofs_append)

section \<open>Samples\<close>

definition sample_ack_json :: ack_json where
  "sample_ack_json =
     enc_via (\<lambda>c. (ac_request_id c, ac_proof_ids c, ac_aggregated_output_hash c, ac_primary_pubkey c))
     (enc_pair enc_uuid (enc_pair (enc_list enc_bytes) (enc_pair enc_bytes enc_bytes)))"

lemma sample_ack_json_inj: "inj sample_ack_json"
  unfolding sample_ack_json_def
  by (intro prefix_free_inj prefix_free_intros sample_codec_inj) (auto intro!: injI)

definition sample_sha256 :: "bytes \<Rightarrow> bytes" where
  "sample_sha256 m = take 32 (m @ zeros32)"

definition sample_ack :: completion_ack where
  "sample_ack =
     \<lparr>ca_request_id = Uuid (replicate 16 0),
      ca_proofs = [proof_sign sample_proof_json sample_ed [1] sample_proof],
      ca_aggregated_output_hash = replicate 32 9, ca_primary_pubkey = zeros32, ca_signature = []\<rparr>"

section \<open>Properties\<close>

text \<open>
  C12: The primary's signature binds the proof set: an ack with the key and the signature of a signed
  ack verifies if and only if it names the same request, the same output hash and the same
  list of proof identifiers, so adding, dropping or reordering proofs with different identifiers
  is detected.
\<close>

theorem ack_signature_binds_proof_set:
  assumes "ed25519_correct E" and "inj ajson"
    and "no_forgery E key {ack_canonical_bytes sha256 pjson ajson (ack_sign sha256 pjson ajson E key a),
           ack_canonical_bytes sha256 pjson ajson b}"
    and "ca_primary_pubkey b = vk_of E key"
    and "ca_signature b = ca_signature (ack_sign sha256 pjson ajson E key a)"
  shows "ack_verify_primary sha256 pjson ajson E b =
    (if ca_request_id b = ca_request_id a \<and> ca_aggregated_output_hash b = ca_aggregated_output_hash a \<and>
        ack_proof_ids sha256 pjson b = ack_proof_ids sha256 pjson a
     then Inr () else Inl SignatureMismatch)"
proof -
  have "ack_canonical_bytes sha256 pjson ajson b =
      ack_canonical_bytes sha256 pjson ajson (ack_sign sha256 pjson ajson E key a) \<longleftrightarrow>
    ca_request_id b = ca_request_id a \<and> ca_aggregated_output_hash b = ca_aggregated_output_hash a \<and>
      ack_proof_ids sha256 pjson b = ack_proof_ids sha256 pjson a"
    using assms(2,4) ack.get_pk_sign [of sha256 pjson ajson E key a]
    by (auto simp: ack_canonical_bytes_def ack_canonical_of_def inj_eq ack_proof_ids_def)
  then show ?thesis
    using ack.verify_altered [OF assms(1,3,4,5)] by simp
qed

theorem ack_signature_binds_proof_set_witness:
  "ack_verify_primary sample_sha256 sample_proof_json sample_ack_json sample_ed
     ((ack_sign sample_sha256 sample_proof_json sample_ack_json sample_ed [1] sample_ack)
        \<lparr>ca_proofs := []\<rparr>) = Inl SignatureMismatch"
proof -
  let ?b = "(ack_sign sample_sha256 sample_proof_json sample_ack_json sample_ed [1] sample_ack)\<lparr>ca_proofs := []\<rparr>"
  have "ack_verify_primary sample_sha256 sample_proof_json sample_ack_json sample_ed ?b =
    (if ca_request_id ?b = ca_request_id sample_ack \<and>
        ca_aggregated_output_hash ?b = ca_aggregated_output_hash sample_ack \<and>
        ack_proof_ids sample_sha256 sample_proof_json ?b = ack_proof_ids sample_sha256 sample_proof_json sample_ack
     then Inr () else Inl SignatureMismatch)"
    by (rule ack_signature_binds_proof_set) (simp_all add: sample_ack_json_inj ack.get_pk_sign)
  moreover have "ack_proof_ids sample_sha256 sample_proof_json ?b \<noteq> ack_proof_ids sample_sha256 sample_proof_json sample_ack"
    by (simp add: ack_proof_ids_def sample_ack_def)
  ultimately show ?thesis by simp
qed

text \<open>
  \<^verbatim>\<open>verify_all_proofs\<close> accepts exactly when every bundled proof verifies (an empty bundle
  included); otherwise it reports the error of the first proof that fails.
\<close>

theorem ack_verify_all_proofs_spec:
  "(ack_verify_all_proofs pjson E a = Inr () \<longleftrightarrow> list_all (\<lambda>p. proof_verify pjson E p = Inr ()) (ca_proofs a)) \<and>
   (ack_verify_all_proofs pjson E a = Inl e \<longleftrightarrow>
     (\<exists>pre bad post. ca_proofs a = pre @ bad # post \<and>
        list_all (\<lambda>p. proof_verify pjson E p = Inr ()) pre \<and> proof_verify pjson E bad = Inl e))"
  by (simp add: ack_verify_all_proofs_def verify_proofs_ok_iff verify_proofs_error list_all_iff)

end
