(* ===== verification/Payments.thy ===== *)
theory Payments
  imports Completion_Proto Database
begin

text \<open>
  The payment ledger (\<^verbatim>\<open>src/coordinator/src/payments/mod.rs\<close> and \<^verbatim>\<open>split.rs\<close>): payout
  lines computed from a verified completion, their insertion as \<^verbatim>\<open>pending\<close> rows, the query of
  the pending rows of a request, and the status updates. A \<^verbatim>\<open>u64\<close> amount is stored with
  \<^verbatim>\<open>as i64\<close> and read back with \<^verbatim>\<open>as u64\<close>; both keep the 64 bits, so both are the
  identity on \<open>64 word\<close>.
\<close>

section \<open>Payout lines\<close>

record payout_line =
  pl_peer_id :: string
  pl_sui_address :: string
  pl_amount_nanox :: u64

type_synonym payout_addresses = "string \<rightharpoonup> string"

definition payout_of_proof :: "payout_addresses \<Rightarrow> proof_of_inference \<Rightarrow> payout_line option" where
  "payout_of_proof payout_addresses proof =
     (let peer_id = peer_str (poi_node_peer_id proof)
      in case payout_addresses peer_id of
           None \<Rightarrow> None
         | Some sui_address \<Rightarrow>
             Some \<lparr>pl_peer_id = peer_id, pl_sui_address = sui_address,
               pl_amount_nanox = nanox_amount (poi_price_paid_nanox proof)\<rparr>)"

definition compute_payouts :: "completion_ack \<Rightarrow> payout_addresses \<Rightarrow> payout_line list" where
  "compute_payouts ack payout_addresses = List.map_filter (payout_of_proof payout_addresses) (ca_proofs ack)"

section \<open>Rows\<close>

record pending_payment =
  pp_id :: uuid
  pp_request_id :: uuid
  pp_payee_peer_id :: string
  pp_payee_sui_address :: string
  pp_amount_nanox :: i64

definition pending_row :: "stmt_env \<Rightarrow> uuid \<Rightarrow> payout_line \<Rightarrow> payment_row" where
  "pending_row env request_id line =
     \<lparr>pr_id = se_uuid env, pr_request_id = request_id, pr_payee_peer_id = pl_peer_id line,
      pr_payee_sui_address = pl_sui_address line, pr_amount_nanox = pl_amount_nanox line,
      pr_status = ''pending'', pr_tx_digest = None, pr_created_at = se_now env,
      pr_submitted_at = None, pr_confirmed_at = None\<rparr>"

text \<open>\<^verbatim>\<open>INSERT INTO payments ... ON CONFLICT DO NOTHING\<close>; the only unique column is \<^verbatim>\<open>id\<close>.\<close>

definition insert_payment :: "payment_row \<Rightarrow> payment_row list \<Rightarrow> payment_row list" where
  "insert_payment r rows = (if list_ex (\<lambda>x. pr_id x = pr_id r) rows then rows else rows @ [r])"

text \<open>The loop over the lines; line \<open>i\<close> runs in the environment \<open>env i\<close>.\<close>

fun insert_pending_from ::
  "(nat \<Rightarrow> stmt_env) \<Rightarrow> nat \<Rightarrow> uuid \<Rightarrow> payout_line list \<Rightarrow> db \<Rightarrow> (string + unit) \<times> db" where
  "insert_pending_from env i request_id [] d = (Inr (), d)"
| "insert_pending_from env i request_id (line # lines) d =
     (case se_err (env i) of
        Some e \<Rightarrow> (Inl e, d)
      | None \<Rightarrow>
          insert_pending_from env (Suc i) request_id lines
            (d\<lparr>db_payments := insert_payment (pending_row (env i) request_id line) (db_payments d)\<rparr>))"

definition insert_pending ::
  "(nat \<Rightarrow> stmt_env) \<Rightarrow> uuid \<Rightarrow> payout_line list \<Rightarrow> db \<Rightarrow> (string + unit) \<times> db" where
  "insert_pending env request_id lines d = insert_pending_from env 0 request_id lines d"

definition pending_of_row :: "payment_row \<Rightarrow> pending_payment" where
  "pending_of_row r =
     \<lparr>pp_id = pr_id r, pp_request_id = pr_request_id r, pp_payee_peer_id = pr_payee_peer_id r,
      pp_payee_sui_address = pr_payee_sui_address r, pp_amount_nanox = pr_amount_nanox r\<rparr>"

definition is_pending :: "uuid \<Rightarrow> payment_row \<Rightarrow> bool" where
  "is_pending request_id r \<longleftrightarrow> pr_request_id r = request_id \<and> pr_status r = ''pending''"

text \<open>Rows of the same time come in the order of their insertion, which Postgres leaves open.\<close>

definition pending_for_request :: "stmt_env \<Rightarrow> uuid \<Rightarrow> db \<Rightarrow> string + pending_payment list" where
  "pending_for_request env request_id d =
     (case se_err env of
        Some e \<Rightarrow> Inl e
      | None \<Rightarrow> Inr (map pending_of_row (sort_key pr_created_at (filter (is_pending request_id) (db_payments d)))))"

text \<open>A statement that reports an error took no effect.\<close>

definition update_payment :: "stmt_env \<Rightarrow> uuid \<Rightarrow> (payment_row \<Rightarrow> payment_row) \<Rightarrow> db \<Rightarrow> (string + unit) \<times> db" where
  "update_payment env pid f d =
     (case se_err env of
        Some e \<Rightarrow> (Inl e, d)
      | None \<Rightarrow> (Inr (), d\<lparr>db_payments := update_where (\<lambda>r. pr_id r = pid) f (db_payments d)\<rparr>))"

definition mark_submitted :: "stmt_env \<Rightarrow> uuid \<Rightarrow> string \<Rightarrow> db \<Rightarrow> (string + unit) \<times> db" where
  "mark_submitted env pid tx_digest d =
     update_payment env pid
       (\<lambda>r. r\<lparr>pr_status := ''submitted'', pr_tx_digest := Some tx_digest, pr_submitted_at := Some (se_now env)\<rparr>) d"

definition mark_confirmed :: "stmt_env \<Rightarrow> uuid \<Rightarrow> db \<Rightarrow> (string + unit) \<times> db" where
  "mark_confirmed env pid d =
     update_payment env pid (\<lambda>r. r\<lparr>pr_status := ''confirmed'', pr_confirmed_at := Some (se_now env)\<rparr>) d"

definition mark_failed :: "stmt_env \<Rightarrow> uuid \<Rightarrow> db \<Rightarrow> (string + unit) \<times> db" where
  "mark_failed env pid d = update_payment env pid (\<lambda>r. r\<lparr>pr_status := ''failed''\<rparr>) d"

lemmas mark_defs [db_simps] = mark_submitted_def mark_confirmed_def mark_failed_def update_payment_def

section \<open>What the payouts are\<close>

lemma payout_of_proof_Some:
  "payout_of_proof addrs p = Some l \<longleftrightarrow>
     addrs (peer_str (poi_node_peer_id p)) = Some (pl_sui_address l) \<and>
     pl_peer_id l = peer_str (poi_node_peer_id p) \<and> pl_amount_nanox l = nanox_amount (poi_price_paid_nanox p)"
  by (cases l) (auto simp: payout_of_proof_def Let_def split: option.splits)

lemma compute_payouts_Nil [simp]: "ca_proofs ack = [] \<Longrightarrow> compute_payouts ack addrs = []"
  by (simp add: compute_payouts_def)

lemma compute_payouts_no_addresses [simp]: "compute_payouts ack Map.empty = []"
  by (induction "ca_proofs ack") (simp_all add: compute_payouts_def payout_of_proof_def List.map_filter_def)

section \<open>Insertion\<close>

lemma insert_pending_from_frame:
  assumes "insert_pending_from env i rid lines d = (r, d')"
  shows "d' = d\<lparr>db_payments := db_payments d'\<rparr>"
  using assms
proof (induction env i rid lines d rule: insert_pending_from.induct)
  case (2 env i rid line lines d)
  show ?case
  proof (cases "se_err (env i)")
    case None
    then have "d' = d\<lparr>db_payments := insert_payment (pending_row (env i) rid line) (db_payments d),
        db_payments := db_payments d'\<rparr>"
      using "2.prems" "2.IH" by simp
    then show ?thesis by simp
  qed (use "2.prems" in auto)
qed simp

text \<open>
  The identifiers drawn for the lines from position \<open>i\<close> on are new and pairwise different, which
  is what \<^verbatim>\<open>Uuid::new_v4\<close> is relied on for.
\<close>

fun drawn_ids :: "(nat \<Rightarrow> stmt_env) \<Rightarrow> nat \<Rightarrow> nat \<Rightarrow> uuid list" where
  "drawn_ids env i 0 = []"
| "drawn_ids env i (Suc n) = se_uuid (env i) # drawn_ids env (Suc i) n"

definition fresh_ids :: "(nat \<Rightarrow> stmt_env) \<Rightarrow> nat \<Rightarrow> nat \<Rightarrow> payment_row list \<Rightarrow> bool" where
  "fresh_ids env i n rows \<longleftrightarrow> distinct (map pr_id rows @ drawn_ids env i n)"

fun new_rows :: "(nat \<Rightarrow> stmt_env) \<Rightarrow> nat \<Rightarrow> uuid \<Rightarrow> payout_line list \<Rightarrow> payment_row list" where
  "new_rows env i rid [] = []"
| "new_rows env i rid (l # ls) = pending_row (env i) rid l # new_rows env (Suc i) rid ls"

lemma fresh_ids_Suc:
  assumes "fresh_ids env i (Suc n) rows" "pr_id r = se_uuid (env i)"
  shows "\<not> list_ex (\<lambda>x. pr_id x = pr_id r) rows" "fresh_ids env (Suc i) n (rows @ [r])"
  using assms by (auto simp: fresh_ids_def list_ex_iff) (metis imageI)

text \<open>Some prefix of the lines is inserted: all of them, or those before the first failing statement.\<close>

lemma insert_pending_from_prefix:
  assumes "insert_pending_from env i rid lines d = (r, d')"
    and "fresh_ids env i (length lines) (db_payments d)"
  shows "\<exists>n\<le>length lines. db_payments d' = db_payments d @ new_rows env i rid (take n lines) \<and>
     (case r of Inr _ \<Rightarrow> n = length lines | Inl e \<Rightarrow> n < length lines \<and> se_err (env (i + n)) = Some e)"
  using assms
proof (induction env i rid lines d rule: insert_pending_from.induct)
  case (2 env i rid line lines d)
  show ?case
  proof (cases "se_err (env i)")
    case None
    let ?row = "pending_row (env i) rid line"
    let ?d = "d\<lparr>db_payments := insert_payment ?row (db_payments d)\<rparr>"
    have row: "pr_id ?row = se_uuid (env i)" by (simp add: pending_row_def)
    have f: "fresh_ids env i (Suc (length lines)) (db_payments d)" using "2.prems"(2) by simp
    have ins: "insert_payment ?row (db_payments d) = db_payments d @ [?row]"
      using fresh_ids_Suc(1) [OF f row] by (simp add: insert_payment_def)
    have "insert_pending_from env (Suc i) rid lines ?d = (r, d')" using "2.prems"(1) None by simp
    moreover have "fresh_ids env (Suc i) (length lines) (db_payments ?d)"
      using fresh_ids_Suc(2) [OF f row] by (simp add: ins)
    ultimately obtain n where "n \<le> length lines"
        "db_payments d' = db_payments ?d @ new_rows env (Suc i) rid (take n lines)"
        "case r of Inr _ \<Rightarrow> n = length lines | Inl e \<Rightarrow> n < length lines \<and> se_err (env (Suc i + n)) = Some e"
      using "2.IH" [OF None] by blast
    then show ?thesis by (intro exI [of _ "Suc n"]) (auto simp: ins split: sum.splits)
  qed (use "2.prems" in \<open>auto intro: exI [of _ 0]\<close>)
qed auto

lemma new_rows_pr [simp]:
  "map pr_id (new_rows env i rid lines) = drawn_ids env i (length lines)"
  "filter (is_pending rid) (new_rows env i rid lines) = new_rows env i rid lines"
  "rid' \<noteq> rid \<Longrightarrow> filter (\<lambda>r. pr_request_id r = rid') (new_rows env i rid lines) = []"
  by (induction lines arbitrary: i) (simp_all add: pending_row_def is_pending_def)

lemma new_rows_amounts:
  "map pr_amount_nanox (new_rows env i rid lines) = map pl_amount_nanox lines"
  "map pr_payee_sui_address (new_rows env i rid lines) = map pl_sui_address lines"
  by (induction lines arbitrary: i) (simp_all add: pending_row_def)

lemma insert_payment_wf: "distinct (map pr_id rows) \<Longrightarrow> distinct (map pr_id (insert_payment r rows))"
  by (auto simp: insert_payment_def list_ex_iff)

lemma insert_pending_from_wf:
  "db_wf d \<Longrightarrow> db_wf (snd (insert_pending_from env i rid lines d))"
proof (induction env i rid lines d rule: insert_pending_from.induct)
  case (2 env i rid line lines d)
  then show ?case
    by (simp add: db_wf_def insert_payment_wf split: option.splits)
qed simp

lemma insert_pending_wf: "db_wf d \<Longrightarrow> db_wf (snd (insert_pending env rid lines d))"
  by (simp add: insert_pending_def insert_pending_from_wf)

text \<open>
  Inserting the payout lines of a request, with fresh row ids, appends one \<open>pending\<close> row per line,
  in order and with the line's address and amount, to the payments table and touches nothing else; if
  the statement of line \<open>n\<close> fails, the call fails with its error and exactly the rows of the lines
  before \<open>n\<close> stay behind.
\<close>

theorem insert_pending_spec:
  assumes "insert_pending env rid lines d = (r, d')"
    and "fresh_ids env 0 (length lines) (db_payments d)"
  shows "\<exists>n\<le>length lines.
     (case r of Inr _ \<Rightarrow> n = length lines | Inl e \<Rightarrow> n < length lines \<and> se_err (env n) = Some e) \<and>
     d' = d\<lparr>db_payments := db_payments d @ new_rows env 0 rid (take n lines)\<rparr>"
proof -
  have *: "insert_pending_from env 0 rid lines d = (r, d')"
    using assms(1) by (simp add: insert_pending_def)
  obtain n where n: "n \<le> length lines" "db_payments d' = db_payments d @ new_rows env 0 rid (take n lines)"
      "case r of Inr _ \<Rightarrow> n = length lines | Inl e \<Rightarrow> n < length lines \<and> se_err (env n) = Some e"
    using insert_pending_from_prefix [OF * assms(2)] by (metis add_0)
  have "d' = d\<lparr>db_payments := db_payments d'\<rparr>" using * by (rule insert_pending_from_frame)
  with n show ?thesis by (metis (no_types))
qed

definition sample_lines :: "payout_line list" where
  "sample_lines =
     [\<lparr>pl_peer_id = ''A'', pl_sui_address = ''0xa'', pl_amount_nanox = 7\<rparr>,
      \<lparr>pl_peer_id = ''B'', pl_sui_address = ''0xb'', pl_amount_nanox = 5\<rparr>]"

definition failing_env :: "nat \<Rightarrow> nat \<Rightarrow> stmt_env" where
  "failing_env k n = (if n = k then (sample_env n)\<lparr>se_err := Some ''connection reset''\<rparr> else sample_env n)"

lemma insert_pending_spec_witness:
  "\<exists>n\<le>length sample_lines.
     (case (Inl ''connection reset'' :: string + unit) of Inr _ \<Rightarrow> n = length sample_lines
      | Inl e \<Rightarrow> n < length sample_lines \<and> se_err (failing_env 1 n) = Some e) \<and>
     db_empty\<lparr>db_payments := [pending_row (sample_env 0) (Uuid [9]) (hd sample_lines)]\<rparr> =
     db_empty\<lparr>db_payments := db_payments db_empty @ new_rows (failing_env 1) 0 (Uuid [9]) (take n sample_lines)\<rparr>"
  by (rule insert_pending_spec)
    (simp_all add: insert_pending_def sample_lines_def failing_env_def sample_env_def insert_payment_def
      db_empty_def fresh_ids_def)

end
