(* ===== verification/Enclave_Crypto.thy ===== *)
theory Enclave_Crypto
  imports Signing
begin

text \<open>
  The enclave key pair (\<^verbatim>\<open>src/nautilus-enclave/src/crypto.rs\<close>): one random seed gives the Ed25519
  signing key and, through SHA-512, the X25519 secret with which clients agree on a prompt-encryption
  key. Ed25519, X25519 and the SHA-2 functions are parameters.
\<close>

section \<open>Primitives\<close>

record enclave_prims =
  np_ed :: ed25519
  np_sha256 :: "bytes \<Rightarrow> bytes"
  np_sha512 :: "bytes \<Rightarrow> bytes"
  np_x25519_public :: "bytes \<Rightarrow> bytes"
  np_x25519_dh :: "bytes \<Rightarrow> bytes \<Rightarrow> bytes"

text \<open>The documented property of X25519: both sides compute the same shared secret.\<close>

definition x25519_agrees :: "enclave_prims \<Rightarrow> bool" where
  "x25519_agrees P \<longleftrightarrow>
     (\<forall>a b. np_x25519_dh P a (np_x25519_public P b) = np_x25519_dh P b (np_x25519_public P a))"

section \<open>Key pair\<close>

record enclave_key_pair =
  ek_signing_key :: bytes
  ek_x25519_secret :: bytes

definition ed25519_seed_to_x25519 :: "enclave_prims \<Rightarrow> bytes \<Rightarrow> bytes" where
  "ed25519_seed_to_x25519 P seed = take 32 (np_sha512 P seed)"

text \<open>\<open>seed\<close> is what the operating system's generator yields.\<close>

definition key_pair_generate :: "enclave_prims \<Rightarrow> bytes \<Rightarrow> enclave_key_pair" where
  "key_pair_generate P seed =
     \<lparr>ek_signing_key = seed, ek_x25519_secret = ed25519_seed_to_x25519 P seed\<rparr>"

definition public_key_bytes :: "enclave_prims \<Rightarrow> enclave_key_pair \<Rightarrow> bytes" where
  "public_key_bytes P kp = vk_of (np_ed P) (ek_signing_key kp)"

definition key_pair_sign :: "enclave_prims \<Rightarrow> enclave_key_pair \<Rightarrow> bytes \<Rightarrow> bytes" where
  "key_pair_sign P kp msg = ed_sign (np_ed P) (ek_signing_key kp) msg"

definition secret_bytes :: "enclave_key_pair \<Rightarrow> bytes" where
  "secret_bytes kp = ek_signing_key kp"

definition x25519_public_key :: "enclave_prims \<Rightarrow> enclave_key_pair \<Rightarrow> bytes" where
  "x25519_public_key P kp = np_x25519_public P (ek_x25519_secret kp)"

definition ecdh :: "enclave_prims \<Rightarrow> enclave_key_pair \<Rightarrow> bytes \<Rightarrow> bytes" where
  "ecdh P kp client_pub = np_x25519_dh P (ek_x25519_secret kp) client_pub"

definition aes_key_label :: bytes where
  "aes_key_label = map (\<lambda>c. of_nat (of_char c)) ''pinaivu-aes-key-v1''"

definition derive_aes_key :: "enclave_prims \<Rightarrow> bytes \<Rightarrow> bytes" where
  "derive_aes_key P shared_secret = np_sha256 P (aes_key_label @ shared_secret)"

section \<open>Signatures\<close>

lemma key_pair_sign_verifies:
  "ed25519_correct (np_ed P) \<Longrightarrow> verify_sig (np_ed P) (public_key_bytes P kp) msg (key_pair_sign P kp msg) = Inr ()"
  by (simp add: public_key_bytes_def key_pair_sign_def verify_sig_signed)

end
