(* ===== verification/Inference_Api.thy ===== *)
theory Inference_Api
  imports Dispatch_Token Auction Payments Enclave_Crypto
begin

text \<open>
  \<^verbatim>\<open>POST /v1/chat/completions\<close> (\<^verbatim>\<open>src/coordinator/src/api/inference.rs\<close>) with the error type of
  \<^verbatim>\<open>src/coordinator/src/app/error.rs\<close>: decryption of the prompt, the auction, the signed dispatch
  token, and the dispatch to the winner. The handler returns the calls it makes on the mesh, in
  order, with its result. hex, base64, AES-GCM, serde and libp2p's peer-id parser are parameters.
\<close>

section \<open>Errors\<close>

datatype app_error =
    BadRequest string
  | Unauthorized
  | NotFound
  | NoNodes string
  | Upstream string
  | Internal string

fun app_error_status :: "app_error \<Rightarrow> nat" where
  "app_error_status (BadRequest _) = 400"
| "app_error_status Unauthorized = 401"
| "app_error_status NotFound = 404"
| "app_error_status (NoNodes _) = 503"
| "app_error_status (Upstream _) = 502"
| "app_error_status (Internal _) = 500"

fun app_error_to_string :: "app_error \<Rightarrow> string" where
  "app_error_to_string (BadRequest m) = ''bad request: '' @ m"
| "app_error_to_string Unauthorized = ''unauthorized''"
| "app_error_to_string NotFound = ''not found''"
| "app_error_to_string (NoNodes m) = ''no nodes available: '' @ m"
| "app_error_to_string (Upstream m) = ''upstream node error: '' @ m"
| "app_error_to_string (Internal m) = ''internal: '' @ m"

definition app_error_into_response :: "app_error \<Rightarrow> nat \<times> json" where
  "app_error_into_response e = (app_error_status e, JObject [(''error'', JString (app_error_to_string e))])"

section \<open>Requests\<close>

record chat_message =
  cm_role :: string
  cm_content :: string

record chat_completion_request =
  cq_model :: string
  cq_messages :: "chat_message list"
  cq_client_pubkey_hex :: string
  cq_max_price_nanox :: "u64 option"
  cq_privacy :: "string option"
  cq_session_id :: "uuid option"
  cq_client_x25519_pubkey_hex :: "string option"
  cq_messages_encrypted :: "string option"
  cq_messages_nonce :: "string option"
  cq_session_key :: "string option"
  cq_memwal_context :: "string option"

record chat_completion_result =
  cc_request_id :: uuid
  cc_session_id :: uuid
  cc_content :: string
  cc_session_key :: string
  cc_input_tokens :: u32
  cc_output_tokens :: u32
  cc_latency_ms :: u32

definition DISPATCH_DEADLINE_MS :: u64 where
  "DISPATCH_DEADLINE_MS = 60000"

definition DEFAULT_SETTLEMENT_ID :: string where
  "DEFAULT_SETTLEMENT_ID = ''free''"

section \<open>Parameters\<close>

record api_codec =
  ap_prims :: enclave_prims
  ap_key :: enclave_key_pair
  ap_hex_decode :: "string \<Rightarrow> bytes option"
  ap_base64_decode :: "string \<Rightarrow> bytes option"
  ap_base64_encode :: "bytes \<Rightarrow> string"
  ap_aes_decrypt :: "bytes \<Rightarrow> bytes \<Rightarrow> bytes \<Rightarrow> bytes option"
  ap_messages_from_slice :: "bytes \<Rightarrow> chat_message list option"
  ap_token_json :: "token_canonical \<Rightarrow> bytes"
  ap_parse_peer_id :: "string \<Rightarrow> string + peer_id"

section \<open>Helpers\<close>

definition parse_privacy :: "string option \<Rightarrow> privacy_level" where
  "parse_privacy s =
     (let t = to_ascii_lowercase (case s of None \<Rightarrow> ''standard'' | Some x \<Rightarrow> x)
      in if t = ''private'' then Private
         else if t = ''fragmented'' then Fragmented
         else if t = ''maximum'' then Maximum
         else Standard)"

definition decode_hex_pubkey :: "api_codec \<Rightarrow> string \<Rightarrow> app_error + bytes" where
  "decode_hex_pubkey P s =
     (case ap_hex_decode P s of
        None \<Rightarrow> Inl (BadRequest ''client_pubkey_hex must be hex'')
      | Some raw \<Rightarrow>
          if length raw = 32 then Inr raw else Inl (BadRequest ''client_pubkey_hex must be 32 bytes''))"

definition decrypt_messages_if_encrypted :: "api_codec \<Rightarrow> chat_completion_request \<Rightarrow> app_error + chat_message list" where
  "decrypt_messages_if_encrypted P req =
     (case (cq_client_x25519_pubkey_hex req, cq_messages_encrypted req, cq_messages_nonce req) of
        (Some x25519_hex, Some enc_b64, Some nonce_b64) \<Rightarrow>
          (case ap_hex_decode P x25519_hex of
             None \<Rightarrow> Inl (BadRequest ''client_x25519_pubkey_hex must be valid hex'')
           | Some client_pub \<Rightarrow>
               if length client_pub \<noteq> 32
               then Inl (BadRequest ''client_x25519_pubkey_hex must be exactly 32 bytes'')
               else
                 (let shared_secret = ecdh (ap_prims P) (ap_key P) client_pub;
                      aes_key = derive_aes_key (ap_prims P) shared_secret
                  in case ap_base64_decode P enc_b64 of
                       None \<Rightarrow> Inl (BadRequest ''messages_encrypted must be valid base64'')
                     | Some ciphertext \<Rightarrow>
                         (case ap_base64_decode P nonce_b64 of
                            None \<Rightarrow> Inl (BadRequest ''messages_nonce must be valid base64'')
                          | Some nonce \<Rightarrow>
                              if length nonce \<noteq> 12
                              then Inl (BadRequest ''messages_nonce must decode to exactly 12 bytes'')
                              else
                                (case ap_aes_decrypt P aes_key nonce ciphertext of
                                   None \<Rightarrow> Inl (BadRequest ''prompt decryption failed'')
                                 | Some plaintext \<Rightarrow>
                                     (case ap_messages_from_slice P plaintext of
                                        None \<Rightarrow> Inl (BadRequest ''decrypted payload is not a valid JSON messages array'')
                                      | Some messages \<Rightarrow> Inr messages)))))
      | (None, None, None) \<Rightarrow> Inr (cq_messages req)
      | _ \<Rightarrow> Inl (BadRequest ''encrypted mode requires all three fields: client_x25519_pubkey_hex, messages_encrypted, messages_nonce''))"

fun str_contains :: "string \<Rightarrow> string \<Rightarrow> bool" where
  "str_contains [] p \<longleftrightarrow> p = []"
| "str_contains (c # s) p \<longleftrightarrow> prefix p (c # s) \<or> str_contains s p"

definition publish_error :: "string \<Rightarrow> app_error" where
  "publish_error msg =
     (if str_contains msg ''NoPeersSubscribed'' \<or> str_contains msg ''InsufficientPeers''
      then NoNodes ''no GPU nodes subscribed to this model topic''
      else Internal (''mesh publish: '' @ msg))"

definition last_user_message :: "chat_message list \<Rightarrow> string option" where
  "last_user_message messages = map_option cm_content (find (\<lambda>m. cm_role m = ''user'') (rev messages))"

definition bidder_addresses :: "inference_bid list \<Rightarrow> payout_addresses" where
  "bidder_addresses bids =
     map_of (rev (map (\<lambda>b. (peer_str (bid_node_peer_id b), bid_payout_address b))
       (filter (\<lambda>b. bid_payout_address b \<noteq> []) bids)))"

section \<open>The handler\<close>

datatype mesh_call =
    CallPublish inference_request
  | CallSetPayoutAddresses uuid payout_addresses
  | CallDispatchInference peer_id inference_dispatch

text \<open>
  What the handler's surroundings decide: the uuids and key bytes drawn, the outcome of publishing (an
  error, or the receives on the bid channel), the database, the clock, and the winner's answer.
\<close>

record chat_env =
  ch_request_id :: uuid
  ch_session_id :: uuid
  ch_publish :: "string + recv_outcome list"
  ch_pool :: "db option"
  ch_warmth :: stmt_env
  ch_now_ms :: u64
  ch_random_key :: bytes
  ch_dispatch :: "peer_id \<Rightarrow> inference_dispatch \<Rightarrow> string + inference_reply"

definition token_for :: "api_codec \<Rightarrow> chat_env \<Rightarrow> chat_completion_request \<Rightarrow> uuid \<Rightarrow> bytes \<Rightarrow> inference_bid \<Rightarrow> dispatch_token" where
  "token_for P e req session_id client_pubkey winner =
     token_sign (ap_token_json P) (np_ed (ap_prims P)) (ek_signing_key (ap_key P))
       \<lparr>dt_request_id = ch_request_id e, dt_session_id = session_id, dt_client_pubkey = client_pubkey,
        dt_primary_peer_id = bid_node_peer_id winner, dt_settlement_id = DEFAULT_SETTLEMENT_ID,
        dt_max_price_nanox = NanoX (case cq_max_price_nanox req of None \<Rightarrow> - 1 | Some p \<Rightarrow> p),
        dt_issued_at_ms = ch_now_ms e, dt_deadline_ms = ch_now_ms e + DISPATCH_DEADLINE_MS,
        dt_coordinator_pubkey = zeros32, dt_node_x25519_pubkey = bid_node_x25519_pubkey winner,
        dt_signature = []\<rparr>"

text \<open>After the auction: the token, the session key, the dispatch and its reply.\<close>

definition dispatch_to_winner ::
  "api_codec \<Rightarrow> chat_env \<Rightarrow> chat_completion_request \<Rightarrow> uuid \<Rightarrow> string \<Rightarrow> inference_bid \<Rightarrow>
     mesh_call list \<times> (app_error + chat_completion_result)" where
  "dispatch_to_winner P e req session_id new_user_message winner =
     (case decode_hex_pubkey P (cq_client_pubkey_hex req) of
        Inl err \<Rightarrow> ([], Inl err)
      | Inr client_pubkey \<Rightarrow>
          (let token = token_for P e req session_id client_pubkey winner;
               session_key = (case cq_session_key req of None \<Rightarrow> ap_base64_encode P (ch_random_key e) | Some k \<Rightarrow> k)
           in case ap_parse_peer_id P (peer_str (bid_node_peer_id winner)) of
                Inl err \<Rightarrow> ([], Inl (Internal (''winning bid has invalid peer_id: '' @ err)))
              | Inr peer_id \<Rightarrow>
                  (let dispatch = \<lparr>id_dispatch_token = token, id_session_key = session_key,
                         id_new_user_message = new_user_message, id_memwal_context = cq_memwal_context req\<rparr>;
                       call = CallDispatchInference peer_id dispatch
                   in case ch_dispatch e peer_id dispatch of
                        Inl err \<Rightarrow> ([call], Inl (Upstream (''node dispatch failed: '' @ err)))
                      | Inr reply \<Rightarrow>
                          (case ir_error reply of
                             Some err \<Rightarrow> ([call], Inl (Upstream (''node returned an error: '' @ err)))
                           | None \<Rightarrow>
                               ([call], Inr \<lparr>cc_request_id = ch_request_id e, cc_session_id = session_id,
                                  cc_content = ir_content reply, cc_session_key = session_key,
                                  cc_input_tokens = ir_input_tokens reply, cc_output_tokens = ir_output_tokens reply,
                                  cc_latency_ms = ir_latency_ms reply\<rparr>)))))"

text \<open>\<open>None\<close>: the auction window is still open.\<close>

definition chat_completions ::
  "api_codec \<Rightarrow> chat_env \<Rightarrow> chat_completion_request \<Rightarrow> (mesh_call list \<times> (app_error + chat_completion_result)) option" where
  "chat_completions P e req =
     (let (session_id, session_intent) =
            (case cq_session_id req of Some i \<Rightarrow> (i, Continue) | None \<Rightarrow> (ch_session_id e, New))
      in case decrypt_messages_if_encrypted P req of
           Inl err \<Rightarrow> Some ([], Inl err)
         | Inr messages \<Rightarrow>
             (case last_user_message messages of
                None \<Rightarrow> Some ([], Inl (BadRequest ''messages must include a user turn''))
              | Some new_user_message \<Rightarrow>
                  (let request = \<lparr>ireq_request_id = ch_request_id e, ireq_session_id = session_id,
                         ireq_model = cq_model req, ireq_privacy = parse_privacy (cq_privacy req),
                         ireq_session_intent = session_intent\<rparr>;
                       pub = CallPublish request
                   in case ch_publish e of
                        Inl msg \<Rightarrow> Some ([pub], Inl (publish_error msg))
                      | Inr receives \<Rightarrow>
                          (case collect_bids receives of
                             None \<Rightarrow> None
                           | Some bids \<Rightarrow>
                               (let warmth = fetch_warmth_map (ch_warmth e) (ch_pool e) session_id
                                in case pick_winner_with_warmth bids warmth of
                                     None \<Rightarrow> Some ([pub], Inl (NoNodes ''auction closed with no bids''))
                                   | Some winner \<Rightarrow>
                                       (case dispatch_to_winner P e req session_id new_user_message winner of
                                          (calls, result) \<Rightarrow>
                                            Some (pub # CallSetPayoutAddresses (ch_request_id e) (bidder_addresses bids) # calls,
                                                  result)))))))"

section \<open>A successful request\<close>

lemma dispatch_to_winner_ok:
  assumes "dispatch_to_winner P e req sid msg w = (calls, Inr res)"
  obtains client_pubkey peer key reply where
    "decode_hex_pubkey P (cq_client_pubkey_hex req) = Inr client_pubkey"
    "ap_parse_peer_id P (peer_str (bid_node_peer_id w)) = Inr peer"
    "calls = [CallDispatchInference peer \<lparr>id_dispatch_token = token_for P e req sid client_pubkey w,
       id_session_key = key, id_new_user_message = msg, id_memwal_context = cq_memwal_context req\<rparr>]"
    "ch_dispatch e peer \<lparr>id_dispatch_token = token_for P e req sid client_pubkey w,
       id_session_key = key, id_new_user_message = msg, id_memwal_context = cq_memwal_context req\<rparr> = Inr reply"
    "ir_error reply = None" "cc_content res = ir_content reply" "cc_session_key res = key"
    "cc_request_id res = ch_request_id e" "cc_session_id res = sid"
  using assms by (auto simp: dispatch_to_winner_def Let_def split: sum.splits option.splits)

lemma token_for_simps [simp]:
  "dt_request_id (token_for P e req sid pk w) = ch_request_id e"
  "dt_session_id (token_for P e req sid pk w) = sid"
  "dt_client_pubkey (token_for P e req sid pk w) = pk"
  "dt_primary_peer_id (token_for P e req sid pk w) = bid_node_peer_id w"
  "dt_issued_at_ms (token_for P e req sid pk w) = ch_now_ms e"
  "dt_deadline_ms (token_for P e req sid pk w) = ch_now_ms e + 60000"
  "dt_coordinator_pubkey (token_for P e req sid pk w) = public_key_bytes (ap_prims P) (ap_key P)"
  by (simp_all add: token_for_def DISPATCH_DEADLINE_MS_def public_key_bytes_def)

lemma token_for_verifies:
  "ed25519_correct (np_ed (ap_prims P)) \<Longrightarrow>
     token_verify (ap_token_json P) (np_ed (ap_prims P)) (token_for P e req sid pk w) = Inr ()"
  unfolding token_for_def by (rule token.sign_verify)

lemma chat_completions_ok:
  assumes "chat_completions P e req = Some (calls, Inr res)"
  obtains messages msg sid intent receives bids w more where
    "decrypt_messages_if_encrypted P req = Inr messages" "last_user_message messages = Some msg"
    "ch_publish e = Inr receives" "collect_bids receives = Some bids"
    "pick_winner_with_warmth bids (fetch_warmth_map (ch_warmth e) (ch_pool e) sid) = Some w"
    "dispatch_to_winner P e req sid msg w = (more, Inr res)"
    "calls = CallPublish \<lparr>ireq_request_id = ch_request_id e, ireq_session_id = sid, ireq_model = cq_model req,
        ireq_privacy = parse_privacy (cq_privacy req), ireq_session_intent = intent\<rparr> #
      CallSetPayoutAddresses (ch_request_id e) (bidder_addresses bids) # more"
  using assms
  by (auto simp: chat_completions_def Let_def split: sum.splits option.splits prod.splits)

text \<open>
  C13: The coordinator itself has the job served (as the handler's module comment says, and unlike the
  README, whose request returns the node's URL and a token). A request whose handler succeeds made
  exactly three calls on the mesh, in this order: it published one inference request, recorded the
  bidders' payout addresses, and dispatched one job, to the peer the winning bid of the auction names.
  The job carries the last user message and a token that verifies under the enclave key, names the
  winner as primary and the client's 32-byte key, is for the published request and session, and
  expires 60 seconds after it was issued, in 64-bit arithmetic; the content returned is the node's.
\<close>

theorem chat_dispatches_to_auction_winner:
  assumes "ed25519_correct (np_ed (ap_prims P))" and "chat_completions P e req = Some (calls, Inr res)"
  shows "\<exists>request bids w peer dispatch reply receives messages.
    calls = [CallPublish request, CallSetPayoutAddresses (cc_request_id res) (bidder_addresses bids),
             CallDispatchInference peer dispatch] \<and>
    ch_publish e = Inr receives \<and> collect_bids receives = Some bids \<and>
    pick_winner_with_warmth bids (fetch_warmth_map (ch_warmth e) (ch_pool e) (cc_session_id res)) = Some w \<and>
    ap_parse_peer_id P (peer_str (bid_node_peer_id w)) = Inr peer \<and>
    ireq_request_id request = cc_request_id res \<and> ireq_session_id request = cc_session_id res \<and>
    decrypt_messages_if_encrypted P req = Inr messages \<and>
    last_user_message messages = Some (id_new_user_message dispatch) \<and>
    token_verify (ap_token_json P) (np_ed (ap_prims P)) (id_dispatch_token dispatch) = Inr () \<and>
    dt_coordinator_pubkey (id_dispatch_token dispatch) = public_key_bytes (ap_prims P) (ap_key P) \<and>
    dt_primary_peer_id (id_dispatch_token dispatch) = bid_node_peer_id w \<and>
    decode_hex_pubkey P (cq_client_pubkey_hex req) = Inr (dt_client_pubkey (id_dispatch_token dispatch)) \<and>
    dt_request_id (id_dispatch_token dispatch) = cc_request_id res \<and>
    dt_session_id (id_dispatch_token dispatch) = cc_session_id res \<and>
    dt_deadline_ms (id_dispatch_token dispatch) = dt_issued_at_ms (id_dispatch_token dispatch) + 60000 \<and>
    ch_dispatch e peer dispatch = Inr reply \<and> ir_error reply = None \<and> cc_content res = ir_content reply"
proof -
  from assms(2) obtain messages msg sid intent receives bids w more where c:
    "decrypt_messages_if_encrypted P req = Inr messages" "last_user_message messages = Some msg"
    "ch_publish e = Inr receives" "collect_bids receives = Some bids"
    "pick_winner_with_warmth bids (fetch_warmth_map (ch_warmth e) (ch_pool e) sid) = Some w"
    "dispatch_to_winner P e req sid msg w = (more, Inr res)"
    "calls = CallPublish \<lparr>ireq_request_id = ch_request_id e, ireq_session_id = sid, ireq_model = cq_model req,
        ireq_privacy = parse_privacy (cq_privacy req), ireq_session_intent = intent\<rparr> #
      CallSetPayoutAddresses (ch_request_id e) (bidder_addresses bids) # more"
    by (rule chat_completions_ok)
  from c(6) obtain pk peer key reply where d:
    "decode_hex_pubkey P (cq_client_pubkey_hex req) = Inr pk"
    "ap_parse_peer_id P (peer_str (bid_node_peer_id w)) = Inr peer"
    "more = [CallDispatchInference peer \<lparr>id_dispatch_token = token_for P e req sid pk w,
       id_session_key = key, id_new_user_message = msg, id_memwal_context = cq_memwal_context req\<rparr>]"
    "ch_dispatch e peer \<lparr>id_dispatch_token = token_for P e req sid pk w,
       id_session_key = key, id_new_user_message = msg, id_memwal_context = cq_memwal_context req\<rparr> = Inr reply"
    "ir_error reply = None" "cc_content res = ir_content reply" "cc_session_key res = key"
    "cc_request_id res = ch_request_id e" "cc_session_id res = sid"
    by (rule dispatch_to_winner_ok)
  let ?request = "\<lparr>ireq_request_id = ch_request_id e, ireq_session_id = sid, ireq_model = cq_model req,
      ireq_privacy = parse_privacy (cq_privacy req), ireq_session_intent = intent\<rparr>"
  let ?dispatch = "\<lparr>id_dispatch_token = token_for P e req sid pk w, id_session_key = key,
      id_new_user_message = msg, id_memwal_context = cq_memwal_context req\<rparr>"
  show ?thesis
    by (rule exI [of _ ?request], rule exI [of _ bids], rule exI [of _ w], rule exI [of _ peer],
        rule exI [of _ ?dispatch], rule exI [of _ reply], rule exI [of _ receives], rule exI [of _ messages])
      (simp add: c d token_for_verifies [OF assms(1)])
qed

section \<open>A failed request\<close>

definition is_dispatch :: "mesh_call \<Rightarrow> bool" where
  "is_dispatch c = (case c of CallDispatchInference _ _ \<Rightarrow> True | _ \<Rightarrow> False)"

text \<open>
  C14: When the handler of a chat request, called with the extracted body, returns an error, the
  response has status 400, 500, 502 or 503, and the status is 502 exactly when the handler had called
  the mesh to dispatch a job, which then failed on the coordinator's or the node's side or was answered
  with an error by the node. With any other status no job was sent to a node.
\<close>

theorem failed_chat_dispatches_nothing:
  assumes "chat_completions P e req = Some (calls, Inl err)"
  shows "fst (app_error_into_response err) \<in> {400, 500, 502, 503} \<and>
    (fst (app_error_into_response err) = 502 \<longleftrightarrow> list_ex is_dispatch calls)"
proof -
  have dec: "decrypt_messages_if_encrypted P req = Inl x \<Longrightarrow> app_error_status x = 400" for x
    by (auto simp: decrypt_messages_if_encrypted_def Let_def split: option.splits if_splits)
  have hex: "decode_hex_pubkey P h = Inl x \<Longrightarrow> app_error_status x = 400" for h x
    by (auto simp: decode_hex_pubkey_def split: option.splits if_splits)
  have pub: "app_error_status (publish_error m) = 503 \<or> app_error_status (publish_error m) = 500"
    "app_error_status (publish_error m) \<noteq> 502" for m
    by (simp_all add: publish_error_def)
  have disp: "app_error_status err \<in> {400, 500, 502} \<and> (app_error_status err = 502 \<longleftrightarrow> list_ex is_dispatch more)"
    if "dispatch_to_winner P e req sid msg w = (more, Inl err)" for sid msg w more
    using that by (auto simp: dispatch_to_winner_def Let_def hex is_dispatch_def split: sum.splits option.splits)
  have "app_error_status err \<in> {400, 500, 502, 503} \<and> (app_error_status err = 502 \<longleftrightarrow> list_ex is_dispatch calls)"
    using assms pub
    by (auto simp: chat_completions_def Let_def dec is_dispatch_def [of "CallPublish _"] is_dispatch_def [of "CallSetPayoutAddresses _ _"]
        dest: disp split: sum.splits option.splits prod.splits)
  then show ?thesis unfolding app_error_into_response_def fst_conv .
qed

section \<open>A concrete service\<close>

definition pad32 :: "bytes \<Rightarrow> bytes" where
  "pad32 b = take 32 (b @ zeros32)"

lemma length_pad32 [simp]: "length (pad32 b) = 32"
  by (simp add: pad32_def)

definition sample_prims :: enclave_prims where
  "sample_prims = \<lparr>np_ed = sample_ed, np_sha256 = pad32, np_sha512 = (\<lambda>b. b), np_x25519_public = pad32,
     np_x25519_dh = (\<lambda>a p. map2 (+) (pad32 a) p)\<rparr>"

lemma sample_prims_agree: "x25519_agrees sample_prims"
  unfolding x25519_agrees_def by (auto simp: sample_prims_def intro!: nth_equalityI)

definition chars_of_bytes :: "bytes \<Rightarrow> string" where
  "chars_of_bytes b = map (\<lambda>x. char_of (unat x)) b"

definition bytes_of_chars :: "string \<Rightarrow> bytes" where
  "bytes_of_chars s = map (\<lambda>c. of_nat (of_char c)) s"

lemma bytes_of_chars_of_bytes [simp]: "bytes_of_chars (chars_of_bytes b) = b"
proof -
  have "(of_nat (of_char (char_of (unat x))) :: byte) = x" for x :: byte
    using unsigned_less [of x, where ?'a = nat] by simp
  then show ?thesis by (simp add: bytes_of_chars_def chars_of_bytes_def map_idI)
qed

definition sample_messages :: "chat_message list" where
  "sample_messages = [\<lparr>cm_role = ''system'', cm_content = ''be brief''\<rparr>, \<lparr>cm_role = ''user'', cm_content = ''hello''\<rparr>]"

definition sample_api :: api_codec where
  "sample_api = \<lparr>ap_prims = sample_prims, ap_key = key_pair_generate sample_prims [5],
     ap_hex_decode = (\<lambda>s. Some (bytes_of_chars s)), ap_base64_decode = (\<lambda>s. Some (bytes_of_chars s)),
     ap_base64_encode = chars_of_bytes, ap_aes_decrypt = (\<lambda>k n c. Some (rev c)),
     ap_messages_from_slice = (\<lambda>_. Some sample_messages), ap_token_json = sample_token_json,
     ap_parse_peer_id = (\<lambda>s. Inr (PeerId (bytes_of_chars s)))\<rparr>"

definition sample_chat_request :: chat_completion_request where
  "sample_chat_request = \<lparr>cq_model = ''qwen-72b'', cq_messages = sample_messages,
     cq_client_pubkey_hex = chars_of_bytes zeros32, cq_max_price_nanox = Some 10, cq_privacy = None, cq_session_id = None,
     cq_client_x25519_pubkey_hex = None, cq_messages_encrypted = None, cq_messages_nonce = None,
     cq_session_key = Some ''key'', cq_memwal_context = None\<rparr>"

definition sample_chat_env :: chat_env where
  "sample_chat_env = \<lparr>ch_request_id = Uuid [1], ch_session_id = Uuid [2],
     ch_publish = Inr [RecvBid (sample_bid ''A'' 50 300 (Fin (1 / 2))), DeadlineReached], ch_pool = None,
     ch_warmth = sample_env 0, ch_now_ms = 1000, ch_random_key = zeros32,
     ch_dispatch = (\<lambda>_ _. Inr \<lparr>ir_request_id = Uuid [1], ir_session_id = Uuid [2], ir_content = ''hi'',
       ir_input_tokens = 3, ir_output_tokens = 1, ir_latency_ms = 20, ir_error = None\<rparr>)\<rparr>"

definition sample_chat_result :: chat_completion_result where
  "sample_chat_result = \<lparr>cc_request_id = Uuid [1], cc_session_id = Uuid [2], cc_content = ''hi'', cc_session_key = ''key'',
     cc_input_tokens = 3, cc_output_tokens = 1, cc_latency_ms = 20\<rparr>"

lemma sample_chat_succeeds:
  obtains calls where "chat_completions sample_api sample_chat_env sample_chat_request = Some (calls, Inr sample_chat_result)"
  by (simp add: chat_completions_def sample_chat_request_def sample_chat_env_def sample_chat_result_def
      decrypt_messages_if_encrypted_def last_user_message_def sample_messages_def collect_bids_def
      pick_winner_with_warmth_def dispatch_to_winner_def decode_hex_pubkey_def sample_api_def Let_def)

lemma chat_dispatches_to_auction_winner_witness:
  "\<exists>calls peer dispatch. chat_completions sample_api sample_chat_env sample_chat_request = Some (calls, Inr sample_chat_result) \<and>
     last calls = CallDispatchInference peer dispatch \<and>
     token_verify sample_token_json sample_ed (id_dispatch_token dispatch) = Inr ()"
proof -
  obtain calls where c: "chat_completions sample_api sample_chat_env sample_chat_request = Some (calls, Inr sample_chat_result)"
    by (rule sample_chat_succeeds)
  have "\<exists>peer dispatch. last calls = CallDispatchInference peer dispatch \<and>
      token_verify (ap_token_json sample_api) (np_ed (ap_prims sample_api)) (id_dispatch_token dispatch) = Inr ()"
    using chat_dispatches_to_auction_winner [OF _ c] by (fastforce simp: sample_api_def sample_prims_def)
  then show ?thesis using c by (auto simp: sample_api_def sample_prims_def)
qed

lemma failed_chat_dispatches_nothing_witness:
  "\<exists>calls err. chat_completions sample_api (sample_chat_env\<lparr>ch_dispatch := (\<lambda>_ _. Inl ''timeout'')\<rparr>) sample_chat_request =
       Some (calls, Inl err) \<and> fst (app_error_into_response err) = 502 \<and> list_ex is_dispatch calls"
proof -
  obtain calls where c: "chat_completions sample_api (sample_chat_env\<lparr>ch_dispatch := (\<lambda>_ _. Inl ''timeout'')\<rparr>) sample_chat_request =
      Some (calls, Inl (Upstream ''node dispatch failed: timeout''))"
    by (simp add: chat_completions_def sample_chat_request_def sample_chat_env_def
        decrypt_messages_if_encrypted_def last_user_message_def sample_messages_def collect_bids_def
        pick_winner_with_warmth_def dispatch_to_winner_def decode_hex_pubkey_def sample_api_def Let_def)
  have "fst (app_error_into_response (Upstream ''node dispatch failed: timeout'')) = 502"
    by (simp add: app_error_into_response_def)
  then show ?thesis using failed_chat_dispatches_nothing [OF c] c by blast
qed

end
