(* ===== verification/Peer_Registry.thy ===== *)
theory Peer_Registry
  imports Wire_Types
begin

text \<open>
  The peer registry (\<^verbatim>\<open>src/coordinator/src/mesh/peer_registry.rs\<close>): live peers with their
  capabilities and addresses, refreshed by announcements and evicted after a time to live. The
  \<^verbatim>\<open>HashMap\<close> is an association list without repeated keys (its order stands for the iteration
  order, which the code does not rely on); the abstraction to a finite map and the operations on it
  are the specification the list implements. The clock is an argument.
\<close>

section \<open>State\<close>

record peer_entry =
  pe_capabilities :: node_capabilities
  pe_multiaddrs :: "multiaddr list"
  pe_last_seen_ms :: u64

text \<open>The time to live, a \<^verbatim>\<open>Duration\<close>, in milliseconds.\<close>

record peer_registry =
  reg_inner :: "(peer_id \<times> peer_entry) list"
  reg_ttl_ms :: nat

section \<open>Operations\<close>

definition registry_new :: "nat \<Rightarrow> peer_registry" where
  "registry_new ttl = \<lparr>reg_inner = [], reg_ttl_ms = ttl\<rparr>"

fun merge_addrs :: "multiaddr list \<Rightarrow> multiaddr list \<Rightarrow> multiaddr list" where
  "merge_addrs known [] = known"
| "merge_addrs known (a # addrs) = merge_addrs (if a \<in> set known then known else known @ [a]) addrs"

definition upsert :: "u64 \<Rightarrow> peer_id \<Rightarrow> node_capabilities \<Rightarrow> multiaddr list \<Rightarrow> peer_registry \<Rightarrow> peer_registry" where
  "upsert now_ms peer capabilities addrs g =
     g\<lparr>reg_inner :=
        (case map_of (reg_inner g) peer of
           Some e \<Rightarrow>
             AList.update peer
               (e\<lparr>pe_capabilities := capabilities, pe_multiaddrs := merge_addrs (pe_multiaddrs e) addrs,
                  pe_last_seen_ms := now_ms\<rparr>) (reg_inner g)
         | None \<Rightarrow>
             AList.update peer
               \<lparr>pe_capabilities = capabilities, pe_multiaddrs = addrs, pe_last_seen_ms = now_ms\<rparr> (reg_inner g))\<rparr>"

definition observe_addrs :: "peer_id \<Rightarrow> multiaddr list \<Rightarrow> peer_registry \<Rightarrow> peer_registry" where
  "observe_addrs peer addrs g =
     (case map_of (reg_inner g) peer of
        None \<Rightarrow> g
      | Some e \<Rightarrow>
          g\<lparr>reg_inner := AList.update peer (e\<lparr>pe_multiaddrs := merge_addrs (pe_multiaddrs e) addrs\<rparr>) (reg_inner g)\<rparr>)"

definition registry_get :: "peer_id \<Rightarrow> peer_registry \<Rightarrow> peer_entry option" where
  "registry_get peer g = map_of (reg_inner g) peer"

definition snapshot :: "peer_registry \<Rightarrow> (peer_id \<times> peer_entry) list" where
  "snapshot g = reg_inner g"

definition registry_len :: "peer_registry \<Rightarrow> nat" where
  "registry_len g = length (reg_inner g)"

definition registry_is_empty :: "peer_registry \<Rightarrow> bool" where
  "registry_is_empty g = (registry_len g = 0)"

definition saturating_sub :: "u64 \<Rightarrow> u64 \<Rightarrow> u64" where
  "saturating_sub a b = (if b \<le> a then a - b else 0)"

definition evict_stale :: "u64 \<Rightarrow> peer_registry \<Rightarrow> peer_registry" where
  "evict_stale now_ms g =
     (let cutoff = saturating_sub now_ms (of_nat (reg_ttl_ms g))
      in g\<lparr>reg_inner := filter (\<lambda>(_, e). cutoff \<le> pe_last_seen_ms e) (reg_inner g)\<rparr>)"

section \<open>Well-formedness and abstraction\<close>

definition registry_wf :: "peer_registry \<Rightarrow> bool" where
  "registry_wf g \<longleftrightarrow> distinct (map fst (reg_inner g))"

lemma registry_wf_new [simp]: "registry_wf (registry_new ttl)"
  by (simp add: registry_wf_def registry_new_def)

lemma registry_wf_upsert [simp]: "registry_wf g \<Longrightarrow> registry_wf (upsert now p c a g)"
  by (simp add: registry_wf_def upsert_def distinct_update split: option.split)

lemma registry_wf_observe [simp]: "registry_wf g \<Longrightarrow> registry_wf (observe_addrs p a g)"
  by (simp add: registry_wf_def observe_addrs_def distinct_update split: option.split)

lemma registry_wf_evict [simp]: "registry_wf g \<Longrightarrow> registry_wf (evict_stale now g)"
  by (simp add: registry_wf_def evict_stale_def Let_def distinct_map_filter)

lemma merge_addrs_set [simp]: "set (merge_addrs known addrs) = set known \<union> set addrs"
  by (induction known addrs rule: merge_addrs.induct) auto

lemma merge_addrs_distinct: "distinct known \<Longrightarrow> distinct (merge_addrs known addrs)"
  by (induction known addrs rule: merge_addrs.induct) auto

text \<open>The specification: the registry as a partial map.\<close>

type_synonym peer_map = "peer_id \<rightharpoonup> peer_entry"

definition announce_map :: "u64 \<Rightarrow> peer_id \<Rightarrow> node_capabilities \<Rightarrow> multiaddr list \<Rightarrow> peer_map \<Rightarrow> peer_map" where
  "announce_map now p caps addrs m =
     m(p \<mapsto> \<lparr>pe_capabilities = caps,
            pe_multiaddrs = (case m p of None \<Rightarrow> addrs | Some e \<Rightarrow> merge_addrs (pe_multiaddrs e) addrs),
            pe_last_seen_ms = now\<rparr>)"

definition observe_map :: "peer_id \<Rightarrow> multiaddr list \<Rightarrow> peer_map \<Rightarrow> peer_map" where
  "observe_map p addrs m =
     (\<lambda>q. if q = p then map_option (\<lambda>e. e\<lparr>pe_multiaddrs := merge_addrs (pe_multiaddrs e) addrs\<rparr>) (m q) else m q)"

definition alive_map :: "nat \<Rightarrow> nat \<Rightarrow> peer_map \<Rightarrow> peer_map" where
  "alive_map now ttl m =
     (\<lambda>q. case m q of None \<Rightarrow> None
        | Some e \<Rightarrow> if now \<le> unat (pe_last_seen_ms e) + ttl then Some e else None)"

lemma cutoff_le_iff:
  assumes "ttl < 2 ^ 64"
  shows "saturating_sub now (of_nat ttl) \<le> seen \<longleftrightarrow> unat now \<le> unat seen + ttl"
proof -
  have u: "unat (of_nat ttl :: u64) = ttl"
    using assms by (simp add: unsigned_of_nat take_bit_nat_eq_self)
  show ?thesis
  proof (cases "of_nat ttl \<le> now")
    case True
    then have "unat (now - of_nat ttl) = unat now - ttl" "ttl \<le> unat now"
      using u by (simp_all add: unat_sub word_le_nat_alt)
    with True show ?thesis by (auto simp: saturating_sub_def word_le_nat_alt)
  next
    case False
    then have "unat now < ttl" using u by (simp add: word_le_nat_alt)
    with False show ?thesis by (simp add: saturating_sub_def)
  qed
qed

lemma map_of_filter_distinct:
  assumes "distinct (map fst xs)"
  shows "map_of (filter (\<lambda>(_, v). P v) xs) k = (case map_of xs k of None \<Rightarrow> None | Some v \<Rightarrow> if P v then Some v else None)"
  using assms
proof (induction xs)
  case (Cons x xs)
  obtain a b where x: "x = (a, b)" by (cases x)
  have "map_of xs a = None" using Cons.prems x by (auto simp: map_of_eq_None_iff)
  with Cons x show ?case by (auto split: option.splits)
qed simp

lemma entry_update:
  "(e :: peer_entry)\<lparr>pe_capabilities := c, pe_multiaddrs := m, pe_last_seen_ms := n\<rparr> =
     \<lparr>pe_capabilities = c, pe_multiaddrs = m, pe_last_seen_ms = n\<rparr>"
  by (cases e) simp

text \<open>
  The registry implements a map of live peers. An announcement sets the peer's capabilities and time,
  keeps the addresses it had and adds the new ones; an address observation changes the addresses of a
  known peer only, never its capabilities or time, and adds no peer; eviction with a time to live that
  fits 64 bits keeps exactly the entries seen at most that long ago, with no wrap-around on either side
  of the clock. Every operation keeps the keys unique.
\<close>

theorem registry_refines_map:
  assumes "registry_wf g" and "reg_ttl_ms g < 2 ^ 64"
  shows "map_of (reg_inner (upsert now p caps addrs g)) = announce_map now p caps addrs (map_of (reg_inner g)) \<and>
    map_of (reg_inner (observe_addrs p addrs g)) = observe_map p addrs (map_of (reg_inner g)) \<and>
    map_of (reg_inner (evict_stale now g)) = alive_map (unat now) (reg_ttl_ms g) (map_of (reg_inner g)) \<and>
    registry_wf (upsert now p caps addrs g) \<and> registry_wf (observe_addrs p addrs g) \<and> registry_wf (evict_stale now g)"
proof -
  have "map_of (reg_inner (upsert now p caps addrs g)) = announce_map now p caps addrs (map_of (reg_inner g))"
    by (simp add: upsert_def announce_map_def update_conv' entry_update split: option.split)
  moreover have "map_of (reg_inner (observe_addrs p addrs g)) = observe_map p addrs (map_of (reg_inner g))"
    by (auto simp: observe_addrs_def observe_map_def update_conv' split: option.split)
  moreover have "map_of (reg_inner (evict_stale now g)) = alive_map (unat now) (reg_ttl_ms g) (map_of (reg_inner g))"
    using assms by (auto simp: evict_stale_def alive_map_def registry_wf_def map_of_filter_distinct cutoff_le_iff Let_def)
  ultimately show ?thesis using assms(1) by simp
qed

definition sample_caps :: node_capabilities where
  "sample_caps = \<lparr>caps_peer_id = NodePeerId ''A'', caps_models = [''qwen-72b''], caps_max_concurrent_jobs = 4\<rparr>"

definition sample_registry :: peer_registry where
  "sample_registry = upsert 100 (PeerId [1]) sample_caps [] (registry_new 60)"

lemma registry_refines_map_witness:
  "map_of (reg_inner (evict_stale 161 sample_registry)) =
     alive_map (unat (161 :: u64)) (reg_ttl_ms sample_registry) (map_of (reg_inner sample_registry))"
proof -
  have "registry_wf sample_registry" "reg_ttl_ms sample_registry < 2 ^ 64"
    by (simp_all add: sample_registry_def) (simp add: upsert_def registry_new_def)
  from registry_refines_map [OF this] show ?thesis by blast
qed

end
