(* ===== verification/Receipts.thy ===== *)
theory Receipts
  imports Routing_Receipt Database
begin

text \<open>
  The routing-receipt archive (\<^verbatim>\<open>src/coordinator/src/receipts/mod.rs\<close> and \<^verbatim>\<open>postgres.rs\<close>): the
  trait \<^verbatim>\<open>ReceiptArchive\<close> as a locale, and its in-memory and Postgres implementations as the
  definitions that interpret it. Conversion of a receipt to and from a JSON value is serde's; the two
  directions are a parameter, and \<open>storable\<close> says that a receipt survives the round trip.
\<close>

section \<open>Conversion\<close>

record receipt_codec =
  rc_to_value :: "routing_receipt \<Rightarrow> json option"
  rc_from_value :: "json \<Rightarrow> routing_receipt option"

definition storable :: "receipt_codec \<Rightarrow> routing_receipt \<Rightarrow> bool" where
  "storable C r \<longleftrightarrow> (\<exists>j. rc_to_value C r = Some j \<and> rc_from_value C j = Some r)"

section \<open>In memory\<close>

type_synonym receipt_map = "uuid \<rightharpoonup> routing_receipt"

definition mem_put :: "stmt_env \<Rightarrow> routing_receipt \<Rightarrow> receipt_map \<Rightarrow> (string + unit) \<times> receipt_map" where
  "mem_put env receipt m = (Inr (), m(rr_request_id receipt \<mapsto> receipt))"

definition mem_get :: "stmt_env \<Rightarrow> uuid \<Rightarrow> receipt_map \<Rightarrow> string + routing_receipt option" where
  "mem_get env request_id m = Inr (m request_id)"

definition mem_len :: "receipt_map \<Rightarrow> nat" where
  "mem_len m = card (dom m)"

section \<open>Postgres\<close>

definition pg_put ::
  "receipt_codec \<Rightarrow> stmt_env \<Rightarrow> routing_receipt \<Rightarrow> receipt_row list \<Rightarrow> (string + unit) \<times> receipt_row list" where
  "pg_put C env receipt rows =
     (case rc_to_value C receipt of
        None \<Rightarrow> (Inl ''serialize'', rows)
      | Some json \<Rightarrow>
          (case se_err env of
             Some e \<Rightarrow> (Inl e, rows)
           | None \<Rightarrow>
               (Inr (), upsert_by rcr_request_id
                  \<lparr>rcr_request_id = rr_request_id receipt, rcr_receipt_json = json, rcr_stored_at = se_now env,
                   rcr_walrus_blob_id = None, rcr_created_at = se_now env\<rparr>
                  (\<lambda>row. row\<lparr>rcr_receipt_json := json, rcr_stored_at := se_now env\<rparr>) rows)))"

definition pg_get ::
  "receipt_codec \<Rightarrow> stmt_env \<Rightarrow> uuid \<Rightarrow> receipt_row list \<Rightarrow> string + routing_receipt option" where
  "pg_get C env request_id rows =
     (case se_err env of
        Some e \<Rightarrow> Inl e
      | None \<Rightarrow>
          (case find (\<lambda>row. rcr_request_id row = request_id) rows of
             None \<Rightarrow> Inr None
           | Some row \<Rightarrow>
               (case rc_from_value C (rcr_receipt_json row) of
                  None \<Rightarrow> Inl ''deserialize''
                | Some receipt \<Rightarrow> Inr (Some receipt))))"

section \<open>The archive behind the trait object\<close>

datatype archive = MemArchive receipt_map | PgArchive "receipt_row list"

definition archive_put :: "receipt_codec \<Rightarrow> stmt_env \<Rightarrow> routing_receipt \<Rightarrow> archive \<Rightarrow> (string + unit) \<times> archive" where
  "archive_put C env receipt a =
     (case a of
        MemArchive m \<Rightarrow> map_prod id MemArchive (mem_put env receipt m)
      | PgArchive rows \<Rightarrow> map_prod id PgArchive (pg_put C env receipt rows))"

definition archive_get :: "receipt_codec \<Rightarrow> stmt_env \<Rightarrow> uuid \<Rightarrow> archive \<Rightarrow> string + routing_receipt option" where
  "archive_get C env request_id a =
     (case a of MemArchive m \<Rightarrow> mem_get env request_id m | PgArchive rows \<Rightarrow> pg_get C env request_id rows)"

section \<open>The contract\<close>

text \<open>
  What a client of the trait relies on: a successful \<open>put\<close> makes the receipt the one returned for its
  request and leaves every other request as it was; a failed \<open>put\<close> changes nothing.
\<close>

locale receipt_archive =
  fixes put :: "stmt_env \<Rightarrow> routing_receipt \<Rightarrow> 's \<Rightarrow> (string + unit) \<times> 's"
    and get :: "stmt_env \<Rightarrow> uuid \<Rightarrow> 's \<Rightarrow> string + routing_receipt option"
    and keeps :: "routing_receipt \<Rightarrow> bool"
  assumes get_put_same: "put e r s = (Inr (), s') \<Longrightarrow> keeps r \<Longrightarrow> se_err f = None \<Longrightarrow> get f (rr_request_id r) s' = Inr (Some r)"
    and get_put_other: "put e r s = (Inr (), s') \<Longrightarrow> rid \<noteq> rr_request_id r \<Longrightarrow> get f rid s' = get f rid s"
    and put_error: "put e r s = (Inl x, s') \<Longrightarrow> s' = s"
begin

text \<open>A sequence of \<open>put\<close>s, each in its own environment, going on after failures.\<close>

fun put_all :: "(stmt_env \<times> routing_receipt) list \<Rightarrow> 's \<Rightarrow> 's" where
  "put_all [] s = s"
| "put_all ((e, r) # ers) s = put_all ers (snd (put e r s))"

lemma get_put_all_other:
  "\<forall>(e, r) \<in> set ers. rr_request_id r \<noteq> rid \<Longrightarrow> get f rid (put_all ers s) = get f rid s"
proof (induction ers s rule: put_all.induct)
  case (2 e r ers s)
  obtain x s' where p: "put e r s = (x, s')" by (cases "put e r s")
  have "get f rid s' = get f rid s"
    using 2(2) p get_put_other [of e r s s' rid f] put_error [of e r s _ s'] by (cases x) auto
  then show ?case using 2 p by simp
qed simp

text \<open>The archive returns the receipt written last for a request.\<close>

theorem last_put_wins:
  assumes "fst (put e r (put_all before s)) = Inr ()" and "keeps r" and "se_err f = None"
    and "\<forall>(e', r') \<in> set after. rr_request_id r' \<noteq> rr_request_id r"
  shows "get f (rr_request_id r) (put_all (before @ (e, r) # after) s) = Inr (Some r)"
proof -
  have split: "put_all (xs @ ys) t = put_all ys (put_all xs t)" for xs ys t
    by (induction xs t rule: put_all.induct) auto
  obtain s' where "put e r (put_all before s) = (Inr (), s')"
    using assms(1) by (cases "put e r (put_all before s)") auto
  then show ?thesis
    using assms get_put_all_other by (simp add: split get_put_same)
qed

end

section \<open>The implementations meet it\<close>

interpretation mem: receipt_archive mem_put mem_get "\<lambda>_. True"
  by unfold_locales (auto simp: mem_put_def mem_get_def)

lemma pg_get_put_same:
  assumes "pg_put C e r rows = (Inr (), rows')" "storable C r" "se_err f = None"
  shows "pg_get C f (rr_request_id r) rows' = Inr (Some r)"
proof -
  obtain j where j: "rc_to_value C r = Some j" "rc_from_value C j = Some r"
    using assms(2) by (auto simp: storable_def)
  let ?new = "\<lparr>rcr_request_id = rr_request_id r, rcr_receipt_json = j, rcr_stored_at = se_now e,
      rcr_walrus_blob_id = None, rcr_created_at = se_now e\<rparr>"
  let ?f = "\<lambda>row. row\<lparr>rcr_receipt_json := j, rcr_stored_at := se_now e\<rparr>"
  have "rows' = upsert_by rcr_request_id ?new ?f rows"
    using assms(1) j(1) by (auto simp: pg_put_def split: option.splits)
  moreover obtain row where "find (\<lambda>x. rcr_request_id x = rcr_request_id ?new)
      (upsert_by rcr_request_id ?new ?f rows) = Some row" "row = ?new \<or> (\<exists>s\<in>set rows. row = ?f s)"
    using find_upsert_same [of rcr_request_id ?f ?new rows] by auto
  ultimately show ?thesis using j(2) assms(3) by (auto simp: pg_get_def)
qed

interpretation pg: receipt_archive "pg_put C" "pg_get C" "storable C" for C
proof unfold_locales
  show "pg_put C e r rows = (Inr (), rows') \<Longrightarrow> storable C r \<Longrightarrow> se_err f = None \<Longrightarrow>
      pg_get C f (rr_request_id r) rows' = Inr (Some r)" for e r rows rows' f
    by (rule pg_get_put_same)
  show "pg_put C e r rows = (Inr (), rows') \<Longrightarrow> rid \<noteq> rr_request_id r \<Longrightarrow>
      pg_get C f rid rows' = pg_get C f rid rows" for e r rows rows' rid f
    by (auto simp: pg_put_def pg_get_def find_upsert_other split: option.splits)
  show "pg_put C e r rows = (Inl x, rows') \<Longrightarrow> rows' = rows" for e r rows x rows'
    by (auto simp: pg_put_def split: option.splits)
qed

interpretation archive: receipt_archive "archive_put C" "archive_get C" "storable C" for C
proof unfold_locales
  show "archive_put C e r s = (Inr (), s') \<Longrightarrow> storable C r \<Longrightarrow> se_err f = None \<Longrightarrow>
      archive_get C f (rr_request_id r) s' = Inr (Some r)" for e r s s' f
    by (cases s) (auto simp: archive_put_def archive_get_def map_prod_def mem_put_def mem_get_def
        split: prod.splits dest: pg.get_put_same)
  show "archive_put C e r s = (Inr (), s') \<Longrightarrow> rid \<noteq> rr_request_id r \<Longrightarrow>
      archive_get C f rid s' = archive_get C f rid s" for e r s s' rid f
    by (cases s) (auto simp: archive_put_def archive_get_def map_prod_def mem_put_def mem_get_def
        split: prod.splits dest: pg.get_put_other)
  show "archive_put C e r s = (Inl x, s') \<Longrightarrow> s' = s" for e r s x s'
    by (cases s) (auto simp: archive_put_def map_prod_def mem_put_def split: prod.splits dest: pg.put_error)
qed

lemma pg_put_keys:
  "distinct (map rcr_request_id rows) \<Longrightarrow> distinct (map rcr_request_id (snd (pg_put C e r rows)))"
  by (simp add: pg_put_def upsert_by_distinct split: option.split)

text \<open>
  C19: Both archives keep the receipt written last for each request: after any sequence of writes (some
  of which may fail), a successful write of \<open>r\<close> and further writes for other requests, reading \<open>r\<close>'s
  request returns \<open>r\<close>, as long as serde's conversion gives \<open>r\<close> back.
\<close>

theorem archive_returns_last_receipt:
  assumes "fst (archive_put C e r (archive.put_all C before a)) = Inr ()" and "storable C r"
    and "se_err f = None" and "\<forall>(e', r') \<in> set after. rr_request_id r' \<noteq> rr_request_id r"
  shows "archive_get C f (rr_request_id r) (archive.put_all C (before @ (e, r) # after) a) = Inr (Some r)"
  using assms by (rule archive.last_put_wins)

text \<open>A conversion with the round trip, to show that the hypothesis can be met.\<close>

definition num_json :: "'w::len word \<Rightarrow> json" where
  "num_json w = JNumber (uint w)"

fun json_num :: "json \<Rightarrow> 'w::len word option" where
  "json_num (JNumber n) = Some (word_of_int n)"
| "json_num _ = None"

fun json_str :: "json \<Rightarrow> string option" where
  "json_str (JString s) = Some s"
| "json_str _ = None"

fun json_list :: "(json \<Rightarrow> 'a option) \<Rightarrow> json \<Rightarrow> 'a list option" where
  "json_list f (JArray js) = those (map f js)"
| "json_list f _ = None"

definition bytes_json :: "bytes \<Rightarrow> json" where
  "bytes_json b = JArray (map num_json b)"

definition json_bytes :: "json \<Rightarrow> bytes option" where
  "json_bytes = json_list json_num"

definition payout_value :: "payout \<Rightarrow> json" where
  "payout_value p = JArray [JString (po_sui_address p), num_json (po_amount_nanox p)]"

fun value_payout :: "json \<Rightarrow> payout option" where
  "value_payout (JArray [a, n]) =
     Option.bind (json_str a) (\<lambda>s. map_option (\<lambda>w. \<lparr>po_sui_address = s, po_amount_nanox = w\<rparr>) (json_num n))"
| "value_payout _ = None"

definition receipt_value :: "routing_receipt \<Rightarrow> json" where
  "receipt_value r =
     JArray [bytes_json (uuid_as_bytes (rr_request_id r)), JString (rr_client_id r),
       JString (peer_str (rr_primary_peer_id r)), JArray (map (\<lambda>p. JString (peer_str p)) (rr_helper_peer_ids r)),
       bytes_json (rr_bid_set_hash r), JArray (map bytes_json (rr_proof_ids r)),
       bytes_json (rr_aggregated_output_hash r), JArray (map payout_value (rr_payouts r)),
       num_json (rr_timestamp_ms r), bytes_json (rr_coordinator_pubkey r), bytes_json (rr_signature r)]"

fun value_receipt :: "json \<Rightarrow> routing_receipt option" where
  "value_receipt (JArray [a, b, c, d, e, f, g, h, i, j, k]) =
     Option.bind (json_bytes a) (\<lambda>rid. Option.bind (json_str b) (\<lambda>client. Option.bind (json_str c) (\<lambda>primary.
     Option.bind (json_list (\<lambda>x. map_option NodePeerId (json_str x)) d) (\<lambda>helpers.
     Option.bind (json_bytes e) (\<lambda>bidset. Option.bind (json_list json_bytes f) (\<lambda>proofs.
     Option.bind (json_bytes g) (\<lambda>agg. Option.bind (json_list value_payout h) (\<lambda>payouts.
     Option.bind (json_num i) (\<lambda>ts. Option.bind (json_bytes j) (\<lambda>pk. Option.bind (json_bytes k) (\<lambda>sig.
       Some \<lparr>rr_request_id = Uuid rid, rr_client_id = client, rr_primary_peer_id = NodePeerId primary,
         rr_helper_peer_ids = helpers, rr_bid_set_hash = bidset, rr_proof_ids = proofs,
         rr_aggregated_output_hash = agg, rr_payouts = payouts, rr_timestamp_ms = ts,
         rr_coordinator_pubkey = pk, rr_signature = sig\<rparr>)))))))))))"
| "value_receipt _ = None"

lemma those_map_Some: "(\<And>x. f (g x) = Some x) \<Longrightarrow> those (map f (map g xs)) = Some xs"
  by (induction xs) auto

lemma json_num_json [simp]: "json_num (num_json w) = Some w"
  by (simp add: num_json_def)

lemma json_bytes_json [simp]: "json_bytes (bytes_json b) = Some b"
  unfolding bytes_json_def json_bytes_def json_list.simps by (rule those_map_Some) simp

lemma value_receipt_value: "value_receipt (receipt_value r) = Some r"
proof -
  have "those (map (\<lambda>x. map_option NodePeerId (json_str x)) (map (\<lambda>p. JString (peer_str p)) ps)) = Some ps" for ps
    by (rule those_map_Some) simp
  moreover have "those (map json_bytes (map bytes_json bs)) = Some bs" for bs
    by (rule those_map_Some) simp
  moreover have "those (map value_payout (map payout_value ps)) = Some ps" for ps
    by (rule those_map_Some) (simp add: payout_value_def)
  ultimately show ?thesis by (simp only: receipt_value_def value_receipt.simps json_list.simps) simp
qed

definition sample_receipt_codec :: receipt_codec where
  "sample_receipt_codec = \<lparr>rc_to_value = (\<lambda>r. Some (receipt_value r)), rc_from_value = value_receipt\<rparr>"

lemma sample_receipt_codec_storable [simp]: "storable sample_receipt_codec r"
  by (simp add: storable_def sample_receipt_codec_def value_receipt_value)

lemma archive_returns_last_receipt_witness:
  "archive_get sample_receipt_codec (sample_env 0) (rr_request_id sample_receipt)
     (archive.put_all sample_receipt_codec ([] @ (sample_env 1, sample_receipt) # []) (PgArchive [])) =
   Inr (Some sample_receipt)"
  by (rule archive_returns_last_receipt)
    (simp_all add: archive_put_def pg_put_def sample_env_def, simp add: sample_receipt_codec_def)

end
