(* ===== verification/Sidecar.thy ===== *)
theory Sidecar
  imports Routing_Receipt
begin

text \<open>
  The HTTP client of the Sui sidecar and the on-chain registration task
  (\<^verbatim>\<open>src/coordinator/src/onchain/sui.rs\<close>). The sidecar is another process: what it answers to
  the \<open>i\<close>-th request is a parameter. Each operation returns the calls it makes, in order, beside its
  result. Time is the list of the pauses taken, in seconds.
\<close>

section \<open>Types\<close>

record registered_enclave =
  re_tx_digest :: string
  re_enclave_object_id :: string

record sidecar_client =
  sc_base_url :: string
  sc_secret :: string

record payout_json =
  pj_sui_address :: string
  pj_amount_nanox :: u64

record settle_req =
  sq_request_id :: string
  sq_payee_sui_address :: string
  sq_amount_nanox :: u64
  sq_timestamp_ms :: u64
  sq_aggregated_output_hash :: string
  sq_payouts :: "payout_json list"
  sq_signature :: string

record register_enclave_resp =
  rer_tx_digest :: string
  rer_enclave_object_id :: "string option"

text \<open>The answer to one request; the body is absent when reading it fails.\<close>

datatype http_result = SendFailed | Response nat "string option"

datatype sidecar_error =
    SecretNotSet
  | HttpClientError
  | NotReady nat
  | PostFailed string
  | BadStatus nat string
  | DecodeBody string

datatype sidecar_call =
    PostRegister string string string
  | PutEnclaveId string string string
  | PostSettle string string settle_req

definition is_success :: "nat \<Rightarrow> bool" where
  "is_success status \<longleftrightarrow> 200 \<le> status \<and> status < 300"

definition body_text :: "string option \<Rightarrow> string" where
  "body_text b = (case b of None \<Rightarrow> [] | Some t \<Rightarrow> t)"

section \<open>Client\<close>

definition default_sidecar_url :: string where
  "default_sidecar_url = ''http://127.0.0.1:8200''"

definition sidecar_from_env :: "(string \<rightharpoonup> string) \<Rightarrow> bool \<Rightarrow> sidecar_error + sidecar_client" where
  "sidecar_from_env vars client_builds =
     (let base_url = (case vars ''SIDECAR_URL'' of None \<Rightarrow> default_sidecar_url | Some u \<Rightarrow> u)
      in case vars ''SIDECAR_SECRET'' of
           None \<Rightarrow> Inl SecretNotSet
         | Some secret \<Rightarrow>
             if client_builds then Inr \<lparr>sc_base_url = base_url, sc_secret = secret\<rparr> else Inl HttpClientError)"

definition health_ok :: "http_result \<Rightarrow> bool" where
  "health_ok r = (case r of SendFailed \<Rightarrow> False | Response s _ \<Rightarrow> is_success s)"

fun wait_ready_from :: "(nat \<Rightarrow> http_result) \<Rightarrow> nat \<Rightarrow> nat \<Rightarrow> nat \<Rightarrow> sidecar_error + unit" where
  "wait_ready_from health max_attempts attempt 0 = Inr ()"
| "wait_ready_from health max_attempts attempt (Suc left) =
     (if health_ok (health attempt) then Inr ()
      else if attempt = max_attempts then Inl (NotReady max_attempts)
      else wait_ready_from health max_attempts (Suc attempt) left)"

definition wait_ready :: "(nat \<Rightarrow> http_result) \<Rightarrow> nat \<Rightarrow> sidecar_error + unit" where
  "wait_ready health max_attempts = wait_ready_from health max_attempts 1 max_attempts"

definition missing_id :: string where
  "missing_id = ''<missing>''"

definition register_enclave ::
  "(string \<Rightarrow> register_enclave_resp option) \<Rightarrow> sidecar_client \<Rightarrow> http_result \<Rightarrow> string \<Rightarrow>
     sidecar_call list \<times> (sidecar_error + registered_enclave)" where
  "register_enclave from_json c answer attestation_b64 =
     (let url = sc_base_url c @ ''/sui/register-enclave'';
          post = PostRegister url (sc_secret c) attestation_b64
      in case answer of
           SendFailed \<Rightarrow> ([post], Inl (PostFailed url))
         | Response status b \<Rightarrow>
             (let body = body_text b
              in if \<not> is_success status then ([post], Inl (BadStatus status body))
                 else case from_json body of
                        None \<Rightarrow> ([post], Inl (DecodeBody body))
                      | Some parsed \<Rightarrow>
                          (let oid = (case rer_enclave_object_id parsed of None \<Rightarrow> missing_id | Some i \<Rightarrow> i);
                               put = (if oid \<noteq> missing_id
                                      then [PutEnclaveId (sc_base_url c @ ''/sui/set-enclave-id'') (sc_secret c) oid]
                                      else [])
                           in (post # put,
                               Inr \<lparr>re_tx_digest = rer_tx_digest parsed, re_enclave_object_id = oid\<rparr>))))"

definition settle_req_of ::
  "(uuid \<Rightarrow> string) \<Rightarrow> (bytes \<Rightarrow> string) \<Rightarrow> routing_receipt \<Rightarrow> string \<Rightarrow> u64 \<Rightarrow> settle_req" where
  "settle_req_of uuid_str hex_encode receipt payee amount =
     \<lparr>sq_request_id = uuid_str (rr_request_id receipt), sq_payee_sui_address = payee,
      sq_amount_nanox = amount, sq_timestamp_ms = rr_timestamp_ms receipt,
      sq_aggregated_output_hash = hex_encode (rr_aggregated_output_hash receipt),
      sq_payouts = map (\<lambda>p. \<lparr>pj_sui_address = po_sui_address p, pj_amount_nanox = po_amount_nanox p\<rparr>)
        (rr_payouts receipt),
      sq_signature = hex_encode (rr_signature receipt)\<rparr>"

text \<open>The result of \<^verbatim>\<open>settle\<close> for an answer; \<open>from_json\<close> reads the digest of the response.\<close>

definition settle_result :: "(string \<Rightarrow> string option) \<Rightarrow> string \<Rightarrow> http_result \<Rightarrow> sidecar_error + string" where
  "settle_result from_json url answer =
     (case answer of
        SendFailed \<Rightarrow> Inl (PostFailed url)
      | Response status b \<Rightarrow>
          (let body = body_text b
           in if \<not> is_success status then Inl (BadStatus status body)
              else case from_json body of None \<Rightarrow> Inl (DecodeBody body) | Some digest \<Rightarrow> Inr digest))"

definition settle ::
  "(uuid \<Rightarrow> string) \<Rightarrow> (bytes \<Rightarrow> string) \<Rightarrow> (string \<Rightarrow> string option) \<Rightarrow> sidecar_client \<Rightarrow> http_result \<Rightarrow>
     routing_receipt \<Rightarrow> string \<Rightarrow> u64 \<Rightarrow> sidecar_call \<times> (sidecar_error + string)" where
  "settle uuid_str hex_encode from_json c answer receipt payee amount =
     (let url = sc_base_url c @ ''/sui/settle''
      in (PostSettle url (sc_secret c) (settle_req_of uuid_str hex_encode receipt payee amount),
          settle_result from_json url answer))"

section \<open>Registration\<close>

definition MAX_ATTEMPTS :: nat where
  "MAX_ATTEMPTS = 5"

text \<open>
  The attempts from number \<open>attempt\<close> on, with the current backoff: the calls, the pauses, and the value
  written to the shared cell, if any.
\<close>

fun registration_from ::
  "(string \<Rightarrow> register_enclave_resp option) \<Rightarrow> sidecar_client \<Rightarrow> (nat \<Rightarrow> http_result) \<Rightarrow> string \<Rightarrow>
     nat \<Rightarrow> nat \<Rightarrow> nat \<Rightarrow> sidecar_call list \<times> nat list \<times> registered_enclave option" where
  "registration_from from_json c answers att attempt backoff 0 = ([], [], None)"
| "registration_from from_json c answers att attempt backoff (Suc left) =
     (case register_enclave from_json c (answers attempt) att of
        (calls, Inr reg) \<Rightarrow> (calls, [], Some reg)
      | (calls, Inl e) \<Rightarrow>
          if attempt = MAX_ATTEMPTS then (calls, [], None)
          else (case registration_from from_json c answers att (Suc attempt) (min (backoff * 2) 60) left of
                  (calls', pauses, reg) \<Rightarrow> (calls @ calls', backoff # pauses, reg)))"

definition spawn_registration ::
  "(string \<Rightarrow> register_enclave_resp option) \<Rightarrow> sidecar_client \<Rightarrow> (nat \<Rightarrow> http_result) \<Rightarrow> (nat \<Rightarrow> http_result) \<Rightarrow>
     string \<Rightarrow> registered_enclave option \<Rightarrow> sidecar_call list \<times> nat list \<times> registered_enclave option" where
  "spawn_registration from_json c health answers att state =
     (case wait_ready health 60 of
        Inl e \<Rightarrow> ([], [], state)
      | Inr _ \<Rightarrow>
          (case registration_from from_json c answers att 1 2 MAX_ATTEMPTS of
             (calls, pauses, None) \<Rightarrow> (calls, pauses, state)
           | (calls, pauses, Some reg) \<Rightarrow> (calls, pauses, Some reg)))"

section \<open>Waiting\<close>

lemma wait_ready_from_ok:
  "attempt + left = Suc n \<Longrightarrow> 0 < left \<Longrightarrow>
   wait_ready_from health n attempt left = Inr () \<longleftrightarrow> (\<exists>i. attempt \<le> i \<and> i \<le> n \<and> health_ok (health i))"
proof (induction left arbitrary: attempt)
  case (Suc left)
  show ?case
  proof (cases "health_ok (health attempt) \<or> attempt = n")
    case True
    then show ?thesis using Suc.prems by auto
  next
    case False
    then have "wait_ready_from health n (Suc attempt) left = Inr () \<longleftrightarrow>
        (\<exists>i. Suc attempt \<le> i \<and> i \<le> n \<and> health_ok (health i))"
      using Suc.prems by (intro Suc.IH) auto
    moreover have "(\<exists>i. attempt \<le> i \<and> i \<le> n \<and> health_ok (health i)) \<longleftrightarrow>
        (\<exists>i. Suc attempt \<le> i \<and> i \<le> n \<and> health_ok (health i))"
      using False by (metis Suc_leD Suc_leI le_neq_implies_less)
    ultimately show ?thesis using False by simp
  qed
qed simp

text \<open>
  Waiting for the sidecar succeeds exactly when one of the permitted health checks answers with a
  success status (or no check was asked for); otherwise it fails, after the last permitted attempt.
\<close>

theorem wait_ready_spec:
  "(wait_ready health n = Inr () \<longleftrightarrow> n = 0 \<or> (\<exists>i. 1 \<le> i \<and> i \<le> n \<and> health_ok (health i))) \<and>
   (wait_ready health n = Inr () \<or> wait_ready health n = Inl (NotReady n))"
proof -
  have "wait_ready_from health n a l = Inr () \<or> wait_ready_from health n a l = Inl (NotReady n)" for a l
    by (induction l arbitrary: a) auto
  moreover have "wait_ready health n = Inr () \<longleftrightarrow> n = 0 \<or> (\<exists>i. 1 \<le> i \<and> i \<le> n \<and> health_ok (health i))"
    using wait_ready_from_ok [of 1 n n health] by (cases "n = 0") (auto simp: wait_ready_def)
  ultimately show ?thesis by (auto simp: wait_ready_def)
qed

section \<open>The retry loop\<close>

definition registers :: "(string \<Rightarrow> register_enclave_resp option) \<Rightarrow> sidecar_client \<Rightarrow> http_result \<Rightarrow> string \<Rightarrow> registered_enclave option" where
  "registers from_json c answer att =
     (case snd (register_enclave from_json c answer att) of Inl _ \<Rightarrow> None | Inr reg \<Rightarrow> Some reg)"

lemma registration_from_step:
  "snd (registration_from from_json c answers att attempt backoff (Suc left)) =
     (case registers from_json c (answers attempt) att of
        Some reg \<Rightarrow> ([], Some reg)
      | None \<Rightarrow> if attempt = MAX_ATTEMPTS then ([], None)
          else (backoff # fst (snd (registration_from from_json c answers att (Suc attempt) (min (backoff * 2) 60) left)),
                snd (snd (registration_from from_json c answers att (Suc attempt) (min (backoff * 2) 60) left))))"
  by (auto simp: registers_def split: prod.splits sum.splits)

text \<open>
  Once the sidecar is up, registration tries at most five times. The cell receives the result of
  the first successful attempt and the task stops there; after five failures the task gives up and
  leaves the cell as it was, so the pauses taken are a prefix of 2, 4, 8, 16 seconds.
\<close>

theorem spawn_registration_spec:
  assumes "wait_ready health 60 = Inr ()"
  shows "(\<forall>i. 1 \<le> i \<and> i \<le> 5 \<and> registers fj c (answers i) att = Some reg \<and>
              (\<forall>j. 1 \<le> j \<and> j < i \<longrightarrow> registers fj c (answers j) att = None) \<longrightarrow>
            snd (spawn_registration fj c health answers att state) = (take (i - 1) [2, 4, 8, 16], Some reg)) \<and>
         ((\<forall>i. 1 \<le> i \<and> i \<le> 5 \<longrightarrow> registers fj c (answers i) att = None) \<longrightarrow>
            snd (spawn_registration fj c health answers att state) = ([2, 4, 8, 16], state))"
proof -
  let ?r = "snd (registration_from fj c answers att 1 2 MAX_ATTEMPTS)"
  have five: "MAX_ATTEMPTS = Suc (Suc (Suc (Suc (Suc 0))))" by (simp add: MAX_ATTEMPTS_def)
  have sp: "snd (spawn_registration fj c health answers att state) =
      (fst ?r, case snd ?r of None \<Rightarrow> state | Some reg \<Rightarrow> Some reg)"
    using assms by (auto simp: spawn_registration_def split: prod.splits option.splits)
  have r: "?r = (case registers fj c (answers 1) att of Some r \<Rightarrow> ([], Some r) | None \<Rightarrow>
      (case registers fj c (answers 2) att of Some r \<Rightarrow> ([2], Some r) | None \<Rightarrow>
      (case registers fj c (answers 3) att of Some r \<Rightarrow> ([2, 4], Some r) | None \<Rightarrow>
      (case registers fj c (answers 4) att of Some r \<Rightarrow> ([2, 4, 8], Some r) | None \<Rightarrow>
      (case registers fj c (answers 5) att of Some r \<Rightarrow> ([2, 4, 8, 16], Some r) | None \<Rightarrow>
        ([2, 4, 8, 16], None))))))"
    unfolding five registration_from_step by (simp add: five numeral_eq_Suc split: option.splits)
  have first: "fst ?r = take (i - 1) [2, 4, 8, 16] \<and> snd ?r = Some reg"
    if i: "1 \<le> i" "i \<le> 5" "registers fj c (answers i) att = Some reg"
      and none: "\<And>j. 1 \<le> j \<Longrightarrow> j < i \<Longrightarrow> registers fj c (answers j) att = None" for i
  proof -
    consider "i = 1" | "i = 2" | "i = 3" | "i = 4" | "i = 5" using i(1,2) by linarith
    then show ?thesis
      by cases (use i(3) none [of 1] none [of 2] none [of 3] none [of 4] in \<open>simp_all add: r [simplified]\<close>)
  qed
  have last: "?r = ([2, 4, 8, 16], None)" if "\<And>i. 1 \<le> i \<Longrightarrow> i \<le> 5 \<Longrightarrow> registers fj c (answers i) att = None"
    using that [of 1] that [of 2] that [of 3] that [of 4] that [of 5] by (simp add: r [simplified])
  show ?thesis
    unfolding sp using first last by (intro conjI allI impI) auto
qed

definition sample_client :: sidecar_client where
  "sample_client = \<lparr>sc_base_url = default_sidecar_url, sc_secret = ''s3cret''\<rparr>"

definition sample_register_json :: "string \<Rightarrow> register_enclave_resp option" where
  "sample_register_json body = Some \<lparr>rer_tx_digest = body, rer_enclave_object_id = Some ''0xe''\<rparr>"

definition sample_answers :: "nat \<Rightarrow> http_result" where
  "sample_answers i = (if i < 3 then Response 503 None else Response 200 (Some ''tx''))"

lemma spawn_registration_spec_witness:
  "snd (spawn_registration sample_register_json sample_client sample_answers sample_answers ''doc'' None) =
     ([2, 4], Some \<lparr>re_tx_digest = ''tx'', re_enclave_object_id = ''0xe''\<rparr>)"
proof -
  let ?reg = "\<lparr>re_tx_digest = ''tx'', re_enclave_object_id = ''0xe''\<rparr>"
  have ready: "wait_ready sample_answers 60 = Inr ()"
    using wait_ready_from_ok [of 1 60 60 sample_answers]
    by (auto simp: wait_ready_def sample_answers_def health_ok_def is_success_def intro!: exI [of _ 3])
  have reg: "registers sample_register_json sample_client (sample_answers 3) ''doc'' = Some ?reg"
    "j < 3 \<Longrightarrow> registers sample_register_json sample_client (sample_answers j) ''doc'' = None" for j
    by (simp_all add: registers_def register_enclave_def sample_answers_def is_success_def body_text_def
        sample_register_json_def missing_id_def Let_def)
  have "snd (spawn_registration sample_register_json sample_client sample_answers sample_answers ''doc'' None) =
      (take (3 - 1) [2, 4, 8, 16], Some ?reg)"
    by (rule spawn_registration_spec [OF ready, THEN conjunct1, rule_format]) (use reg in simp)
  then show ?thesis by simp
qed

end
