(* ===== verification/App_State.thy ===== *)
theory App_State
  imports Inference_Api Peer_Registry Receipts Sidecar
begin

text \<open>
  The shared application state (\<^verbatim>\<open>src/coordinator/src/app/state.rs\<close>) and the read-only endpoints over it:
  \<^verbatim>\<open>/v1/models\<close>, \<^verbatim>\<open>/v1/nodes\<close>, \<^verbatim>\<open>/v1/proofs\<close>, \<^verbatim>\<open>/enclave_health\<close> and
  \<^verbatim>\<open>/get_attestation\<close> (\<^verbatim>\<open>src/coordinator/src/api\<close>), with the attestation document of
  \<^verbatim>\<open>src/nautilus-enclave/src/nsm.rs\<close>. The mesh handle is the one of the inference handler and is not
  part of this record.
\<close>

section \<open>State\<close>

record app_state =
  as_enclave_key :: enclave_key_pair
  as_peer_registry :: peer_registry
  as_receipt_archive :: archive
  as_on_chain :: "registered_enclave option"
  as_pg_pool :: "db option"
  as_started_at_ms :: u64
  as_tls_cert_fingerprint :: "string option"

definition DEFAULT_PEER_TTL :: nat where
  "DEFAULT_PEER_TTL = 600 * 1000"

definition with_full_archive_and_chain ::
  "u64 \<Rightarrow> enclave_key_pair \<Rightarrow> peer_registry \<Rightarrow> archive \<Rightarrow> registered_enclave option \<Rightarrow> app_state" where
  "with_full_archive_and_chain now_ms key reg arch on_chain =
     \<lparr>as_enclave_key = key, as_peer_registry = reg, as_receipt_archive = arch, as_on_chain = on_chain,
      as_pg_pool = None, as_started_at_ms = now_ms, as_tls_cert_fingerprint = None\<rparr>"

definition with_full_archive :: "u64 \<Rightarrow> enclave_key_pair \<Rightarrow> peer_registry \<Rightarrow> archive \<Rightarrow> app_state" where
  "with_full_archive now_ms key reg arch = with_full_archive_and_chain now_ms key reg arch None"

definition with_full :: "u64 \<Rightarrow> enclave_key_pair \<Rightarrow> peer_registry \<Rightarrow> app_state" where
  "with_full now_ms key reg = with_full_archive now_ms key reg (MemArchive Map.empty)"

definition with_mesh_and_registry :: "enclave_prims \<Rightarrow> u64 \<Rightarrow> bytes \<Rightarrow> peer_registry \<Rightarrow> app_state" where
  "with_mesh_and_registry P now_ms seed reg = with_full now_ms (key_pair_generate P seed) reg"

definition with_mesh :: "enclave_prims \<Rightarrow> u64 \<Rightarrow> bytes \<Rightarrow> app_state" where
  "with_mesh P now_ms seed = with_full now_ms (key_pair_generate P seed) (registry_new DEFAULT_PEER_TTL)"

definition app_state_new :: "enclave_prims \<Rightarrow> u64 \<Rightarrow> bytes \<Rightarrow> app_state" where
  "app_state_new P now_ms seed = with_full now_ms (key_pair_generate P seed) (registry_new DEFAULT_PEER_TTL)"

definition set_pg_pool :: "db \<Rightarrow> app_state \<Rightarrow> app_state" where
  "set_pg_pool pool st = st\<lparr>as_pg_pool := Some pool\<rparr>"

definition set_tls_cert_fingerprint :: "string \<Rightarrow> app_state \<Rightarrow> app_state" where
  "set_tls_cert_fingerprint fp st = st\<lparr>as_tls_cert_fingerprint := Some fp\<rparr>"

definition uptime_ms :: "u64 \<Rightarrow> app_state \<Rightarrow> u64" where
  "uptime_ms now_ms st = saturating_sub now_ms (as_started_at_ms st)"

text \<open>The cached reputation of a peer (\<^verbatim>\<open>src/coordinator/src/reputation/cache.rs\<close>), which no code fills or reads.\<close>

record reputation_entry =
  re_merkle_root :: bytes
  re_score :: f32
  re_success_rate :: f32
  re_avg_latency_ms :: u32
  re_verified_proofs :: u64
  re_seen_at_ms :: u64

section \<open>Models\<close>

record model_pricing =
  mp_input_per_1m_tokens_nanox :: u64
  mp_output_per_1m_tokens_nanox :: u64

record model_object =
  mo_id :: string
  mo_object :: string
  mo_owned_by :: string
  mo_nodes_available :: nat
  mo_pricing :: model_pricing

definition baseline_pricing :: "string \<Rightarrow> model_pricing" where
  "baseline_pricing model_id =
     (if str_contains model_id ''72b'' \<or> str_contains model_id ''72B''
      then \<lparr>mp_input_per_1m_tokens_nanox = 50000, mp_output_per_1m_tokens_nanox = 150000\<rparr>
      else if str_contains model_id ''32b'' \<or> str_contains model_id ''32B''
      then \<lparr>mp_input_per_1m_tokens_nanox = 20000, mp_output_per_1m_tokens_nanox = 60000\<rparr>
      else \<lparr>mp_input_per_1m_tokens_nanox = 5000, mp_output_per_1m_tokens_nanox = 15000\<rparr>)"

text \<open>\<^verbatim>\<open>*model_counts.entry(model).or_insert(0) += 1\<close> for every model of every peer.\<close>

definition bump :: "string \<Rightarrow> (string \<times> nat) list \<Rightarrow> (string \<times> nat) list" where
  "bump model counts =
     AList.update model (Suc (case map_of counts model of None \<Rightarrow> 0 | Some n \<Rightarrow> n)) counts"

definition model_counts :: "(peer_id \<times> peer_entry) list \<Rightarrow> (string \<times> nat) list" where
  "model_counts entries =
     foldl (\<lambda>counts (_, entry). foldl (\<lambda>cs model. bump model cs) counts (caps_models (pe_capabilities entry))) [] entries"

text \<open>The order of \<^verbatim>\<open>str\<close>: lexicographic on the bytes; sorting by it is stable.\<close>

fun str_less :: "string \<Rightarrow> string \<Rightarrow> bool" where
  "str_less _ [] \<longleftrightarrow> False"
| "str_less [] (d # t) \<longleftrightarrow> True"
| "str_less (c # s) (d # t) \<longleftrightarrow> of_char c < (of_char d :: nat) \<or> c = d \<and> str_less s t"

fun insert_model :: "model_object \<Rightarrow> model_object list \<Rightarrow> model_object list" where
  "insert_model m [] = [m]"
| "insert_model m (n # ns) = (if str_less (mo_id n) (mo_id m) then n # insert_model m ns else m # n # ns)"

definition sort_models :: "model_object list \<Rightarrow> model_object list" where
  "sort_models ms = foldr insert_model ms []"

record model_list =
  ml_object :: string
  ml_data :: "model_object list"

definition list_models :: "app_state \<Rightarrow> model_list" where
  "list_models st =
     \<lparr>ml_object = ''list'', ml_data = sort_models (map (\<lambda>(i, count). \<lparr>mo_id = i, mo_object = ''model'', mo_owned_by = ''pinaivu'',
        mo_nodes_available = count, mo_pricing = baseline_pricing i\<rparr>)
       (model_counts (snapshot (as_peer_registry st))))\<rparr>"

section \<open>Nodes, proofs\<close>

record node_snapshot =
  ns_peer_id :: string
  ns_models :: "string list"
  ns_max_concurrent_jobs :: u32
  ns_multiaddrs :: "string list"
  ns_last_seen_ms :: u64

definition list_nodes :: "(peer_id \<Rightarrow> string) \<Rightarrow> (multiaddr \<Rightarrow> string) \<Rightarrow> app_state \<Rightarrow> node_snapshot list" where
  "list_nodes peer_to_str addr_to_str st =
     map (\<lambda>(peer, entry). \<lparr>ns_peer_id = peer_to_str peer, ns_models = caps_models (pe_capabilities entry),
        ns_max_concurrent_jobs = caps_max_concurrent_jobs (pe_capabilities entry),
        ns_multiaddrs = map addr_to_str (pe_multiaddrs entry), ns_last_seen_ms = pe_last_seen_ms entry\<rparr>)
       (snapshot (as_peer_registry st))"

definition get_proof :: "receipt_codec \<Rightarrow> stmt_env \<Rightarrow> uuid \<Rightarrow> app_state \<Rightarrow> app_error + routing_receipt" where
  "get_proof C env request_id st =
     (case archive_get C env request_id (as_receipt_archive st) of
        Inl e \<Rightarrow> Inl (Internal (''archive lookup: '' @ e))
      | Inr None \<Rightarrow> Inl NotFound
      | Inr (Some receipt) \<Rightarrow> Inr receipt)"

section \<open>Health and attestation\<close>

definition health :: string where
  "health = ''ok''"

record enclave_health_response =
  eh_public_key_hex :: string
  eh_x25519_pubkey_hex :: string
  eh_peer_id :: "string option"
  eh_uptime_ms :: u64
  eh_enclave_object_id :: "string option"
  eh_sui_tx_digest :: "string option"
  eh_tls_cert_fingerprint :: "string option"

definition enclave_health ::
  "enclave_prims \<Rightarrow> (bytes \<Rightarrow> string) \<Rightarrow> (bytes \<Rightarrow> string option) \<Rightarrow> u64 \<Rightarrow> app_state \<Rightarrow> enclave_health_response" where
  "enclave_health P hex_encode peer_id_from_ed25519 now_ms st =
     (let pubkey = public_key_bytes P (as_enclave_key st)
      in \<lparr>eh_public_key_hex = hex_encode pubkey,
          eh_x25519_pubkey_hex = hex_encode (x25519_public_key P (as_enclave_key st)),
          eh_peer_id = peer_id_from_ed25519 pubkey,
          eh_uptime_ms = uptime_ms now_ms st,
          eh_enclave_object_id = map_option re_enclave_object_id (as_on_chain st),
          eh_sui_tx_digest = map_option re_tx_digest (as_on_chain st),
          eh_tls_cert_fingerprint = as_tls_cert_fingerprint st\<rparr>)"

record attestation_doc =
  ad_pcr0 :: string
  ad_pcr1 :: string
  ad_pcr2 :: string
  ad_public_key :: string
  ad_timestamp_ms :: u64
  ad_raw_cbor_hex :: string

text \<open>
  The enclave build reads the security module: the descriptor of the device, the response to the
  attestation request (given the key and the user data), and the responses to the three PCR requests.
  A response is the expected one, an error, or of another kind, these two with their debug text.
\<close>

datatype nsm_response = NsmData bytes | NsmError string | NsmOther string

record nsm_device =
  nsm_fd :: int
  nsm_attest :: "bytes \<Rightarrow> bytes option \<Rightarrow> nsm_response"
  nsm_pcr :: "nat \<Rightarrow> nsm_response"

definition read_pcr :: "nsm_device \<Rightarrow> (bytes \<Rightarrow> string) \<Rightarrow> nat \<Rightarrow> string + string" where
  "read_pcr D hex_encode index =
     (case nsm_pcr D index of
        NsmData data \<Rightarrow> Inr (hex_encode data)
      | NsmError e \<Rightarrow> Inl (''read PCR'' @ dec index @ '' rejected: '' @ e)
      | NsmOther other \<Rightarrow> Inl (''unexpected PCR'' @ dec index @ '' response: '' @ other))"

definition get_attestation_aws ::
  "nsm_device \<Rightarrow> (bytes \<Rightarrow> string) \<Rightarrow> u64 \<Rightarrow> bytes \<Rightarrow> bytes \<Rightarrow> string + attestation_doc" where
  "get_attestation_aws D hex_encode timestamp_ms public_key nonce =
     (if nsm_fd D < 0
      then Inl (''NSM device open failed (fd='' @ dec_int (nsm_fd D) @ ''). Not running inside a Nitro Enclave?'')
      else case nsm_attest D public_key (if nonce = [] then None else Some nonce) of
             NsmError e \<Rightarrow> Inl (''NSM attestation rejected: '' @ e)
           | NsmOther other \<Rightarrow> Inl (''unexpected NSM response: '' @ other)
           | NsmData document \<Rightarrow>
               (case read_pcr D hex_encode 0 of Inl e \<Rightarrow> Inl e | Inr pcr0 \<Rightarrow>
               (case read_pcr D hex_encode 1 of Inl e \<Rightarrow> Inl e | Inr pcr1 \<Rightarrow>
               (case read_pcr D hex_encode 2 of Inl e \<Rightarrow> Inl e | Inr pcr2 \<Rightarrow>
                  Inr \<lparr>ad_pcr0 = pcr0, ad_pcr1 = pcr1, ad_pcr2 = pcr2,
                       ad_public_key = hex_encode public_key, ad_timestamp_ms = timestamp_ms,
                       ad_raw_cbor_hex = hex_encode document\<rparr>))))"

definition mk_pcr :: "enclave_prims \<Rightarrow> (bytes \<Rightarrow> string) \<Rightarrow> bytes \<Rightarrow> bytes \<Rightarrow> string \<Rightarrow> string" where
  "mk_pcr P hex_encode public_key nonce tag =
     (let digest = np_sha256 P (map (\<lambda>c. of_nat (of_char c)) tag @ public_key @ nonce)
      in hex_encode (digest @ replicate 16 0))"

definition get_attestation_mock ::
  "enclave_prims \<Rightarrow> (bytes \<Rightarrow> string) \<Rightarrow> u64 \<Rightarrow> bytes \<Rightarrow> bytes \<Rightarrow> string + attestation_doc" where
  "get_attestation_mock P hex_encode timestamp_ms public_key nonce =
     Inr \<lparr>ad_pcr0 = mk_pcr P hex_encode public_key nonce ''pcr0'',
          ad_pcr1 = mk_pcr P hex_encode public_key nonce ''pcr1'',
          ad_pcr2 = mk_pcr P hex_encode public_key nonce ''pcr2'',
          ad_public_key = hex_encode public_key, ad_timestamp_ms = timestamp_ms, ad_raw_cbor_hex = []\<rparr>"

definition get_attestation_handler ::
  "enclave_prims \<Rightarrow> (bytes \<Rightarrow> bytes \<Rightarrow> string + attestation_doc) \<Rightarrow> app_state \<Rightarrow> app_error + attestation_doc" where
  "get_attestation_handler P attest st =
     (case attest (public_key_bytes P (as_enclave_key st)) [] of
        Inl e \<Rightarrow> Inl (Internal (''attestation: '' @ e))
      | Inr doc \<Rightarrow> Inr doc)"

section \<open>The model list\<close>

lemma bump_distinct: "distinct (map fst cs) \<Longrightarrow> distinct (map fst (bump m cs))"
  by (simp add: bump_def distinct_update)

definition count_in :: "(string \<times> nat) list \<Rightarrow> string \<Rightarrow> nat" where
  "count_in cs m = (case map_of cs m of None \<Rightarrow> 0 | Some n \<Rightarrow> n)"

lemma count_in_bump: "count_in (bump m cs) k = count_in cs k + (if k = m then 1 else 0)"
  by (simp add: count_in_def bump_def update_conv')

lemma bump_keys: "fst ` set (bump m cs) = insert m (fst ` set cs)"
proof -
  have "set (map fst (bump m cs)) = insert m (set (map fst cs))"
    by (auto simp: bump_def update_keys)
  then show ?thesis by simp
qed

text \<open>The models advertised, with repetitions.\<close>

definition advertised :: "(peer_id \<times> peer_entry) list \<Rightarrow> string list" where
  "advertised entries = concat (map (\<lambda>(_, e). caps_models (pe_capabilities e)) entries)"

lemma model_counts_foldl: "model_counts entries = foldl (\<lambda>cs m. bump m cs) [] (advertised entries)"
proof -
  have "foldl (\<lambda>counts (_, entry). foldl (\<lambda>cs model. bump model cs) counts (caps_models (pe_capabilities entry))) acc entries =
      foldl (\<lambda>cs m. bump m cs) acc (advertised entries)" for acc
    by (induction entries arbitrary: acc) (auto simp: advertised_def)
  then show ?thesis by (simp add: model_counts_def)
qed

lemma foldl_bump:
  "distinct (map fst acc) \<Longrightarrow> distinct (map fst (foldl (\<lambda>cs m. bump m cs) acc ms))"
  "count_in (foldl (\<lambda>cs m. bump m cs) acc ms) k = count_in acc k + count_list ms k"
  "fst ` set (foldl (\<lambda>cs m. bump m cs) acc ms) = fst ` set acc \<union> set ms"
  by (induction ms arbitrary: acc) (auto simp: bump_distinct count_in_bump bump_keys)

lemma str_less_irrefl [simp]: "\<not> str_less s s"
  by (induction s) auto

lemma str_less_linear: "a \<noteq> b \<Longrightarrow> \<not> str_less a b \<Longrightarrow> str_less b a"
proof (induction a b rule: str_less.induct)
  case (1 a)
  then show ?case by (cases a) auto
next
  case (3 c s d t)
  have "of_char c = (of_char d :: nat) \<Longrightarrow> c = d" by simp
  with 3 show ?case by (auto simp: not_less le_less)
qed auto

lemma str_less_trans: "str_less a b \<Longrightarrow> str_less b c \<Longrightarrow> str_less a c"
proof (induction a b arbitrary: c rule: str_less.induct)
  case (2 d t)
  then show ?case by (cases c) auto
next
  case (3 x s y t)
  then show ?case by (cases c) (auto intro: less_trans)
qed auto

lemma set_insert_model [simp]: "set (insert_model m ns) = insert m (set ns)"
  by (induction ns) auto

lemma insert_model_sorted:
  assumes "sorted_wrt (\<lambda>a b. str_less (mo_id a) (mo_id b)) ns" "mo_id m \<notin> mo_id ` set ns"
  shows "sorted_wrt (\<lambda>a b. str_less (mo_id a) (mo_id b)) (insert_model m ns)"
  using assms
proof (induction ns)
  case (Cons n ns)
  show ?case
  proof (cases "str_less (mo_id n) (mo_id m)")
    case True
    then show ?thesis using Cons by auto
  next
    case False
    then have "str_less (mo_id m) (mo_id n)" using Cons.prems(2) by (intro str_less_linear) auto
    then show ?thesis using False Cons.prems(1) by (auto intro: str_less_trans)
  qed
qed simp

lemma set_sort_models [simp]: "set (sort_models ms) = set ms"
  by (induction ms) (simp_all add: sort_models_def)

lemma sort_models_sorted:
  "distinct (map mo_id ms) \<Longrightarrow> sorted_wrt (\<lambda>a b. str_less (mo_id a) (mo_id b)) (sort_models ms)"
proof (induction ms)
  case (Cons m ms)
  have "set (foldr insert_model ms []) = set ms" using set_sort_models [of ms] by (simp add: sort_models_def)
  with Cons show ?case by (auto simp: sort_models_def intro!: insert_model_sorted)
qed (simp add: sort_models_def)

text \<open>
  The model list names every model some live peer advertises, once, in strictly increasing order of its
  name, with its price tier and the number of times the model occurs in the peers' announcements.
\<close>

theorem list_models_spec:
  "sorted_wrt (\<lambda>a b. str_less (mo_id a) (mo_id b)) (ml_data (list_models st)) \<and>
   mo_id ` set (ml_data (list_models st)) = set (advertised (snapshot (as_peer_registry st))) \<and>
   list_all (\<lambda>m. mo_nodes_available m = count_list (advertised (snapshot (as_peer_registry st))) (mo_id m) \<and>
     mo_pricing m = baseline_pricing (mo_id m)) (ml_data (list_models st))"
proof -
  let ?ms = "advertised (snapshot (as_peer_registry st))"
  define cs where "cs = model_counts (snapshot (as_peer_registry st))"
  define obj where "obj = (\<lambda>(i, count). \<lparr>mo_id = i, mo_object = ''model'', mo_owned_by = ''pinaivu'',
        mo_nodes_available = count, mo_pricing = baseline_pricing i\<rparr>)"
  have l: "ml_data (list_models st) = sort_models (map obj cs)"
    by (simp add: list_models_def cs_def obj_def)
  have ids: "map mo_id (map obj cs) = map fst cs" by (simp add: obj_def case_prod_beta)
  have cs: "distinct (map fst cs)" "fst ` set cs = set ?ms" "count_in cs k = count_list ?ms k" for k
    using foldl_bump [of "[]" ?ms] by (simp_all add: cs_def model_counts_foldl count_in_def)
  have val: "count_in cs i = n" if "(i, n) \<in> set cs" for i n
    using that cs(1) by (simp add: count_in_def)
  have "sorted_wrt (\<lambda>a b. str_less (mo_id a) (mo_id b)) (ml_data (list_models st))"
    unfolding l by (rule sort_models_sorted) (simp only: ids cs(1))
  moreover have "mo_id ` set (ml_data (list_models st)) = set ?ms"
  proof -
    have "mo_id ` set (ml_data (list_models st)) = set (map mo_id (map obj cs))" by (simp add: l image_image)
    then show ?thesis unfolding ids using cs(2) by simp
  qed
  moreover have "list_all (\<lambda>m. mo_nodes_available m = count_list ?ms (mo_id m) \<and>
      mo_pricing m = baseline_pricing (mo_id m)) (ml_data (list_models st))"
    using val cs(3) by (auto simp: l list_all_iff obj_def)
  ultimately show ?thesis by simp
qed

end
