(* ===== verification/Prompt_Encryption.thy ===== *)
theory Prompt_Encryption
  imports App_State
begin

text \<open>
  The encrypted mode of a chat request from both ends: \<open>client_encrypt\<close> is the client's side as the
  repository gives it (\<^verbatim>\<open>client_encrypt\<close> of \<^verbatim>\<open>src/coordinator/tests/encryption_smoke.rs\<close>, the steps of the module
  comment of \<^verbatim>\<open>src/coordinator/src/api/inference.rs\<close>), written without the enclave's definitions; the
  enclave's side is the handler. AES-GCM, hex, base64 and serde are parameters.
\<close>

section \<open>The client\<close>

record client_codec =
  cx_hex_decode :: "string \<Rightarrow> bytes option"
  cx_hex_encode :: "bytes \<Rightarrow> string"
  cx_base64_encode :: "bytes \<Rightarrow> string"
  cx_aes_encrypt :: "bytes \<Rightarrow> bytes \<Rightarrow> bytes \<Rightarrow> bytes"
  cx_to_vec :: "chat_message list \<Rightarrow> bytes"

text \<open>
  The ephemeral secret and the nonce are drawn by the caller; \<open>None\<close>: the advertised key does not parse,
  where the client panics. The result is the client's public key, the ciphertext and the nonce, as posted.
\<close>

definition client_encrypt ::
  "enclave_prims \<Rightarrow> client_codec \<Rightarrow> bytes \<Rightarrow> bytes \<Rightarrow> string \<Rightarrow> chat_message list \<Rightarrow> (string \<times> string \<times> string) option" where
  "client_encrypt P X client_priv nonce enclave_x25519_hex messages =
     (case cx_hex_decode X enclave_x25519_hex of
        None \<Rightarrow> None
      | Some enclave_pub \<Rightarrow>
          if length enclave_pub \<noteq> 32 then None
          else
            (let client_pub = np_x25519_public P client_priv;
                 shared = np_x25519_dh P client_priv enclave_pub;
                 aes_key = np_sha256 P (map (\<lambda>c. of_nat (of_char c)) ''pinaivu-aes-key-v1'' @ shared);
                 ciphertext = cx_aes_encrypt X aes_key nonce (cx_to_vec X messages)
             in Some (cx_hex_encode X client_pub, cx_base64_encode X ciphertext, cx_base64_encode X nonce)))"

section \<open>What is assumed of the libraries\<close>

text \<open>
  hex and base64 decode what they encoded, AES-256-GCM decrypts what it encrypted under a 32-byte key and a
  12-byte nonce, SHA-256 digests and X25519 public keys have 32 bytes, and both sides of X25519 agree.
\<close>

definition prompt_libraries :: "api_codec \<Rightarrow> client_codec \<Rightarrow> bool" where
  "prompt_libraries P X \<longleftrightarrow>
     x25519_agrees (ap_prims P) \<and>
     (\<forall>s. length (np_x25519_public (ap_prims P) s) = 32) \<and> (\<forall>b. length (np_sha256 (ap_prims P) b) = 32) \<and>
     (\<forall>b. ap_hex_decode P (cx_hex_encode X b) = Some b \<and> cx_hex_decode X (cx_hex_encode X b) = Some b) \<and>
     (\<forall>b. ap_base64_decode P (cx_base64_encode X b) = Some b) \<and>
     (\<forall>k n m. length k = 32 \<and> length n = 12 \<longrightarrow> ap_aes_decrypt P k n (cx_aes_encrypt X k n m) = Some m)"

section \<open>Both ends together\<close>

definition encrypted_request :: "chat_completion_request \<Rightarrow> string \<times> string \<times> string \<Rightarrow> chat_completion_request" where
  "encrypted_request req posted =
     req\<lparr>cq_messages := [], cq_client_x25519_pubkey_hex := Some (fst posted),
         cq_messages_encrypted := Some (fst (snd posted)), cq_messages_nonce := Some (snd (snd posted))\<rparr>"

definition plain_request :: "chat_completion_request \<Rightarrow> chat_message list \<Rightarrow> chat_completion_request" where
  "plain_request req messages =
     req\<lparr>cq_messages := messages, cq_client_x25519_pubkey_hex := None, cq_messages_encrypted := None, cq_messages_nonce := None\<rparr>"

text \<open>The fields that do not depend on the mode.\<close>

lemma request_frame:
  "cq_model (encrypted_request req posted) = cq_model req" "cq_model (plain_request req messages) = cq_model req"
  "cq_client_pubkey_hex (encrypted_request req posted) = cq_client_pubkey_hex req"
  "cq_client_pubkey_hex (plain_request req messages) = cq_client_pubkey_hex req"
  "cq_max_price_nanox (encrypted_request req posted) = cq_max_price_nanox req"
  "cq_max_price_nanox (plain_request req messages) = cq_max_price_nanox req"
  "cq_privacy (encrypted_request req posted) = cq_privacy req" "cq_privacy (plain_request req messages) = cq_privacy req"
  "cq_session_id (encrypted_request req posted) = cq_session_id req" "cq_session_id (plain_request req messages) = cq_session_id req"
  "cq_session_key (encrypted_request req posted) = cq_session_key req" "cq_session_key (plain_request req messages) = cq_session_key req"
  "cq_memwal_context (encrypted_request req posted) = cq_memwal_context req"
  "cq_memwal_context (plain_request req messages) = cq_memwal_context req"
  by (simp_all add: encrypted_request_def plain_request_def)

lemma decrypt_client_prompt:
  assumes "prompt_libraries P X" and "length nonce = 12"
    and "ap_messages_from_slice P (cx_to_vec X messages) = Some messages"
    and "client_encrypt (ap_prims P) X secret nonce (cx_hex_encode X (x25519_public_key (ap_prims P) (ap_key P))) messages = Some posted"
  shows "decrypt_messages_if_encrypted P (encrypted_request req posted) = Inr messages"
proof -
  let ?p = "ap_prims P"
  have dh: "np_x25519_dh ?p secret (x25519_public_key ?p (ap_key P)) = ecdh ?p (ap_key P) (np_x25519_public ?p secret)"
    using assms(1) unfolding prompt_libraries_def x25519_agrees_def x25519_public_key_def ecdh_def by blast
  have key: "np_sha256 ?p (map (\<lambda>c. of_nat (of_char c)) ''pinaivu-aes-key-v1'' @ s) = derive_aes_key ?p s" for s
    by (simp add: derive_aes_key_def aes_key_label_def)
  have pub: "length (x25519_public_key ?p (ap_key P)) = 32"
    using assms(1) by (simp add: prompt_libraries_def x25519_public_key_def)
  let ?key = "derive_aes_key ?p (ecdh ?p (ap_key P) (np_x25519_public ?p secret))"
  have "posted = (cx_hex_encode X (np_x25519_public ?p secret),
      cx_base64_encode X (cx_aes_encrypt X ?key nonce (cx_to_vec X messages)), cx_base64_encode X nonce)"
    using assms(1,4) pub unfolding client_encrypt_def Let_def key dh [symmetric] by (simp add: prompt_libraries_def)
  moreover have "length ?key = 32" using assms(1) by (simp add: prompt_libraries_def derive_aes_key_def)
  ultimately show ?thesis
    using assms(1-3) by (simp add: decrypt_messages_if_encrypted_def encrypted_request_def prompt_libraries_def Let_def)
qed

text \<open>
  C15: An encrypted prompt is served like the plain one. The client reads the X25519 key from the answer
  of \<^verbatim>\<open>/enclave_health\<close>, encrypts its messages as the repository's client does, with a key from SHA-256 over the documented
  label and the shared secret, and posts the three fields without the messages. Then, with the libraries as
  documented, the handler makes the same calls on the mesh with the same content, and returns the same
  result, as for the request with the messages in the clear.
\<close>

theorem encrypted_prompt_roundtrip:
  assumes "prompt_libraries P X" and "length nonce = 12"
    and "ap_messages_from_slice P (cx_to_vec X messages) = Some messages"
    and "h = enclave_health (ap_prims P) (cx_hex_encode X) peer_of_key now st"
    and "client_encrypt (ap_prims P) X secret nonce (eh_x25519_pubkey_hex h) messages = Some posted"
  shows "chat_completions (P\<lparr>ap_key := as_enclave_key st\<rparr>) ce (encrypted_request req posted) =
    chat_completions (P\<lparr>ap_key := as_enclave_key st\<rparr>) ce (plain_request req messages)"
proof -
  let ?P = "P\<lparr>ap_key := as_enclave_key st\<rparr>"
  have "eh_x25519_pubkey_hex h = cx_hex_encode X (x25519_public_key (ap_prims ?P) (ap_key ?P))"
    by (simp add: assms(4) enclave_health_def Let_def)
  then have "decrypt_messages_if_encrypted ?P (encrypted_request req posted) = Inr messages"
    using assms by (intro decrypt_client_prompt [where X = X and nonce = nonce and secret = secret])
      (simp_all add: prompt_libraries_def)
  note enc = this
  have plain: "decrypt_messages_if_encrypted ?P (plain_request req messages) = Inr messages"
    by (simp add: decrypt_messages_if_encrypted_def plain_request_def)
  have disp: "dispatch_to_winner ?P ce (encrypted_request req posted) = dispatch_to_winner ?P ce (plain_request req messages)"
    unfolding fun_eq_iff dispatch_to_winner_def token_for_def request_frame by simp
  show ?thesis unfolding chat_completions_def request_frame enc plain disp ..
qed

section \<open>A concrete cipher\<close>

text \<open>A key stream added to the message, with the nonce as the tag: another key or nonce gives another plaintext or none.\<close>

definition sample_encrypt :: "bytes \<Rightarrow> bytes \<Rightarrow> bytes \<Rightarrow> bytes" where
  "sample_encrypt k n m = n @ map (\<lambda>i. m ! i + k ! (i mod 32)) [0..<length m]"

definition sample_decrypt :: "bytes \<Rightarrow> bytes \<Rightarrow> bytes \<Rightarrow> bytes option" where
  "sample_decrypt k n c =
     (if take 12 c \<noteq> n then None
      else Some (map (\<lambda>i. drop 12 c ! i - k ! (i mod 32)) [0..<length (drop 12 c)]))"

lemma sample_decrypts: "length n = 12 \<Longrightarrow> sample_decrypt k n (sample_encrypt k n m) = Some m"
  by (auto simp: sample_decrypt_def sample_encrypt_def intro: nth_equalityI)

definition sample_plaintext :: bytes where
  "sample_plaintext = bytes_of_chars ''[system: be brief, user: hello]''"

definition secret_api :: api_codec where
  "secret_api = sample_api\<lparr>ap_aes_decrypt := sample_decrypt,
     ap_messages_from_slice := (\<lambda>b. if b = sample_plaintext then Some sample_messages else None)\<rparr>"

definition sample_client_codec :: client_codec where
  "sample_client_codec = \<lparr>cx_hex_decode = (\<lambda>s. Some (bytes_of_chars s)), cx_hex_encode = chars_of_bytes,
     cx_base64_encode = chars_of_bytes, cx_aes_encrypt = sample_encrypt,
     cx_to_vec = (\<lambda>ms. if ms = sample_messages then sample_plaintext else [])\<rparr>"

definition health_app :: app_state where
  "health_app = app_state_new sample_prims 0 [5]"

lemma sample_libraries: "prompt_libraries secret_api sample_client_codec"
  using sample_prims_agree
  by (simp add: prompt_libraries_def secret_api_def sample_client_codec_def sample_api_def sample_decrypts)
    (simp add: sample_prims_def)

lemma encrypted_prompt_roundtrip_witness:
  "\<exists>posted. client_encrypt sample_prims sample_client_codec [3] (replicate 12 7)
       (eh_x25519_pubkey_hex (enclave_health sample_prims chars_of_bytes (\<lambda>_. None) 0 health_app)) sample_messages = Some posted \<and>
     chat_completions (secret_api\<lparr>ap_key := as_enclave_key health_app\<rparr>) sample_chat_env (encrypted_request sample_chat_request posted) =
     chat_completions (secret_api\<lparr>ap_key := as_enclave_key health_app\<rparr>) sample_chat_env (plain_request sample_chat_request sample_messages)"
proof -
  let ?h = "enclave_health (ap_prims secret_api) (cx_hex_encode sample_client_codec) (\<lambda>_. None) 0 health_app"
  have eq: "?h = enclave_health sample_prims chars_of_bytes (\<lambda>_. None) 0 health_app" "ap_prims secret_api = sample_prims"
    by (simp_all add: secret_api_def sample_client_codec_def sample_api_def)
  obtain posted where f: "client_encrypt (ap_prims secret_api) sample_client_codec [3] (replicate 12 7) (eh_x25519_pubkey_hex ?h) sample_messages = Some posted"
    by (simp add: client_encrypt_def sample_client_codec_def enclave_health_def x25519_public_key_def secret_api_def sample_api_def
        sample_prims_def Let_def)
  show ?thesis
    using encrypted_prompt_roundtrip [OF sample_libraries _ _ refl f, of sample_chat_env sample_chat_request] f eq
    by (simp add: secret_api_def sample_client_codec_def)
qed

end
