(* ===== verification/Settlement.thy ===== *)
theory Settlement
  imports Proof_Of_Inference
begin

text \<open>
  The settlement adapters (\<^verbatim>\<open>src/coordinator/src/settlement/mod.rs\<close>, \<^verbatim>\<open>free.rs\<close>,
  \<^verbatim>\<open>receipt.rs\<close>): the trait \<^verbatim>\<open>SettlementAdapter\<close> as a locale and its two implementations,
  neither of which moves value.
\<close>

section \<open>Escrow\<close>

record escrow_params =
  ep_request_id :: uuid
  ep_amount_nanox :: nanox
  ep_client_address :: string
  ep_node_address :: string
  ep_token_id :: "string option"

record escrow_handle =
  eh_settlement_id :: string
  eh_request_id :: uuid
  eh_amount_nanox :: nanox
  eh_chain_tx_id :: "string option"
  eh_payload_json :: string

section \<open>Free\<close>

definition free_id :: string where
  "free_id = ''free''"

definition free_lock_funds :: "escrow_params \<Rightarrow> string + escrow_handle" where
  "free_lock_funds params =
     Inr \<lparr>eh_settlement_id = free_id, eh_request_id = ep_request_id params,
       eh_amount_nanox = ep_amount_nanox params, eh_chain_tx_id = None, eh_payload_json = ''{}''\<rparr>"

definition free_release_funds :: "escrow_handle \<Rightarrow> proof_of_inference \<Rightarrow> string + unit" where
  "free_release_funds handle proof = Inr ()"

definition free_refund_funds :: "escrow_handle \<Rightarrow> string + unit" where
  "free_refund_funds handle = Inr ()"

section \<open>Signed receipt\<close>

definition receipt_id :: string where
  "receipt_id = ''receipt''"

definition receipt_lock_funds :: "escrow_params \<Rightarrow> string + escrow_handle" where
  "receipt_lock_funds params =
     Inr \<lparr>eh_settlement_id = receipt_id, eh_request_id = ep_request_id params,
       eh_amount_nanox = ep_amount_nanox params, eh_chain_tx_id = None, eh_payload_json = ''{}''\<rparr>"

definition receipt_release_funds :: "escrow_handle \<Rightarrow> proof_of_inference \<Rightarrow> string + unit" where
  "receipt_release_funds handle proof = Inr ()"

definition receipt_refund_funds :: "escrow_handle \<Rightarrow> string + unit" where
  "receipt_refund_funds handle = Inr ()"

section \<open>The contract\<close>

text \<open>
  A handle names the adapter that issued it and the request and amount it was issued for, and a handle
  of the adapter's own can be released or refunded.
\<close>

locale settlement_adapter =
  fixes adapter_id :: string
    and lock_funds :: "escrow_params \<Rightarrow> string + escrow_handle"
    and release_funds :: "escrow_handle \<Rightarrow> proof_of_inference \<Rightarrow> string + unit"
    and refund_funds :: "escrow_handle \<Rightarrow> string + unit"
  assumes lock_handle: "lock_funds p = Inr h \<Longrightarrow>
      eh_settlement_id h = adapter_id \<and> eh_request_id h = ep_request_id p \<and> eh_amount_nanox h = ep_amount_nanox p"
    and refund_own: "eh_settlement_id h = adapter_id \<Longrightarrow> refund_funds h = Inr ()"
    and release_own: "eh_settlement_id h = adapter_id \<Longrightarrow> release_funds h proof = Inr ()"
begin

theorem locked_can_be_closed:
  assumes "lock_funds p = Inr h"
  shows "refund_funds h = Inr () \<and> release_funds h proof = Inr ()"
  using lock_handle [OF assms] refund_own release_own by blast

end

interpretation free: settlement_adapter free_id free_lock_funds free_release_funds free_refund_funds
  by unfold_locales (auto simp: free_lock_funds_def free_release_funds_def free_refund_funds_def)

interpretation signed_receipt: settlement_adapter receipt_id receipt_lock_funds receipt_release_funds receipt_refund_funds
  by unfold_locales (auto simp: receipt_lock_funds_def receipt_release_funds_def receipt_refund_funds_def)

end
