(* ===== verification/Jobs.thy ===== *)
theory Jobs
  imports Settlement Database
begin

text \<open>
  Inference-job tracking (\<^verbatim>\<open>src/coordinator/src/jobs/dispatch_job.rs\<close>, \<^verbatim>\<open>store.rs\<close>,
  \<^verbatim>\<open>worker.rs\<close>): the status row of a dispatched request, and the deadline watcher that refunds
  it. Scheduling the job for its deadline is apalis': the model returns what is handed to the queue.
\<close>

section \<open>Jobs and their status\<close>

datatype job_status = Dispatched | Acked | Completed | TimedOut | Refunded

fun job_status_as_str :: "job_status \<Rightarrow> string" where
  "job_status_as_str Dispatched = ''Dispatched''"
| "job_status_as_str Acked = ''Acked''"
| "job_status_as_str Completed = ''Completed''"
| "job_status_as_str TimedOut = ''TimedOut''"
| "job_status_as_str Refunded = ''Refunded''"

record dispatch_job =
  dj_request_id :: uuid
  dj_primary_peer_id :: node_peer_id
  dj_dispatched_at_ms :: u64
  dj_deadline_ms :: u64
  dj_status :: job_status
  dj_escrow_handle_json :: string

section \<open>The store\<close>

text \<open>The store of apalis is a handle on the pool, once its own tables could be set up.\<close>

definition pg_job_store_new :: "string option \<Rightarrow> db \<Rightarrow> string + db" where
  "pg_job_store_new setup_err pool = (case setup_err of Some e \<Rightarrow> Inl e | None \<Rightarrow> Inr pool)"

lemma pg_job_store_new_simps [simp]:
  "pg_job_store_new None pool = Inr pool" "pg_job_store_new (Some e) pool = Inl e"
  by (simp_all add: pg_job_store_new_def)

definition dispatch_row_of :: "dispatch_job \<Rightarrow> dispatch_row" where
  "dispatch_row_of job =
     \<lparr>dr_request_id = dj_request_id job, dr_primary_peer_id = peer_str (dj_primary_peer_id job),
      dr_dispatched_at_ms = dj_dispatched_at_ms job, dr_deadline_ms = dj_deadline_ms job,
      dr_status = job_status_as_str Dispatched, dr_escrow_handle_json = dj_escrow_handle_json job\<rparr>"

text \<open>
  The tracking row (\<^verbatim>\<open>ON CONFLICT (request_id) DO NOTHING\<close>), then the job scheduled at the
  deadline in unix seconds. \<open>sched\<close> is the queue's error, if any.
\<close>

definition job_push ::
  "stmt_env \<Rightarrow> string option \<Rightarrow> dispatch_job \<Rightarrow> db \<Rightarrow> (string + unit) \<times> (dispatch_job \<times> i64) option \<times> db" where
  "job_push env sched job d =
     (case se_err env of
        Some e \<Rightarrow> (Inl e, None, d)
      | None \<Rightarrow>
          (let d1 = d\<lparr>db_dispatch_jobs :=
                 (if list_ex (\<lambda>r. dr_request_id r = dj_request_id job) (db_dispatch_jobs d)
                  then db_dispatch_jobs d else db_dispatch_jobs d @ [dispatch_row_of job])\<rparr>;
               on = dj_deadline_ms job div 1000
           in case sched of
                Some e \<Rightarrow> (Inl e, None, d1)
              | None \<Rightarrow> (Inr (), Some (job, on), d1)))"

definition set_job_status :: "stmt_env \<Rightarrow> uuid \<Rightarrow> string \<Rightarrow> db \<Rightarrow> (string + unit) \<times> db" where
  "set_job_status env rid status d =
     (case se_err env of
        Some e \<Rightarrow> (Inl e, d)
      | None \<Rightarrow> (Inr (), d\<lparr>db_dispatch_jobs :=
          update_where (\<lambda>r. dr_request_id r = rid) (\<lambda>r. r\<lparr>dr_status := status\<rparr>) (db_dispatch_jobs d)\<rparr>))"

definition mark_completed :: "stmt_env \<Rightarrow> uuid \<Rightarrow> db \<Rightarrow> (string + unit) \<times> db" where
  "mark_completed env rid d = set_job_status env rid (job_status_as_str Completed) d"

definition select_status :: "uuid \<Rightarrow> db \<Rightarrow> string option" where
  "select_status rid d = map_option dr_status (find (\<lambda>r. dr_request_id r = rid) (db_dispatch_jobs d))"

definition parse_job_status :: "string \<Rightarrow> job_status option" where
  "parse_job_status s =
     (if s = ''Dispatched'' then Some Dispatched
      else if s = ''Acked'' then Some Acked
      else if s = ''Completed'' then Some Completed
      else if s = ''TimedOut'' then Some TimedOut
      else if s = ''Refunded'' then Some Refunded
      else None)"

definition get_status :: "stmt_env \<Rightarrow> uuid \<Rightarrow> db \<Rightarrow> string + job_status option" where
  "get_status env rid d =
     (case se_err env of
        Some e \<Rightarrow> Inl e
      | None \<Rightarrow> Inr (Option.bind (select_status rid d) parse_job_status))"

section \<open>The deadline watcher\<close>

definition already_done :: "uuid \<Rightarrow> db \<Rightarrow> bool" where
  "already_done rid d =
     (case select_status rid d of None \<Rightarrow> False | Some s \<Rightarrow> s = ''Completed'' \<or> s = ''Refunded'')"

definition fallback_handle :: "dispatch_job \<Rightarrow> escrow_handle" where
  "fallback_handle job =
     \<lparr>eh_settlement_id = ''free'', eh_request_id = dj_request_id job, eh_amount_nanox = NanoX 0,
      eh_chain_tx_id = None, eh_payload_json = ''{}''\<rparr>"

record timeout_env =
  te_now_ms :: u64
  te_select :: stmt_env
  te_update :: stmt_env
  te_handle_from_str :: "string \<Rightarrow> escrow_handle option"
  te_refund :: "escrow_handle \<Rightarrow> string + unit"

text \<open>The handler returns the refunds it asks the adapter for, its result and the database.\<close>

definition handle_dispatch_timeout ::
  "timeout_env \<Rightarrow> dispatch_job \<Rightarrow> db \<Rightarrow> escrow_handle list \<times> (string + unit) \<times> db" where
  "handle_dispatch_timeout e job d =
     (if te_now_ms e < dj_deadline_ms job then ([], Inr (), d)
      else case se_err (te_select e) of
             Some err \<Rightarrow> ([], Inl err, d)
           | None \<Rightarrow>
               if already_done (dj_request_id job) d then ([], Inr (), d)
               else let handle = (case te_handle_from_str e (dj_escrow_handle_json job) of
                                    Some h \<Rightarrow> h | None \<Rightarrow> fallback_handle job)
                    in case te_refund e handle of
                         Inl err \<Rightarrow> ([handle], Inl err, d)
                       | Inr _ \<Rightarrow>
                           (case set_job_status (te_update e) (dj_request_id job) ''Refunded'' d of
                              (r, d1) \<Rightarrow> ([handle], r, d1)))"

section \<open>Status rows\<close>

lemma parse_as_str [simp]: "parse_job_status (job_status_as_str s) = Some s"
  by (cases s) (simp_all add: parse_job_status_def)

lemma find_snoc: "find P (xs @ [x]) = (case find P xs of None \<Rightarrow> if P x then Some x else None | Some y \<Rightarrow> Some y)"
  by (induction xs) auto

lemma select_status_set:
  "select_status rid (snd (set_job_status env k status d)) =
     (if se_err env = None \<and> k = rid then map_option (\<lambda>_. status) (select_status rid d) else select_status rid d)"
proof -
  have "map_option dr_status (find (\<lambda>r. dr_request_id r = rid)
      (update_where (\<lambda>r. dr_request_id r = k) (\<lambda>r. r\<lparr>dr_status := status\<rparr>) rows)) =
    (if k = rid then map_option (\<lambda>_. status) (map_option dr_status (find (\<lambda>r. dr_request_id r = rid) rows))
     else map_option dr_status (find (\<lambda>r. dr_request_id r = rid) rows))" for rows
    by (induction rows) (auto simp: update_where_def)
  then show ?thesis by (auto simp: set_job_status_def select_status_def split: option.split)
qed

lemma select_status_push:
  "select_status rid (snd (snd (job_push env sched job d))) =
     (if se_err env = None \<and> rid = dj_request_id job \<and> select_status rid d = None
      then Some ''Dispatched'' else select_status rid d)"
proof -
  have "find (\<lambda>r. dr_request_id r = k) rows = None \<longleftrightarrow> \<not> list_ex (\<lambda>r. dr_request_id r = k) rows" for k rows
    by (auto simp: find_None_iff list_ex_iff)
  then show ?thesis
    by (auto simp: job_push_def select_status_def find_snoc dispatch_row_of_def Let_def split: option.split)
qed

text \<open>
  The tracking row of a job follows its operations: after a first successful push the status reads
  back as Dispatched and a second push of the same request leaves it alone; after marking a tracked
  job completed it reads back as Completed, and no other job's status changes.
\<close>

theorem job_status_tracks_operations:
  assumes "se_err env = None" and "select_status (dj_request_id job) d = None"
    and "d1 = snd (snd (job_push env sched job d))" and "d2 = snd (mark_completed env (dj_request_id job) d1)"
  shows "get_status env (dj_request_id job) d1 = Inr (Some Dispatched) \<and>
    select_status (dj_request_id job) (snd (snd (job_push env sched' job' d1))) = Some ''Dispatched'' \<and>
    get_status env (dj_request_id job) d2 = Inr (Some Completed) \<and>
    (rid \<noteq> dj_request_id job \<longrightarrow> get_status env rid d2 = get_status env rid d)"
proof -
  have one: "select_status rid d1 = (if rid = dj_request_id job then Some ''Dispatched'' else select_status rid d)" for rid
    using assms(1,2) by (simp add: assms(3) select_status_push)
  moreover have "select_status rid d2 = (if rid = dj_request_id job then Some ''Completed'' else select_status rid d)" for rid
    using assms(1) one by (simp add: assms(4) mark_completed_def select_status_set)
  ultimately show ?thesis
    using assms(1) by (simp add: get_status_def select_status_push parse_job_status_def)
qed

definition sample_dispatch_job :: dispatch_job where
  "sample_dispatch_job =
     \<lparr>dj_request_id = Uuid [3], dj_primary_peer_id = NodePeerId ''A'', dj_dispatched_at_ms = 10,
      dj_deadline_ms = 70000, dj_status = Dispatched, dj_escrow_handle_json = ''{}''\<rparr>"

lemma job_status_tracks_operations_witness:
  "get_status (sample_env 0) (Uuid [3]) (snd (snd (job_push (sample_env 0) None sample_dispatch_job db_empty))) =
     Inr (Some Dispatched)"
proof -
  have "se_err (sample_env 0) = None" "select_status (dj_request_id sample_dispatch_job) db_empty = None"
    by (simp_all add: sample_env_def select_status_def db_empty_def)
  from job_status_tracks_operations [OF this refl refl]
  show ?thesis by (simp add: sample_dispatch_job_def)
qed

section \<open>Refunds\<close>

text \<open>
  C18: The deadline watcher refunds a request at most once and never a completed one. Run before the
  deadline, or on a job whose row is Completed or Refunded, it asks for no refund and changes nothing.
  Otherwise it asks for exactly one refund; if the adapter refuses, the row keeps its status for a
  retry; if the refund and the update go through, the row of a tracked job becomes Refunded, so every
  later run is of the first kind.
\<close>

theorem timeout_refunds_at_most_once:
  assumes "se_err (te_select e) = None" and "se_err (te_update e) = None"
    and "handle_dispatch_timeout e job d = (refunds, r, d')"
  shows "(te_now_ms e < dj_deadline_ms job \<or> already_done (dj_request_id job) d \<longrightarrow>
            refunds = [] \<and> r = Inr () \<and> d' = d) \<and>
         (\<not> (te_now_ms e < dj_deadline_ms job \<or> already_done (dj_request_id job) d) \<longrightarrow>
            (\<exists>h. refunds = [h] \<and>
              (case te_refund e h of
                 Inl err \<Rightarrow> r = Inl err \<and> d' = d
               | Inr _ \<Rightarrow> r = Inr () \<and>
                   (select_status (dj_request_id job) d \<noteq> None \<longrightarrow>
                      already_done (dj_request_id job) d' \<and>
                      handle_dispatch_timeout e job d' = ([], Inr (), d')))))"
proof (cases "te_now_ms e < dj_deadline_ms job \<or> already_done (dj_request_id job) d")
  case True
  then have "handle_dispatch_timeout e job d = ([], Inr (), d)"
    using assms(1) by (cases "te_now_ms e < dj_deadline_ms job") (simp_all add: handle_dispatch_timeout_def)
  with True show ?thesis using assms(3) by simp
next
  case False
  define h where "h = (case te_handle_from_str e (dj_escrow_handle_json job) of
      Some h \<Rightarrow> h | None \<Rightarrow> fallback_handle job)"
  let ?d1 = "snd (set_job_status (te_update e) (dj_request_id job) ''Refunded'' d)"
  have run: "handle_dispatch_timeout e job d =
      (case te_refund e h of Inl err \<Rightarrow> ([h], Inl err, d) | Inr _ \<Rightarrow> ([h], Inr (), ?d1))"
    using False assms(1,2)
    by (simp add: handle_dispatch_timeout_def h_def set_job_status_def Let_def split: sum.split)
  have "already_done (dj_request_id job) ?d1" if "select_status (dj_request_id job) d \<noteq> None"
    using that assms(2) by (auto simp: already_done_def select_status_set)
  moreover have "already_done (dj_request_id job) x \<Longrightarrow> handle_dispatch_timeout e job x = ([], Inr (), x)" for x
    using assms(1) by (simp add: handle_dispatch_timeout_def)
  moreover have "refunds = [h]"
    "case te_refund e h of Inl err \<Rightarrow> r = Inl err \<and> d' = d | Inr _ \<Rightarrow> r = Inr () \<and> d' = ?d1"
    using assms(3) unfolding run by (auto split: sum.splits)
  ultimately have "refunds = [h] \<and> (case te_refund e h of
      Inl err \<Rightarrow> r = Inl err \<and> d' = d
    | Inr _ \<Rightarrow> r = Inr () \<and> (select_status (dj_request_id job) d \<noteq> None \<longrightarrow>
        already_done (dj_request_id job) d' \<and> handle_dispatch_timeout e job d' = ([], Inr (), d')))"
    by (simp split: sum.splits)
  then show ?thesis using False by blast
qed

definition sample_timeout :: timeout_env where
  "sample_timeout =
     \<lparr>te_now_ms = 80000, te_select = sample_env 0, te_update = sample_env 1,
      te_handle_from_str = (\<lambda>_. None), te_refund = free_refund_funds\<rparr>"

lemma timeout_refunds_at_most_once_witness:
  "\<exists>h. fst (handle_dispatch_timeout sample_timeout sample_dispatch_job
      (snd (snd (job_push (sample_env 0) None sample_dispatch_job db_empty)))) = [h]"
proof -
  let ?d = "snd (snd (job_push (sample_env 0) None sample_dispatch_job db_empty))"
  obtain refunds r d' where h: "handle_dispatch_timeout sample_timeout sample_dispatch_job ?d = (refunds, r, d')"
    by (cases "handle_dispatch_timeout sample_timeout sample_dispatch_job ?d")
  have st: "select_status (dj_request_id sample_dispatch_job) ?d = Some ''Dispatched''"
    by (simp add: select_status_push) (simp add: select_status_def sample_env_def db_empty_def)
  then have late: "\<not> (te_now_ms sample_timeout < dj_deadline_ms sample_dispatch_job \<or>
      already_done (dj_request_id sample_dispatch_job) ?d)"
    by (simp add: sample_timeout_def sample_dispatch_job_def already_done_def)
  show ?thesis
    using timeout_refunds_at_most_once [OF _ _ h] late h
    by (auto simp: sample_timeout_def sample_env_def)
qed

section \<open>Reachable statuses\<close>

text \<open>The operations on the tracking table, in any order and with any outcome of their statements.\<close>

inductive jobs_step :: "db \<Rightarrow> db \<Rightarrow> bool" where
  step_push: "jobs_step d (snd (snd (job_push env sched job d)))"
| step_complete: "jobs_step d (snd (mark_completed env rid d))"
| step_timeout: "jobs_step d (snd (snd (handle_dispatch_timeout e job d)))"

definition written_statuses :: "string set" where
  "written_statuses = {''Dispatched'', ''Completed'', ''Refunded''}"

definition jobs_inv :: "db \<Rightarrow> bool" where
  "jobs_inv d \<longleftrightarrow> db_wf d \<and> list_all (\<lambda>r. dr_status r \<in> written_statuses) (db_dispatch_jobs d)"

lemma set_job_status_inv:
  "jobs_inv d \<Longrightarrow> status \<in> written_statuses \<Longrightarrow> jobs_inv (snd (set_job_status env rid status d))"
  by (auto simp: jobs_inv_def set_job_status_def db_wf_def update_where_keys list_all_iff set_update_where
      split: option.split)

lemma jobs_step_inv: "jobs_step d d' \<Longrightarrow> jobs_inv d \<Longrightarrow> jobs_inv d'"
proof (induction rule: jobs_step.induct)
  case (step_push d env sched job)
  then show ?case
    by (auto simp: jobs_inv_def job_push_def db_wf_def dispatch_row_of_def written_statuses_def list_ex_iff
        Let_def split: option.split)
next
  case (step_complete d env rid)
  then show ?case by (simp add: mark_completed_def set_job_status_inv written_statuses_def)
next
  case (step_timeout d e job)
  then show ?case
    using set_job_status_inv [of d "''Refunded''" "te_update e" "dj_request_id job"]
    by (auto simp: handle_dispatch_timeout_def written_statuses_def Let_def split: option.split sum.split prod.split)
qed

interpretation job_table: step_invariant jobs_step jobs_inv
  by unfold_locales (rule jobs_step_inv)

text \<open>
  Whatever sequence of pushes, completions and deadline runs the tracking table goes through from
  empty, request ids stay unique and every status is Dispatched, Completed or Refunded: the
  Acked and TimedOut states of the documented life cycle are never entered.
\<close>

theorem reachable_job_statuses:
  assumes "jobs_step\<^sup>*\<^sup>* db_empty d"
  shows "distinct (map dr_request_id (db_dispatch_jobs d)) \<and>
    list_all (\<lambda>r. parse_job_status (dr_status r) \<in> {Some Dispatched, Some Completed, Some Refunded}) (db_dispatch_jobs d)"
proof -
  have "jobs_inv db_empty"
    by (simp add: jobs_inv_def) (simp add: db_empty_def)
  with assms have "jobs_inv d" by (rule job_table.reachable_inv)
  then show ?thesis
    by (auto simp: jobs_inv_def db_wf_def written_statuses_def parse_job_status_def list_all_iff)
qed

lemma reachable_job_statuses_witness:
  "distinct (map dr_request_id (db_dispatch_jobs (snd (snd (job_push (sample_env 0) None sample_dispatch_job db_empty)))))"
  using reachable_job_statuses [OF r_into_rtranclp, OF step_push] by blast

end
