(* ===== verification/Settlement_Worker.thy ===== *)
theory Settlement_Worker
  imports Payments Sidecar
begin

text \<open>
  The settlement worker (\<^verbatim>\<open>src/coordinator/src/jobs/settlement_worker.rs\<close>): for one job it loads
  the pending rows of the request, asks the sidecar to settle each, and marks the row. The job queue
  (apalis) is a third-party library; one call of the handler is modelled, and repeated delivery of a
  job is a repeated call.
\<close>

section \<open>Job and handler\<close>

record settlement_job =
  sj_request_id :: uuid
  sj_receipt_json :: string

text \<open>
  What the handler relies on: the codecs, the client, the answer of the sidecar to the call for row
  \<open>i\<close>, and the environments of its statements.
\<close>

record worker_env =
  we_uuid_str :: "uuid \<Rightarrow> string"
  we_hex_encode :: "bytes \<Rightarrow> string"
  we_settle_resp :: "string \<Rightarrow> string option"
  we_receipt_from_str :: "string \<Rightarrow> routing_receipt option"
  we_client :: sidecar_client
  we_answer :: "nat \<Rightarrow> http_result"
  we_select :: stmt_env
  we_mark :: "nat \<Rightarrow> stmt_env"

datatype worker_error = StatementError string | DeserializeReceipt

definition settle_row :: "worker_env \<Rightarrow> routing_receipt \<Rightarrow> nat \<Rightarrow> pending_payment \<Rightarrow> sidecar_call \<times> (sidecar_error + string)" where
  "settle_row e receipt i row =
     settle (we_uuid_str e) (we_hex_encode e) (we_settle_resp e) (we_client e) (we_answer e i)
       receipt (pp_payee_sui_address row) (pp_amount_nanox row)"

fun settle_rows ::
  "worker_env \<Rightarrow> routing_receipt \<Rightarrow> nat \<Rightarrow> pending_payment list \<Rightarrow> db \<Rightarrow>
     sidecar_call list \<times> (worker_error + unit) \<times> db" where
  "settle_rows e receipt i [] d = ([], Inr (), d)"
| "settle_rows e receipt i (row # rows) d =
     (case settle_row e receipt i row of
        (call, outcome) \<Rightarrow>
          (case (case outcome of
                   Inr digest \<Rightarrow> mark_submitted (we_mark e i) (pp_id row) digest d
                 | Inl _ \<Rightarrow> mark_failed (we_mark e i) (pp_id row) d) of
             (Inl err, d1) \<Rightarrow> ([call], Inl (StatementError err), d1)
           | (Inr _, d1) \<Rightarrow>
               (case settle_rows e receipt (Suc i) rows d1 of
                  (calls, r, d2) \<Rightarrow> (call # calls, r, d2))))"

definition handle_settlement ::
  "worker_env \<Rightarrow> settlement_job \<Rightarrow> db \<Rightarrow> sidecar_call list \<times> (worker_error + unit) \<times> db" where
  "handle_settlement e job d =
     (case pending_for_request (we_select e) (sj_request_id job) d of
        Inl err \<Rightarrow> ([], Inl (StatementError err), d)
      | Inr rows \<Rightarrow>
          if rows = [] then ([], Inr (), d)
          else case we_receipt_from_str e (sj_receipt_json job) of
                 None \<Rightarrow> ([], Inl DeserializeReceipt, d)
               | Some receipt \<Rightarrow> settle_rows e receipt 0 rows d)"

section \<open>Outcome of the loop when every statement runs\<close>

definition settle_url :: "worker_env \<Rightarrow> string" where
  "settle_url e = sc_base_url (we_client e) @ ''/sui/settle''"

definition settle_call :: "worker_env \<Rightarrow> routing_receipt \<Rightarrow> payment_row \<Rightarrow> sidecar_call" where
  "settle_call e receipt r =
     PostSettle (settle_url e) (sc_secret (we_client e))
       (settle_req_of (we_uuid_str e) (we_hex_encode e) receipt (pr_payee_sui_address r) (pr_amount_nanox r))"

text \<open>The row after the sidecar's answer number \<open>i\<close>.\<close>

definition mark_row :: "worker_env \<Rightarrow> nat \<Rightarrow> payment_row \<Rightarrow> payment_row" where
  "mark_row e i r =
     (case settle_result (we_settle_resp e) (settle_url e) (we_answer e i) of
        Inr digest \<Rightarrow>
          r\<lparr>pr_status := ''submitted'', pr_tx_digest := Some digest, pr_submitted_at := Some (se_now (we_mark e i))\<rparr>
      | Inl _ \<Rightarrow> r\<lparr>pr_status := ''failed''\<rparr>)"

fun mark_rows :: "worker_env \<Rightarrow> nat \<Rightarrow> payment_row list \<Rightarrow> payment_row \<Rightarrow> payment_row" where
  "mark_rows e i [] r = r"
| "mark_rows e i (p # ps) r = mark_rows e (Suc i) ps (if pr_id r = pr_id p then mark_row e i r else r)"

lemma mark_row_id [simp]: "pr_id (mark_row e i r) = pr_id r" "\<not> is_pending rid (mark_row e i r)"
  by (simp_all add: mark_row_def is_pending_def split: sum.split)

lemma mark_rows_id [simp]: "pr_id (mark_rows e i ps r) = pr_id r"
  by (induction ps arbitrary: i r) auto

lemma mark_rows_other: "pr_id r \<notin> pr_id ` set ps \<Longrightarrow> mark_rows e i ps r = r"
  by (induction ps arbitrary: i r) auto

lemma mark_rows_nth:
  assumes "distinct (map pr_id ps)" "k < length ps"
  shows "mark_rows e i ps (ps ! k) = mark_row e (i + k) (ps ! k)"
  using assms
proof (induction ps arbitrary: i k)
  case (Cons p ps)
  show ?case
  proof (cases k)
    case 0
    with Cons.prems show ?thesis by (simp add: mark_rows_other)
  next
    case (Suc n)
    with Cons.prems have "pr_id (ps ! n) \<noteq> pr_id p"
      by (metis distinct.simps(2) in_set_conv_nth length_map list.simps(9) nth_map Suc_less_eq length_Cons)
    with Suc Cons show ?thesis by simp
  qed
qed simp

lemma settle_row_pending:
  "settle_row e receipt i (pending_of_row p) =
     (settle_call e receipt p, settle_result (we_settle_resp e) (settle_url e) (we_answer e i))"
  by (simp add: settle_row_def settle_def settle_call_def settle_url_def pending_of_row_def Let_def)

lemma pending_of_row_id [simp]: "pp_id (pending_of_row p) = pr_id p"
  by (simp add: pending_of_row_def)

lemma settle_rows_ok:
  assumes "\<And>i. se_err (we_mark e i) = None"
  shows "settle_rows e receipt i (map pending_of_row ps) d =
    (map (settle_call e receipt) ps, Inr (), d\<lparr>db_payments := map (mark_rows e i ps) (db_payments d)\<rparr>)"
proof (induction ps arbitrary: i d)
  case Nil
  then show ?case by (simp add: map_idI)
next
  case (Cons p ps)
  have m: "update_where (\<lambda>r. pr_id r = pr_id p) f rows = map (\<lambda>r. if pr_id r = pr_id p then f r else r) rows" for f rows
    by (simp add: update_where_def)
  show ?case
    by (cases "settle_result (we_settle_resp e) (settle_url e) (we_answer e i)")
      (simp_all add: settle_row_pending db_simps assms Cons.IH m mark_row_def comp_def cong: if_cong)
qed

text \<open>The pending rows of a request, in the order the worker reads them.\<close>

definition pending_rows :: "uuid \<Rightarrow> db \<Rightarrow> payment_row list" where
  "pending_rows rid d = sort_key pr_created_at (filter (is_pending rid) (db_payments d))"

lemma pending_rows_set: "set (pending_rows rid d) = {r \<in> set (db_payments d). is_pending rid r}"
  by (auto simp: pending_rows_def)

lemma pending_rows_distinct: "db_wf d \<Longrightarrow> distinct (map pr_id (pending_rows rid d))"
proof -
  assume "db_wf d"
  then have "distinct (map pr_id (filter (is_pending rid) (db_payments d)))"
    by (simp add: db_wf_def distinct_map_filter)
  then show ?thesis
    by (simp add: pending_rows_def distinct_map)
qed

lemma handle_settlement_eq:
  assumes "se_err (we_select e) = None" "\<And>i. se_err (we_mark e i) = None"
    and "we_receipt_from_str e (sj_receipt_json job) = Some receipt"
  shows "handle_settlement e job d =
    (map (settle_call e receipt) (pending_rows (sj_request_id job) d), Inr (),
     d\<lparr>db_payments := map (mark_rows e 0 (pending_rows (sj_request_id job) d)) (db_payments d)\<rparr>)"
  using assms settle_rows_ok [OF assms(2), of receipt 0 "pending_rows (sj_request_id job) d" d]
  by (auto simp: handle_settlement_def pending_for_request_def map_idI simp flip: pending_rows_def)

lemma mark_rows_pending:
  assumes "db_wf d" "r \<in> set (db_payments d)"
  shows "\<not> is_pending rid (mark_rows e i (pending_rows rid d) r)"
    and "\<not> is_pending rid r \<Longrightarrow> mark_rows e i (pending_rows rid d) r = r"
proof -
  have inj: "inj_on pr_id (set (db_payments d))" using assms(1) by (simp add: db_wf_def distinct_map)
  show same: "mark_rows e i (pending_rows rid d) r = r" if "\<not> is_pending rid r"
    using that assms(2) inj by (intro mark_rows_other) (auto simp: pending_rows_set inj_on_def)
  show "\<not> is_pending rid (mark_rows e i (pending_rows rid d) r)"
  proof (cases "is_pending rid r")
    case True
    with assms(2) have "r \<in> set (pending_rows rid d)" by (simp add: pending_rows_set)
    then obtain k where "k < length (pending_rows rid d)" "r = pending_rows rid d ! k"
      by (metis in_set_conv_nth)
    then show ?thesis using mark_rows_nth [OF pending_rows_distinct [OF assms(1)]] by simp
  qed (simp add: same)
qed

lemma no_pending_no_calls:
  assumes "se_err (we_select e) = None" "list_all (\<lambda>r. \<not> is_pending (sj_request_id job) r) (db_payments d)"
  shows "handle_settlement e job d = ([], Inr (), d)"
proof -
  have "filter (is_pending (sj_request_id job)) (db_payments d) = []"
    using assms(2) by (simp add: filter_empty_conv list_all_iff)
  then show ?thesis using assms(1) by (simp add: handle_settlement_def pending_for_request_def)
qed

section \<open>Every pending row is settled once\<close>

text \<open>
  C33: One run of the settlement worker whose statements all execute sends the sidecar exactly one
  settle request per pending row of the request, in creation order, with that row's address and amount
  and the signed receipt; row \<open>k\<close> becomes \<open>submitted\<close> with the digest of answer \<open>k\<close>, or \<open>failed\<close>;
  no row of the request stays pending, every other row is untouched, and delivering the job again
  sends nothing and changes nothing.
\<close>

theorem settlement_settles_each_row_once:
  assumes "db_wf d" and "se_err (we_select e) = None" and "\<forall>i. se_err (we_mark e i) = None"
    and "we_receipt_from_str e (sj_receipt_json job) = Some receipt"
    and "rows = pending_rows (sj_request_id job) d"
    and "handle_settlement e job d = (calls, r, d')"
  shows "calls = map (settle_call e receipt) rows \<and> r = Inr () \<and>
    (\<forall>k<length rows. mark_row e k (rows ! k) \<in> set (db_payments d')) \<and>
    list_all (\<lambda>x. \<not> is_pending (sj_request_id job) x) (db_payments d') \<and>
    filter (\<lambda>x. pr_id x \<notin> pr_id ` set rows) (db_payments d') =
      filter (\<lambda>x. pr_id x \<notin> pr_id ` set rows) (db_payments d) \<and>
    map pr_id (db_payments d') = map pr_id (db_payments d) \<and>
    handle_settlement e job d' = ([], Inr (), d')"
proof -
  have eq: "calls = map (settle_call e receipt) rows" "r = Inr ()"
    "db_payments d' = map (mark_rows e 0 rows) (db_payments d)"
    using handle_settlement_eq [OF assms(2) _ assms(4), of d] assms(3,5,6) by auto
  have none: "list_all (\<lambda>x. \<not> is_pending (sj_request_id job) x) (db_payments d')"
    using mark_rows_pending(1) [OF assms(1)] by (simp add: eq(3) assms(5) list_all_iff)
  have marked: "mark_row e k (rows ! k) \<in> set (db_payments d')" if "k < length rows" for k
  proof -
    have "rows ! k \<in> set (db_payments d)"
      using nth_mem [OF that] by (simp add: assms(5) pending_rows_set)
    moreover have "mark_rows e 0 rows (rows ! k) = mark_row e k (rows ! k)"
      using mark_rows_nth [of rows k e 0] that pending_rows_distinct [OF assms(1)] by (simp add: assms(5))
    ultimately show ?thesis by (metis eq(3) image_eqI set_map)
  qed
  have frame: "filter (\<lambda>x. pr_id x \<notin> pr_id ` set rows) (map (mark_rows e 0 rows) xs) =
      filter (\<lambda>x. pr_id x \<notin> pr_id ` set rows) xs" for xs
    by (induction xs) (auto simp: mark_rows_other)
  show ?thesis
    using eq none marked frame no_pending_no_calls [OF assms(2) none] by (simp add: comp_def)
qed

definition sample_receipt_of_str :: "string \<Rightarrow> routing_receipt option" where
  "sample_receipt_of_str s = Some sample_receipt"

definition sample_worker :: worker_env where
  "sample_worker =
     \<lparr>we_uuid_str = (\<lambda>u. map (\<lambda>b. char_of (unat b)) (uuid_as_bytes u)),
      we_hex_encode = map (\<lambda>b. char_of (unat b)), we_settle_resp = Some,
      we_receipt_from_str = sample_receipt_of_str, we_client = sample_client,
      we_answer = (\<lambda>i. if i = 0 then Response 200 (Some ''digest'') else Response 500 None),
      we_select = sample_env 0, we_mark = sample_env\<rparr>"

definition sample_ledger :: db where
  "sample_ledger = db_empty\<lparr>db_payments := new_rows sample_env 0 (Uuid [9]) sample_lines\<rparr>"

definition sample_job :: settlement_job where
  "sample_job = \<lparr>sj_request_id = Uuid [9], sj_receipt_json = []\<rparr>"

lemmas sample_worker_defs = sample_worker_def sample_ledger_def sample_job_def sample_receipt_of_str_def
  sample_lines_def sample_env_def db_empty_def

lemma sample_ledger_wf: "db_wf sample_ledger"
  by (simp add: sample_worker_defs db_wf_def pending_row_def)

lemma settlement_settles_each_row_once_witness:
  "let d' = snd (snd (handle_settlement sample_worker sample_job sample_ledger))
   in list_all (\<lambda>x. \<not> is_pending (sj_request_id sample_job) x) (db_payments d') \<and>
      map pr_id (db_payments d') = map pr_id (db_payments sample_ledger) \<and>
      handle_settlement sample_worker sample_job d' = ([], Inr (), d')"
proof -
  obtain calls r d' where h: "handle_settlement sample_worker sample_job sample_ledger = (calls, r, d')"
    by (cases "handle_settlement sample_worker sample_job sample_ledger")
  then show ?thesis
    using settlement_settles_each_row_once [OF sample_ledger_wf _ _ _ refl h, of sample_receipt]
    by (simp add: sample_worker_def sample_receipt_of_str_def sample_env_def)
qed

section \<open>A lost status update\<close>

definition lossy_worker :: worker_env where
  "lossy_worker = sample_worker\<lparr>we_mark := (\<lambda>i. (sample_env i)\<lparr>se_err := Some ''connection reset''\<rparr>)\<rparr>"

lemma handle_settlement_lost_mark:
  assumes "se_err (we_select e) = None" "we_receipt_from_str e (sj_receipt_json job) = Some receipt"
    and "pending_rows (sj_request_id job) d = row # rest" and "se_err (we_mark e 0) = Some x"
  shows "handle_settlement e job d = ([settle_call e receipt row], Inl (StatementError x), d)"
proof -
  have "settle_rows e receipt 0 (map pending_of_row (row # rest)) d =
      ([settle_call e receipt row], Inl (StatementError x), d)"
    using assms(4) by (simp add: settle_row_pending db_simps split: sum.split)
  then show ?thesis
    using assms by (simp add: handle_settlement_def pending_for_request_def flip: pending_rows_def)
qed

text \<open>
  C39: A lost status update leaves a paid row recorded as failed. The sidecar reports the payment of the
  first pending row of a job with its transaction digest, and the status update that follows cannot be executed: the handler
  returns the error, the ledger is unchanged and the digest is kept nowhere. The redelivered
  job, its statements executing, sends the same settle request again. The vault settles a request and payee
  once only, so the sidecar answers with an error: then the row, though paid, is recorded as
  \<open>failed\<close> without a digest, no row of the request is pending, and no later delivery of the job sends or changes anything.
\<close>

theorem lost_mark_fails_paid_row:
  assumes "db_wf d" and "se_err (we_select e) = None" and "we_receipt_from_str e (sj_receipt_json job) = Some receipt"
    and "pending_rows (sj_request_id job) d = row # rest"
    and "settle_result (we_settle_resp e) (settle_url e) (we_answer e 0) = Inr digest"
    and "se_err (we_mark e 0) = Some x"
    and "handle_settlement e job d = (calls, r, d')"
    and "\<forall>i. se_err (marks i) = None" and "settle_result (we_settle_resp e) (settle_url e) (answers 0) = Inl refused"
    and "e2 = e\<lparr>we_mark := marks, we_answer := answers\<rparr>"
    and "handle_settlement e2 job d' = (calls', r', d'')"
  shows "calls = [settle_call e receipt row] \<and> r = Inl (StatementError x) \<and> d' = d \<and>
    hd calls' = settle_call e receipt row \<and> length calls' = Suc (length rest) \<and> r' = Inr () \<and>
    row\<lparr>pr_status := ''failed''\<rparr> \<in> set (db_payments d'') \<and> handle_settlement e2 job d'' = ([], Inr (), d'')"
proof -
  have first: "calls = [settle_call e receipt row]" "r = Inl (StatementError x)" "d' = d"
    using handle_settlement_lost_mark [OF assms(2,3,4,6)] assms(7) by auto
  have sel: "se_err (we_select e2) = None" using assms(2,10) by simp
  have second: "calls' = map (settle_call e2 receipt) (row # rest)" "r' = Inr ()"
      "db_payments d'' = map (mark_rows e2 0 (row # rest)) (db_payments d)"
    using handle_settlement_eq [OF sel, of job receipt d] assms(3,4,8,10,11) first(3) by auto
  have "mark_rows e2 0 (row # rest) row = mark_row e2 0 row"
    using mark_rows_nth [OF pending_rows_distinct [OF assms(1)], of 0 "sj_request_id job" e2 0] assms(4) by simp
  moreover have "mark_row e2 0 row = row\<lparr>pr_status := ''failed''\<rparr>"
    using assms(9) by (simp add: mark_row_def assms(10) settle_url_def)
  moreover have "row \<in> set (db_payments d)"
    using pending_rows_set [of "sj_request_id job" d] assms(4) by auto
  ultimately have row: "row\<lparr>pr_status := ''failed''\<rparr> \<in> set (db_payments d'')"
    unfolding second(3) by (metis image_eqI list.set_map)
  have "list_all (\<lambda>y. \<not> is_pending (sj_request_id job) y) (db_payments d'')"
    using mark_rows_pending(1) [OF assms(1)] by (simp add: second(3) list_all_iff flip: assms(4))
  then have "handle_settlement e2 job d'' = ([], Inr (), d'')" by (rule no_pending_no_calls [OF sel])
  then show ?thesis using first second row by (simp add: settle_call_def settle_url_def assms(10))
qed

lemma lost_mark_fails_paid_row_witness:
  "let r = handle_settlement lossy_worker sample_job sample_ledger;
       again = handle_settlement (sample_worker\<lparr>we_answer := (\<lambda>_. Response 500 None)\<rparr>) sample_job (snd (snd r))
   in fst (snd r) = Inl (StatementError ''connection reset'') \<and> snd (snd r) = sample_ledger \<and>
      hd (fst again) = hd (fst r) \<and>
      (hd (new_rows sample_env 0 (Uuid [9]) sample_lines))\<lparr>pr_status := ''failed''\<rparr> \<in> set (db_payments (snd (snd again)))"
proof -
  let ?rows = "new_rows sample_env 0 (Uuid [9]) sample_lines" and ?e2 = "sample_worker\<lparr>we_answer := (\<lambda>_. Response 500 None)\<rparr>"
  let ?r = "handle_settlement lossy_worker sample_job sample_ledger"
  let ?again = "handle_settlement ?e2 sample_job (snd (snd ?r))"
  have rows: "pending_rows (sj_request_id sample_job) sample_ledger = hd ?rows # tl ?rows"
    by (simp add: pending_rows_def sample_worker_defs pending_row_def is_pending_def)
  have w: "?e2 = lossy_worker\<lparr>we_mark := sample_env, we_answer := (\<lambda>_. Response 500 None)\<rparr>"
    by (simp add: lossy_worker_def sample_worker_def)
  have "fst ?r = [settle_call lossy_worker sample_receipt (hd ?rows)] \<and>
      fst (snd ?r) = Inl (StatementError ''connection reset'') \<and> snd (snd ?r) = sample_ledger \<and>
      hd (fst ?again) = settle_call lossy_worker sample_receipt (hd ?rows) \<and> length (fst ?again) = Suc (length (tl ?rows)) \<and>
      fst (snd ?again) = Inr () \<and> (hd ?rows)\<lparr>pr_status := ''failed''\<rparr> \<in> set (db_payments (snd (snd ?again))) \<and>
      handle_settlement ?e2 sample_job (snd (snd ?again)) = ([], Inr (), snd (snd ?again))"
    by (rule lost_mark_fails_paid_row [OF sample_ledger_wf _ _ rows _ _ _ _ _ w, where digest = "''digest''"
          and refused = "BadStatus 500 (body_text None)"])
      (simp_all add: lossy_worker_def sample_worker_def sample_receipt_of_str_def sample_env_def settle_result_def is_success_def
        body_text_def)
  then show ?thesis unfolding Let_def by (elim conjE) simp
qed

end
