(* ===== verification/Event_Loop.thy ===== *)
theory Event_Loop
  imports Dispatch_Token Peer_Registry Receipts Settlement_Worker
begin

text \<open>
  The swarm-driving event loop (\<^verbatim>\<open>src/coordinator/src/mesh/event_loop.rs\<close>): its state, the handlers
  of swarm events, gossip messages, completion acks and commands, and the loop as a step relation.
  libp2p, the codecs and the clock are parameters; what a handler sends is returned as its output.
\<close>

section \<open>Parameters\<close>

text \<open>The enclave key, the signature scheme, and the conversions of serde, BCS, hex and libp2p.\<close>

record loop_codec =
  lc_ed :: ed25519
  lc_key :: bytes
  lc_sha256 :: "bytes \<Rightarrow> bytes"
  lc_proof_json :: proof_json
  lc_ack_json :: ack_json
  lc_hex_decode :: "string \<Rightarrow> bytes option"
  lc_bcs :: "intent_message \<Rightarrow> bytes"
  lc_receipt :: receipt_codec
  lc_receipt_to_str :: "routing_receipt \<Rightarrow> string option"
  lc_peer_to_str :: "peer_id \<Rightarrow> string"
  lc_bid_from_slice :: "bytes \<Rightarrow> inference_bid option"
  lc_caps_from_slice :: "bytes \<Rightarrow> node_capabilities option"
  lc_request_to_vec :: "inference_request \<Rightarrow> bytes option"
  lc_with_p2p :: "multiaddr \<Rightarrow> multiaddr"

text \<open>What the surroundings decide while one completion ack is handled.\<close>

record ack_env =
  ae_now_ms :: u64
  ae_archive :: stmt_env
  ae_warm :: "nat \<Rightarrow> stmt_env"
  ae_insert :: "nat \<Rightarrow> stmt_env"
  ae_try_send :: bool

section \<open>State\<close>

definition BID_CHANNEL_CAPACITY :: nat where
  "BID_CHANNEL_CAPACITY = 64"

record in_flight_meta =
  ifm_client_id :: string
  ifm_bid_set_hash :: bytes
  ifm_payout_addresses :: payout_addresses
  ifm_session_id :: uuid

text \<open>A bid channel: the bids sent and not yet received, and whether the receiver still exists.\<close>

record bid_channel =
  bc_queue :: "inference_bid list"
  bc_open :: bool

text \<open>
  \<open>el_settlement\<close> is the queue behind \<^verbatim>\<open>settlement_tx\<close>, absent without a settlement worker;
  \<open>el_ready_tx\<close> says that the readiness signal is still unsent; a pending inference maps the outbound
  request to the reply channel of the caller.
\<close>

record event_loop =
  el_bid_subscribers :: "uuid \<rightharpoonup> bid_channel"
  el_peer_registry :: peer_registry
  el_archive :: archive
  el_pg_pool :: "db option"
  el_settlement :: "settlement_job list option"
  el_in_flight :: "uuid \<rightharpoonup> in_flight_meta"
  el_listen_addrs :: "multiaddr list"
  el_ready_tx :: bool
  el_pending_inference :: "nat \<rightharpoonup> nat"

definition with_pg_and_settlement ::
  "peer_registry \<Rightarrow> archive \<Rightarrow> db option \<Rightarrow> settlement_job list option \<Rightarrow> event_loop" where
  "with_pg_and_settlement registry rcpt_archive pg_pool settlement_tx =
     \<lparr>el_bid_subscribers = Map.empty, el_peer_registry = registry, el_archive = rcpt_archive,
      el_pg_pool = pg_pool, el_settlement = settlement_tx, el_in_flight = Map.empty, el_listen_addrs = [],
      el_ready_tx = True, el_pending_inference = Map.empty\<rparr>"

section \<open>Completion acks\<close>

fun verify_error_to_string :: "verify_error \<Rightarrow> string" where
  "verify_error_to_string InvalidPublicKey = ''public key bytes are not a valid Ed25519 verifying key''"
| "verify_error_to_string InvalidSignatureBytes = ''signature bytes are not a well-formed Ed25519 signature''"
| "verify_error_to_string SignatureMismatch = ''signature does not verify against the embedded public key''"

text \<open>
  \<^verbatim>\<open>INSERT INTO node_session_cache ... ON CONFLICT (node_peer_id, session_id) DO UPDATE\<close>, which the
  foreign key lets through only for an existing session.
\<close>

definition upsert_warm :: "stmt_env \<Rightarrow> string \<Rightarrow> uuid \<Rightarrow> db \<Rightarrow> (string + unit) \<times> db" where
  "upsert_warm env peer sid d =
     (case se_err env of
        Some e \<Rightarrow> (Inl e, d)
      | None \<Rightarrow>
          if sid \<notin> set (map sr_session_id (db_sessions d)) then (Inl ''foreign key violation'', d)
          else (Inr (), d\<lparr>db_node_session_cache :=
             upsert_by warm_key
               \<lparr>wr_node_peer_id = peer, wr_session_id = sid, wr_last_served_at = se_now env, wr_cache_tier = ''gpu''\<rparr>
               (\<lambda>w. w\<lparr>wr_last_served_at := se_now env, wr_cache_tier := ''gpu''\<rparr>) (db_node_session_cache d)\<rparr>))"

text \<open>The loop over the contributing peers; a failed statement is logged and skipped.\<close>

fun warm_peers :: "(nat \<Rightarrow> stmt_env) \<Rightarrow> nat \<Rightarrow> uuid \<Rightarrow> string list \<Rightarrow> db \<Rightarrow> db" where
  "warm_peers env i sid [] d = d"
| "warm_peers env i sid (peer # peers) d = warm_peers env (Suc i) sid peers (snd (upsert_warm (env i) peer sid d))"

definition payouts_of_lines :: "payout_line list \<Rightarrow> payout list" where
  "payouts_of_lines lines =
     map (\<lambda>l. \<lparr>po_sui_address = pl_sui_address l, po_amount_nanox = pl_amount_nanox l\<rparr>) lines"

definition meta_client_id :: "in_flight_meta option \<Rightarrow> string" where
  "meta_client_id meta = (case meta of None \<Rightarrow> [] | Some m \<Rightarrow> ifm_client_id m)"

definition meta_bid_set_hash :: "in_flight_meta option \<Rightarrow> bytes" where
  "meta_bid_set_hash meta = (case meta of None \<Rightarrow> zeros32 | Some m \<Rightarrow> ifm_bid_set_hash m)"

definition meta_addresses :: "in_flight_meta option \<Rightarrow> payout_addresses" where
  "meta_addresses meta = (case meta of None \<Rightarrow> Map.empty | Some m \<Rightarrow> ifm_payout_addresses m)"

definition primary_of_ack :: "loop_codec \<Rightarrow> peer_id \<Rightarrow> completion_ack \<Rightarrow> node_peer_id" where
  "primary_of_ack C sender ack =
     (case ca_proofs ack of [] \<Rightarrow> NodePeerId (lc_peer_to_str C sender) | p # _ \<Rightarrow> poi_node_peer_id p)"

definition receipt_of_ack ::
  "loop_codec \<Rightarrow> u64 \<Rightarrow> peer_id \<Rightarrow> completion_ack \<Rightarrow> in_flight_meta option \<Rightarrow> routing_receipt" where
  "receipt_of_ack C now_ms sender ack meta =
     receipt_sign (lc_hex_decode C) (lc_bcs C) (lc_ed C) (lc_key C)
       \<lparr>rr_request_id = ca_request_id ack,
        rr_client_id = meta_client_id meta,
        rr_primary_peer_id = primary_of_ack C sender ack,
        rr_helper_peer_ids = map poi_node_peer_id (drop 1 (ca_proofs ack)),
        rr_bid_set_hash = meta_bid_set_hash meta,
        rr_proof_ids = ack_proof_ids (lc_sha256 C) (lc_proof_json C) ack,
        rr_aggregated_output_hash = ca_aggregated_output_hash ack,
        rr_payouts = payouts_of_lines (compute_payouts ack (meta_addresses meta)),
        rr_timestamp_ms = now_ms,
        rr_coordinator_pubkey = zeros32,
        rr_signature = []\<rparr>"

text \<open>Refreshing the warm-node rows, when there is a pool and the request was in flight.\<close>

definition mark_warm :: "ack_env \<Rightarrow> routing_receipt \<Rightarrow> in_flight_meta option \<Rightarrow> event_loop \<Rightarrow> event_loop" where
  "mark_warm e receipt meta st =
     (case (el_pg_pool st, meta) of
        (Some d, Some m) \<Rightarrow>
          st\<lparr>el_pg_pool := Some (warm_peers (ae_warm e) 0 (ifm_session_id m)
             (peer_str (rr_primary_peer_id receipt) # map peer_str (rr_helper_peer_ids receipt)) d)\<rparr>
      | _ \<Rightarrow> st)"

text \<open>Persisting the payment rows and enqueueing the settlement job.\<close>

definition settlement_job_of :: "loop_codec \<Rightarrow> routing_receipt \<Rightarrow> uuid \<Rightarrow> settlement_job" where
  "settlement_job_of C receipt request_id =
     \<lparr>sj_request_id = request_id,
      sj_receipt_json = (case lc_receipt_to_str C receipt of None \<Rightarrow> ''{}'' | Some s \<Rightarrow> s)\<rparr>"

definition persist_payments ::
  "loop_codec \<Rightarrow> ack_env \<Rightarrow> uuid \<Rightarrow> payout_line list \<Rightarrow> routing_receipt \<Rightarrow> event_loop \<Rightarrow> event_loop" where
  "persist_payments C e request_id lines receipt st =
     (case el_pg_pool st of
        None \<Rightarrow> st
      | Some d \<Rightarrow>
          if lines = [] then st
          else case insert_pending (ae_insert e) request_id lines d of
                 (Inl _, d1) \<Rightarrow> st\<lparr>el_pg_pool := Some d1\<rparr>
               | (Inr _, d1) \<Rightarrow>
                   st\<lparr>el_pg_pool := Some d1,
                      el_settlement :=
                        (case el_settlement st of
                           None \<Rightarrow> None
                         | Some q \<Rightarrow>
                             Some (if ae_try_send e then q @ [settlement_job_of C receipt request_id] else q))\<rparr>)"

definition handle_completion_ack ::
  "loop_codec \<Rightarrow> ack_env \<Rightarrow> peer_id \<Rightarrow> completion_ack \<Rightarrow> event_loop \<Rightarrow> completion_response \<times> event_loop" where
  "handle_completion_ack C e sender ack st =
     (case ack_verify_primary (lc_sha256 C) (lc_proof_json C) (lc_ack_json C) (lc_ed C) ack of
        Inl err \<Rightarrow> (completion_rejected (''primary signature invalid: '' @ verify_error_to_string err), st)
      | Inr _ \<Rightarrow>
          (case ack_verify_all_proofs (lc_proof_json C) (lc_ed C) ack of
             Inl err \<Rightarrow> (completion_rejected (''proof invalid: '' @ verify_error_to_string err), st)
           | Inr _ \<Rightarrow>
               (let meta = el_in_flight st (ca_request_id ack);
                    st1 = st\<lparr>el_in_flight := (el_in_flight st)(ca_request_id ack := None)\<rparr>;
                    lines = compute_payouts ack (meta_addresses meta);
                    receipt = receipt_of_ack C (ae_now_ms e) sender ack meta
                in case archive_put (lc_receipt C) (ae_archive e) receipt (el_archive st1) of
                     (Inl _, a) \<Rightarrow> (completion_rejected ''storage error'', st1\<lparr>el_archive := a\<rparr>)
                   | (Inr _, a) \<Rightarrow>
                       (completion_ok receipt,
                        persist_payments C e (ca_request_id ack) lines receipt
                          (mark_warm e receipt meta (st1\<lparr>el_archive := a\<rparr>))))))"

section \<open>Gossip\<close>

record gossip_message =
  gm_topic :: string
  gm_data :: bytes
  gm_source :: "peer_id option"

text \<open>
  \<^verbatim>\<open>tx.send(bid).await\<close>: a closed receiver makes it fail at once, a full channel makes it wait, which
  suspends the whole loop (\<open>None\<close>).
\<close>

definition channel_send :: "inference_bid \<Rightarrow> bid_channel \<Rightarrow> bid_channel option" where
  "channel_send bid ch =
     (if \<not> bc_open ch then Some ch
      else if length (bc_queue ch) < BID_CHANNEL_CAPACITY then Some (ch\<lparr>bc_queue := bc_queue ch @ [bid]\<rparr>)
      else None)"

definition handle_gossip_message ::
  "loop_codec \<Rightarrow> u64 \<Rightarrow> peer_id \<Rightarrow> gossip_message \<Rightarrow> event_loop \<Rightarrow> event_loop option" where
  "handle_gossip_message C now_ms src message st =
     (if gm_topic message = BIDS then
        (case lc_bid_from_slice C (gm_data message) of
           None \<Rightarrow> Some st
         | Some bid \<Rightarrow>
             (case el_bid_subscribers st (bid_request_id bid) of
                None \<Rightarrow> Some st
              | Some ch \<Rightarrow>
                  map_option (\<lambda>ch'. st\<lparr>el_bid_subscribers := (el_bid_subscribers st)(bid_request_id bid \<mapsto> ch')\<rparr>)
                    (channel_send bid ch)))
      else if gm_topic message = ANNOUNCE then
        (case lc_caps_from_slice C (gm_data message) of
           None \<Rightarrow> Some st
         | Some caps \<Rightarrow>
             (case gm_source message of
                None \<Rightarrow> Some st
              | Some author \<Rightarrow> Some (st\<lparr>el_peer_registry := upsert now_ms author caps [] (el_peer_registry st)\<rparr>)))
      else Some st)"

section \<open>Commands\<close>

text \<open>The commands with the reply channel each carries.\<close>

datatype mesh_command =
    Publish inference_request nat
  | SetPayoutAddresses uuid payout_addresses
  | Dial multiaddr nat
  | ListenAddrs nat
  | DispatchInference peer_id inference_dispatch nat

datatype loop_output =
    SendResponse completion_response
  | ReadySignal
  | InferenceResult nat "string + inference_reply"
  | AddAddress peer_id multiaddr
  | PublishResult nat "string + unit"
  | DialResult nat "string + unit"
  | ListenAddrsResult nat "multiaddr list"
  | SendInference peer_id inference_dispatch

text \<open>What libp2p answers to a command: the error of a publish or dial, and the id of an outbound request.\<close>

record command_env =
  ce_publish_err :: "string option"
  ce_dial_err :: "string option"
  ce_out_id :: nat

definition publish_request :: "loop_codec \<Rightarrow> command_env \<Rightarrow> inference_request \<Rightarrow> event_loop \<Rightarrow> (string + unit) \<times> event_loop" where
  "publish_request C e request st =
     (case lc_request_to_vec C request of
        None \<Rightarrow> (Inl ''serialize request'', st)
      | Some payload \<Rightarrow>
          (case ce_publish_err e of
             Some err \<Rightarrow> (Inl (''gossipsub publish: '' @ err), st)
           | None \<Rightarrow>
               (Inr (), st\<lparr>el_in_flight := (el_in_flight st)(ireq_request_id request \<mapsto>
                   \<lparr>ifm_client_id = [], ifm_bid_set_hash = zeros32, ifm_payout_addresses = Map.empty,
                    ifm_session_id = ireq_session_id request\<rparr>),
                  el_bid_subscribers := (el_bid_subscribers st)(ireq_request_id request \<mapsto>
                   \<lparr>bc_queue = [], bc_open = True\<rparr>)\<rparr>)))"

definition handle_command :: "loop_codec \<Rightarrow> command_env \<Rightarrow> mesh_command \<Rightarrow> event_loop \<Rightarrow> loop_output list \<times> event_loop" where
  "handle_command C e cmd st =
     (case cmd of
        Publish request reply_tx \<Rightarrow>
          (case publish_request C e request st of (result, st1) \<Rightarrow> ([PublishResult reply_tx result], st1))
      | SetPayoutAddresses request_id addresses \<Rightarrow>
          (case el_in_flight st request_id of
             None \<Rightarrow> ([], st)
           | Some meta \<Rightarrow>
               ([], st\<lparr>el_in_flight := (el_in_flight st)(request_id \<mapsto> meta\<lparr>ifm_payout_addresses := addresses\<rparr>)\<rparr>))
      | Dial addr reply_tx \<Rightarrow>
          ([DialResult reply_tx (case ce_dial_err e of None \<Rightarrow> Inr () | Some err \<Rightarrow> Inl (''dial: '' @ err))], st)
      | ListenAddrs reply_tx \<Rightarrow> ([ListenAddrsResult reply_tx (el_listen_addrs st)], st)
      | DispatchInference peer dispatch reply_tx \<Rightarrow>
          ([SendInference peer dispatch],
           st\<lparr>el_pending_inference := (el_pending_inference st)(ce_out_id e \<mapsto> reply_tx)\<rparr>))"

section \<open>Swarm events\<close>

datatype swarm_event =
    NewListenAddr multiaddr
  | GossipsubMessage peer_id gossip_message
  | CompletionRequest peer_id completion_ack
  | InferenceResponse nat inference_reply
  | InferenceOutboundFailure nat string
  | IdentifyReceived peer_id "multiaddr list"
  | KademliaRoutingUpdated peer_id "multiaddr list"
  | OtherSwarmEvent

definition finish_inference :: "nat \<Rightarrow> string + inference_reply \<Rightarrow> event_loop \<Rightarrow> loop_output list \<times> event_loop" where
  "finish_inference out_id result st =
     (case el_pending_inference st out_id of
        None \<Rightarrow> ([], st)
      | Some reply_tx \<Rightarrow>
          ([InferenceResult reply_tx result],
           st\<lparr>el_pending_inference := (el_pending_inference st)(out_id := None)\<rparr>))"

definition handle_swarm_event ::
  "loop_codec \<Rightarrow> ack_env \<Rightarrow> swarm_event \<Rightarrow> event_loop \<Rightarrow> (loop_output list \<times> event_loop) option" where
  "handle_swarm_event C e event st =
     (case event of
        NewListenAddr address \<Rightarrow>
          Some (if el_ready_tx st then [ReadySignal] else [],
                st\<lparr>el_listen_addrs := el_listen_addrs st @ [lc_with_p2p C address], el_ready_tx := False\<rparr>)
      | GossipsubMessage src message \<Rightarrow>
          map_option (\<lambda>st1. ([], st1)) (handle_gossip_message C (ae_now_ms e) src message st)
      | CompletionRequest peer request \<Rightarrow>
          (case handle_completion_ack C e peer request st of
             (response, st1) \<Rightarrow> Some ([SendResponse response], st1))
      | InferenceResponse out_id response \<Rightarrow> Some (finish_inference out_id (Inr response) st)
      | InferenceOutboundFailure out_id err \<Rightarrow>
          Some (finish_inference out_id (Inl (''inference outbound failure: '' @ err)) st)
      | IdentifyReceived peer addrs \<Rightarrow>
          Some (map (AddAddress peer) addrs,
                st\<lparr>el_peer_registry := observe_addrs peer addrs (el_peer_registry st)\<rparr>)
      | KademliaRoutingUpdated peer addrs \<Rightarrow>
          Some ([], st\<lparr>el_peer_registry := observe_addrs peer addrs (el_peer_registry st)\<rparr>)
      | OtherSwarmEvent \<Rightarrow> Some ([], st))"

section \<open>The loop\<close>

text \<open>
  One iteration of \<^verbatim>\<open>run\<close>: a swarm event, a command, or the eviction tick. Beside the loop itself the
  holder of a bid receiver takes bids and drops the receiver, the forwarding task drains the settlement
  queue, and other writers change the database within its constraints.
\<close>

inductive loop_step :: "loop_codec \<Rightarrow> event_loop \<Rightarrow> event_loop \<Rightarrow> bool" for C where
  swarm: "handle_swarm_event C e event st = Some (out, st') \<Longrightarrow> loop_step C st st'"
| cmd: "handle_command C ce c st = (out, st') \<Longrightarrow> loop_step C st st'"
| evict: "loop_step C st (st\<lparr>el_peer_registry := evict_stale now (el_peer_registry st)\<rparr>)"
| recv_bid: "el_bid_subscribers st rid = Some ch \<Longrightarrow> bc_queue ch = b # bs \<Longrightarrow>
    loop_step C st (st\<lparr>el_bid_subscribers := (el_bid_subscribers st)(rid \<mapsto> ch\<lparr>bc_queue := bs\<rparr>)\<rparr>)"
| drop_receiver: "el_bid_subscribers st rid = Some ch \<Longrightarrow>
    loop_step C st (st\<lparr>el_bid_subscribers := (el_bid_subscribers st)(rid \<mapsto> ch\<lparr>bc_queue := [], bc_open := False\<rparr>)\<rparr>)"
| forward_job: "el_settlement st = Some (j # q) \<Longrightarrow> loop_step C st (st\<lparr>el_settlement := Some q\<rparr>)"
| other_writer: "el_pg_pool st = Some d \<Longrightarrow> db_wf d' \<Longrightarrow> loop_step C st (st\<lparr>el_pg_pool := Some d'\<rparr>)"

inductive_cases loop_stepE: "loop_step C st st'"

lemmas handler_defs [loop_simps] = handle_swarm_event_def handle_command_def finish_inference_def publish_request_def

end
