(* ===== verification/Event_Loop_Props.thy ===== *)
theory Event_Loop_Props
  imports Event_Loop
begin

text \<open>
  Correctness of the event loop: what a completion ack does on every branch, how it ties the signed
  receipt to the payment rows, what replays and failures do, and the invariants of every execution of
  the loop.
\<close>

section \<open>Frame\<close>

lemma upsert_warm_frame [simp]:
  "db_payments (snd (upsert_warm env peer sid d)) = db_payments d"
  "db_sessions (snd (upsert_warm env peer sid d)) = db_sessions d"
  by (simp_all add: upsert_warm_def split: option.split)

lemma warm_peers_payments [simp]: "db_payments (warm_peers env i sid peers d) = db_payments d"
  by (induction env i sid peers d rule: warm_peers.induct) (simp_all add: upsert_warm_frame)

lemma upsert_warm_wf:
  assumes "db_wf d"
  shows "db_wf (snd (upsert_warm env peer sid d))"
proof (cases "se_err env = None \<and> sid \<in> sr_session_id ` set (db_sessions d)")
  case True
  let ?new = "\<lparr>wr_node_peer_id = peer, wr_session_id = sid, wr_last_served_at = se_now env, wr_cache_tier = ''gpu''\<rparr>"
  let ?f = "\<lambda>w. w\<lparr>wr_last_served_at := se_now env, wr_cache_tier := ''gpu''\<rparr>"
  let ?t = "upsert_by warm_key ?new ?f (db_node_session_cache d)"
  have k: "warm_key (?f w) = warm_key w" for w by (simp add: warm_key_def)
  have "distinct (map warm_key ?t)"
    using assms by (intro upsert_by_distinct k) (simp add: db_wf_def)
  moreover have "list_all (\<lambda>w. wr_session_id w \<in> sr_session_id ` set (db_sessions d)) ?t"
    using assms True
    by (auto simp: upsert_by_def db_wf_def list_all_iff set_update_where)
  ultimately show ?thesis
    using assms True by (simp add: upsert_warm_def db_wf_def)
qed (use assms in \<open>auto simp: upsert_warm_def split: option.split\<close>)

lemma warm_peers_wf [simp]: "db_wf d \<Longrightarrow> db_wf (warm_peers env i sid peers d)"
  by (induction env i sid peers d rule: warm_peers.induct) (simp_all add: upsert_warm_wf)

lemma mark_warm_frame [simp]:
  "el_bid_subscribers (mark_warm e r m st) = el_bid_subscribers st"
  "el_peer_registry (mark_warm e r m st) = el_peer_registry st"
  "el_archive (mark_warm e r m st) = el_archive st"
  "el_settlement (mark_warm e r m st) = el_settlement st"
  "el_in_flight (mark_warm e r m st) = el_in_flight st"
  "el_pending_inference (mark_warm e r m st) = el_pending_inference st"
  "map_option db_payments (el_pg_pool (mark_warm e r m st)) = map_option db_payments (el_pg_pool st)"
  by (simp_all add: mark_warm_def split: option.split)

lemma persist_payments_frame [simp]:
  "el_bid_subscribers (persist_payments C e rid ls r st) = el_bid_subscribers st"
  "el_peer_registry (persist_payments C e rid ls r st) = el_peer_registry st"
  "el_archive (persist_payments C e rid ls r st) = el_archive st"
  "el_in_flight (persist_payments C e rid ls r st) = el_in_flight st"
  "el_pending_inference (persist_payments C e rid ls r st) = el_pending_inference st"
  by (simp_all add: persist_payments_def split: option.split prod.split sum.split)

lemma persist_payments_Nil [simp]: "persist_payments C e rid [] r st = st"
  by (simp add: persist_payments_def split: option.split)

section \<open>The verdict on an ack\<close>

definition ack_valid :: "loop_codec \<Rightarrow> completion_ack \<Rightarrow> bool" where
  "ack_valid C ack \<longleftrightarrow>
     ack_verify_primary (lc_sha256 C) (lc_proof_json C) (lc_ack_json C) (lc_ed C) ack = Inr () \<and>
     ack_verify_all_proofs (lc_proof_json C) (lc_ed C) ack = Inr ()"

lemma handle_completion_ack_invalid:
  assumes "\<not> ack_valid C ack"
  shows "\<exists>reason. handle_completion_ack C e sender ack st = (completion_rejected reason, st)"
  using assms
  by (auto simp: handle_completion_ack_def ack_valid_def split: sum.split)

text \<open>The state in which a valid ack's receipt is stored.\<close>

definition consumed :: "uuid \<Rightarrow> event_loop \<Rightarrow> event_loop" where
  "consumed rid st = st\<lparr>el_in_flight := (el_in_flight st)(rid := None)\<rparr>"

lemma handle_completion_ack_valid:
  assumes "ack_valid C ack"
    and "meta = el_in_flight st (ca_request_id ack)"
    and "receipt = receipt_of_ack C (ae_now_ms e) sender ack meta"
  shows "handle_completion_ack C e sender ack st =
    (case archive_put (lc_receipt C) (ae_archive e) receipt (el_archive st) of
       (Inl _, a) \<Rightarrow> (completion_rejected ''storage error'', consumed (ca_request_id ack) st)
     | (Inr _, a) \<Rightarrow>
         (completion_ok receipt,
          persist_payments C e (ca_request_id ack) (compute_payouts ack (meta_addresses meta)) receipt
            (mark_warm e receipt meta ((consumed (ca_request_id ack) st)\<lparr>el_archive := a\<rparr>))))"
proof -
  have "a = el_archive st" if "archive_put (lc_receipt C) (ae_archive e) receipt (el_archive st) = (Inl x, a)" for x a
    using that by (rule archive.put_error)
  then show ?thesis
    using assms by (auto simp: handle_completion_ack_def ack_valid_def consumed_def Let_def split: prod.split sum.split)
qed

lemma receipt_of_ack_simps [simp]:
  "rr_request_id (receipt_of_ack C now sender ack meta) = ca_request_id ack"
  "rr_payouts (receipt_of_ack C now sender ack meta) = payouts_of_lines (compute_payouts ack (meta_addresses meta))"
  "rr_coordinator_pubkey (receipt_of_ack C now sender ack meta) = vk_of (lc_ed C) (lc_key C)"
  "rr_client_id (receipt_of_ack C now sender ack meta) = meta_client_id meta"
  "rr_bid_set_hash (receipt_of_ack C now sender ack meta) = meta_bid_set_hash meta"
  by (simp_all add: receipt_of_ack_def)

lemma receipt_of_ack_verifies:
  "ed25519_correct (lc_ed C) \<Longrightarrow>
     receipt_verify (lc_hex_decode C) (lc_bcs C) (lc_ed C) (receipt_of_ack C now sender ack meta) = Inr ()"
  unfolding receipt_of_ack_def by (rule receipt.sign_verify)

lemma meta_None [simp]:
  "meta_addresses None = Map.empty" "meta_client_id None = []" "meta_bid_set_hash None = zeros32"
  by (simp_all add: meta_addresses_def meta_client_id_def meta_bid_set_hash_def)

lemma payouts_of_lines_eq [simp]: "payouts_of_lines ls = [] \<longleftrightarrow> ls = []"
  by (simp add: payouts_of_lines_def)

section \<open>A concrete loop\<close>

definition sample_codec :: loop_codec where
  "sample_codec =
     \<lparr>lc_ed = sample_ed, lc_key = [9], lc_sha256 = sample_sha256, lc_proof_json = sample_proof_json,
      lc_ack_json = sample_ack_json, lc_hex_decode = sample_hex_decode, lc_bcs = sample_bcs,
      lc_receipt = sample_receipt_codec, lc_receipt_to_str = (\<lambda>r. Some (rr_client_id r)),
      lc_peer_to_str = (\<lambda>p. case p of PeerId b \<Rightarrow> map (\<lambda>x. char_of (unat x)) b),
      lc_bid_from_slice = (\<lambda>_. None), lc_caps_from_slice = (\<lambda>_. None), lc_request_to_vec = (\<lambda>_. Some []),
      lc_with_p2p = (\<lambda>a. a)\<rparr>"

definition sample_ack_env :: ack_env where
  "sample_ack_env = \<lparr>ae_now_ms = 1700000000000, ae_archive = sample_env 0, ae_warm = sample_env,
     ae_insert = sample_env, ae_try_send = True\<rparr>"

definition broken_storage_env :: ack_env where
  "broken_storage_env = sample_ack_env\<lparr>ae_archive := (sample_env 0)\<lparr>se_err := Some ''io''\<rparr>\<rparr>"

definition sample_meta :: in_flight_meta where
  "sample_meta = \<lparr>ifm_client_id = [], ifm_bid_set_hash = zeros32,
     ifm_payout_addresses = [''12D3KooWPeerNode1'' \<mapsto> ''0x0abc''], ifm_session_id = Uuid [7]\<rparr>"

definition sample_loop :: event_loop where
  "sample_loop = (with_pg_and_settlement (registry_new 600000) (PgArchive []) (Some db_empty) (Some []))
     \<lparr>el_in_flight := [Uuid (replicate 16 0) \<mapsto> sample_meta]\<rparr>"

definition signed_ack :: completion_ack where
  "signed_ack = ack_sign sample_sha256 sample_proof_json sample_ack_json sample_ed [2] sample_ack"

lemma signed_ack_valid: "ack_valid sample_codec signed_ack"
proof -
  have "ack_verify_primary sample_sha256 sample_proof_json sample_ack_json sample_ed signed_ack = Inr ()"
    unfolding signed_ack_def by (rule ack.sign_verify) simp
  moreover have "proof_verify sample_proof_json sample_ed (proof_sign sample_proof_json sample_ed [1] sample_proof) = Inr ()"
    by (rule poi.sign_verify) simp
  then have "ack_verify_all_proofs sample_proof_json sample_ed signed_ack = Inr ()"
    by (simp add: ack_verify_all_proofs_def signed_ack_def sample_ack_def)
  ultimately show ?thesis by (simp add: ack_valid_def sample_codec_def)
qed

lemma sample_codec_simps [simp]: "lc_ed sample_codec = sample_ed" "lc_receipt sample_codec = sample_receipt_codec"
  by (simp_all add: sample_codec_def)

lemma sample_storage:
  "fst (archive_put sample_receipt_codec (ae_archive sample_ack_env) r (PgArchive rows)) = Inr ()"
  "archive_put sample_receipt_codec (ae_archive broken_storage_env) r (PgArchive rows) = (Inl ''io'', PgArchive rows)"
  by (simp_all add: archive_put_def pg_put_def sample_ack_env_def broken_storage_env_def sample_env_def sample_receipt_codec_def)

lemma signed_ack_request [simp]: "ca_request_id signed_ack = Uuid (replicate 16 0)"
  by (simp add: signed_ack_def) (simp add: sample_ack_def)

lemma sample_loop_simps [simp]:
  "el_in_flight sample_loop (Uuid (replicate 16 0)) = Some sample_meta" "el_pg_pool sample_loop = Some db_empty"
  "el_settlement sample_loop = Some []" "el_archive sample_loop = PgArchive []"
  by (simp_all add: sample_loop_def with_pg_and_settlement_def)

lemma sample_payouts: "length (rr_payouts (receipt_of_ack sample_codec now sender signed_ack (Some sample_meta))) = 1"
  by (simp add: payouts_of_lines_def compute_payouts_def List.map_filter_def payout_of_proof_def meta_addresses_def
      sample_meta_def signed_ack_def sample_ack_def proof_sign_def sample_proof_def Let_def)

section \<open>Rejected acks\<close>

text \<open>
  C8: An ack whose primary signature or any of whose proofs does not verify is answered with a rejection
  and changes nothing: no receipt, no payment row, no settlement job, and the request stays in flight.
\<close>

theorem invalid_ack_changes_nothing:
  assumes "ack_verify_primary (lc_sha256 C) (lc_proof_json C) (lc_ack_json C) (lc_ed C) ack \<noteq> Inr () \<or>
           ack_verify_all_proofs (lc_proof_json C) (lc_ed C) ack \<noteq> Inr ()"
  shows "snd (handle_completion_ack C e sender ack st) = st \<and>
         \<not> cr_accepted (fst (handle_completion_ack C e sender ack st)) \<and>
         cr_routing_receipt (fst (handle_completion_ack C e sender ack st)) = None"
  using handle_completion_ack_invalid [of C ack e sender st] assms
  by (auto simp: ack_valid_def completion_rejected_def)

lemma invalid_ack_changes_nothing_witness:
  "snd (handle_completion_ack sample_codec sample_ack_env (PeerId [1]) (signed_ack\<lparr>ca_signature := []\<rparr>) sample_loop) =
     sample_loop"
proof -
  have "ack_verify_primary (lc_sha256 sample_codec) (lc_proof_json sample_codec) (lc_ack_json sample_codec)
      (lc_ed sample_codec) (signed_ack\<lparr>ca_signature := []\<rparr>) \<noteq> Inr ()"
    by (simp add: ack_verify_primary_def verify_sig_def sample_ed_def)
  then show ?thesis using invalid_ack_changes_nothing by blast
qed

section \<open>Accepted acks\<close>

lemma new_rows_payouts:
  "map (\<lambda>r. \<lparr>po_sui_address = pr_payee_sui_address r, po_amount_nanox = pr_amount_nanox r\<rparr>) (new_rows env i rid lines) =
     payouts_of_lines lines"
  by (induction lines arbitrary: i) (simp_all add: payouts_of_lines_def pending_row_def)

lemma new_rows_pending: "list_all (is_pending rid) (new_rows env i rid lines)"
  by (induction lines arbitrary: i) (simp_all add: is_pending_def pending_row_def)

lemma insert_pending_all:
  assumes "\<forall>i. se_err (env i) = None" "fresh_ids env 0 (length lines) (db_payments d)"
  shows "insert_pending env rid lines d = (Inr (), d\<lparr>db_payments := db_payments d @ new_rows env 0 rid lines\<rparr>)"
proof -
  obtain r d' where i: "insert_pending_from env 0 rid lines d = (r, d')"
    by (cases "insert_pending_from env 0 rid lines d")
  obtain n where "n \<le> length lines" "db_payments d' = db_payments d @ new_rows env 0 rid (take n lines)"
      "case r of Inr _ \<Rightarrow> n = length lines | Inl e \<Rightarrow> n < length lines \<and> se_err (env (0 + n)) = Some e"
    using insert_pending_from_prefix [OF i assms(2)] by blast
  then show ?thesis
    using assms(1) insert_pending_from_frame [OF i] i by (auto simp: insert_pending_def split: sum.splits)
qed

lemma accepted_ack_state:
  assumes "ack_valid C ack"
    and "el_in_flight st (ca_request_id ack) = Some m" and "el_pg_pool st = Some d"
    and "receipt = receipt_of_ack C (ae_now_ms e) sender ack (Some m)"
    and "fst (archive_put (lc_receipt C) (ae_archive e) receipt (el_archive st)) = Inr ()"
    and "\<forall>i. se_err (ae_insert e i) = None"
    and "fresh_ids (ae_insert e) 0 (length (rr_payouts receipt)) (db_payments d)"
    and "handle_completion_ack C e sender ack st = (resp, st')"
  shows "resp = completion_ok receipt"
    and "archive_put (lc_receipt C) (ae_archive e) receipt (el_archive st) = (Inr (), el_archive st')"
    and "el_in_flight st' (ca_request_id ack) = None"
    and "map_option db_payments (el_pg_pool st') = Some (db_payments d @
           new_rows (ae_insert e) 0 (ca_request_id ack) (compute_payouts ack (meta_addresses (Some m))))"
    and "el_settlement st' = (if rr_payouts receipt = [] \<or> \<not> ae_try_send e then el_settlement st
           else map_option (\<lambda>q. q @ [settlement_job_of C receipt (ca_request_id ack)]) (el_settlement st))"
proof -
  let ?rid = "ca_request_id ack" and ?lines = "compute_payouts ack (meta_addresses (Some m))"
  obtain a where a: "archive_put (lc_receipt C) (ae_archive e) receipt (el_archive st) = (Inr (), a)"
    using assms(5) by (cases "archive_put (lc_receipt C) (ae_archive e) receipt (el_archive st)") auto
  let ?st = "mark_warm e receipt (Some m) ((consumed ?rid st)\<lparr>el_archive := a\<rparr>)"
  have res: "resp = completion_ok receipt" "st' = persist_payments C e ?rid ?lines receipt ?st"
    using handle_completion_ack_valid [OF assms(1) assms(2) [symmetric] assms(4)] a assms(8) by auto
  obtain d1 where d1: "el_pg_pool ?st = Some d1" "db_payments d1 = db_payments d"
    using assms(3) by (simp add: mark_warm_def consumed_def)
  have len: "length ?lines = length (rr_payouts receipt)"
    by (simp add: assms(4) payouts_of_lines_def)
  have ins: "insert_pending (ae_insert e) ?rid ?lines d1 =
      (Inr (), d1\<lparr>db_payments := db_payments d @ new_rows (ae_insert e) 0 ?rid ?lines\<rparr>)"
    using insert_pending_all [OF assms(6), of ?lines d1 ?rid] assms(7) len d1(2) by simp
  show "resp = completion_ok receipt" by (rule res(1))
  show "archive_put (lc_receipt C) (ae_archive e) receipt (el_archive st) = (Inr (), el_archive st')"
    "el_in_flight st' ?rid = None" by (simp_all add: res a consumed_def)
  show "map_option db_payments (el_pg_pool st') = Some (db_payments d @ new_rows (ae_insert e) 0 ?rid ?lines)"
    using ins d1 by (simp add: res persist_payments_def)
  show "el_settlement st' = (if rr_payouts receipt = [] \<or> \<not> ae_try_send e then el_settlement st
      else map_option (\<lambda>q. q @ [settlement_job_of C receipt ?rid]) (el_settlement st))"
    using ins d1 by (auto simp: res persist_payments_def consumed_def assms(4) map_option_case split: option.split)
qed

text \<open>
  C4: A valid ack for a request in flight, with the archive and the payment inserts executing, fresh
  row ids and a receipt that serde stores faithfully, is accepted with a receipt that verifies under
  the enclave key and is what the archive now returns for the request. The payments table gains
  exactly one pending row per payout of that signed receipt, in order, with the same address and
  amount, and the request is no longer in flight. One settlement job carrying the receipt is queued
  exactly when there is a payout, a settlement worker is attached and its channel has room; otherwise
  the queue is unchanged.
\<close>

theorem accepted_ack_books_receipt_payouts:
  assumes "ed25519_correct (lc_ed C)" and "ack_valid C ack"
    and "el_in_flight st (ca_request_id ack) = Some m" and "el_pg_pool st = Some d"
    and "receipt = receipt_of_ack C (ae_now_ms e) sender ack (Some m)"
    and "fst (archive_put (lc_receipt C) (ae_archive e) receipt (el_archive st)) = Inr ()"
    and "storable (lc_receipt C) receipt"
    and "\<forall>i. se_err (ae_insert e i) = None"
    and "fresh_ids (ae_insert e) 0 (length (rr_payouts receipt)) (db_payments d)"
    and "handle_completion_ack C e sender ack st = (resp, st')"
  shows "resp = completion_ok receipt \<and>
    receipt_verify (lc_hex_decode C) (lc_bcs C) (lc_ed C) receipt = Inr () \<and>
    (\<forall>f. se_err f = None \<longrightarrow> archive_get (lc_receipt C) f (ca_request_id ack) (el_archive st') = Inr (Some receipt)) \<and>
    el_in_flight st' (ca_request_id ack) = None \<and>
    (\<exists>rows. map_option db_payments (el_pg_pool st') = Some (db_payments d @ rows) \<and>
       list_all (is_pending (ca_request_id ack)) rows \<and>
       map (\<lambda>r. \<lparr>po_sui_address = pr_payee_sui_address r, po_amount_nanox = pr_amount_nanox r\<rparr>) rows = rr_payouts receipt) \<and>
    el_settlement st' =
      (case el_settlement st of
         None \<Rightarrow> None
       | Some q \<Rightarrow> Some (if rr_payouts receipt \<noteq> [] \<and> ae_try_send e
           then q @ [settlement_job_of C receipt (ca_request_id ack)] else q))"
proof -
  note eff = accepted_ack_state [OF assms(2-6,8-10)]
  have "archive_get (lc_receipt C) f (ca_request_id ack) (el_archive st') = Inr (Some receipt)" if "se_err f = None" for f
    using archive.get_put_same [OF eff(2) assms(7) that] by (simp add: assms(5))
  moreover have "receipt_verify (lc_hex_decode C) (lc_bcs C) (lc_ed C) receipt = Inr ()"
    using receipt_of_ack_verifies [OF assms(1)] by (simp add: assms(5))
  moreover have "el_settlement st' =
      (case el_settlement st of
         None \<Rightarrow> None
       | Some q \<Rightarrow> Some (if rr_payouts receipt \<noteq> [] \<and> ae_try_send e
           then q @ [settlement_job_of C receipt (ca_request_id ack)] else q))"
    by (simp add: eff(5) split: option.split)
  ultimately show ?thesis
    using eff(1-4) new_rows_pending new_rows_payouts by (simp add: assms(5)) blast
qed

lemma accepted_ack_books_receipt_payouts_witness:
  "let (resp, st') = handle_completion_ack sample_codec sample_ack_env (PeerId [1]) signed_ack sample_loop
   in cr_accepted resp \<and> el_in_flight st' (Uuid (replicate 16 0)) = None \<and>
      length (the (el_settlement st')) = 1 \<and>
      (\<exists>rows. map_option db_payments (el_pg_pool st') = Some (db_payments db_empty @ rows) \<and>
         map (\<lambda>r. \<lparr>po_sui_address = pr_payee_sui_address r, po_amount_nanox = pr_amount_nanox r\<rparr>) rows =
           rr_payouts (receipt_of_ack sample_codec 1700000000000 (PeerId [1]) signed_ack (Some sample_meta)))"
proof -
  obtain resp st' where h: "handle_completion_ack sample_codec sample_ack_env (PeerId [1]) signed_ack sample_loop = (resp, st')"
    by (cases "handle_completion_ack sample_codec sample_ack_env (PeerId [1]) signed_ack sample_loop")
  let ?r = "receipt_of_ack sample_codec (ae_now_ms sample_ack_env) (PeerId [1]) signed_ack (Some sample_meta)"
  have fresh: "fresh_ids (ae_insert sample_ack_env) 0 (length (rr_payouts ?r)) (db_payments db_empty)"
    unfolding sample_payouts by (simp add: fresh_ids_def db_empty_def)
  have ne: "rr_payouts ?r \<noteq> []" using sample_payouts by (metis list.size(3) zero_neq_one)
  have "resp = completion_ok ?r \<and> el_in_flight st' (ca_request_id signed_ack) = None \<and>
      el_settlement st' = Some [settlement_job_of sample_codec ?r (ca_request_id signed_ack)] \<and>
      (\<exists>rows. map_option db_payments (el_pg_pool st') = Some (db_payments db_empty @ rows) \<and>
         map (\<lambda>r. \<lparr>po_sui_address = pr_payee_sui_address r, po_amount_nanox = pr_amount_nanox r\<rparr>) rows = rr_payouts ?r)"
    using accepted_ack_books_receipt_payouts [OF _ signed_ack_valid _ _ refl _ _ _ fresh h] ne
      sample_storage(1) by (auto simp: sample_ack_env_def sample_env_def simp del: receipt_of_ack_simps)
  then show ?thesis by (simp add: h completion_ok_def)
qed

section \<open>Replays\<close>

lemma ack_not_in_flight:
  assumes "el_in_flight st (ca_request_id ack) = None"
    and "handle_completion_ack C e sender ack st = (resp, st')"
  shows "el_settlement st' = el_settlement st"
    and "map_option db_payments (el_pg_pool st') = map_option db_payments (el_pg_pool st)"
    and "el_in_flight st' = el_in_flight st"
proof -
  have "el_settlement st' = el_settlement st \<and>
      map_option db_payments (el_pg_pool st') = map_option db_payments (el_pg_pool st) \<and> el_in_flight st' = el_in_flight st"
  proof (cases "ack_valid C ack")
    case False
    then show ?thesis using handle_completion_ack_invalid [of C ack e sender st] assms(2) by auto
  next
    case True
    have nf: "(el_in_flight st)(ca_request_id ack := None) = el_in_flight st"
      using assms(1) by auto
    show ?thesis
      using handle_completion_ack_valid [OF True assms(1) [symmetric] refl, of e sender] assms(2) nf
      by (auto simp: consumed_def split: prod.splits sum.splits)
  qed
  then show "el_settlement st' = el_settlement st"
    "map_option db_payments (el_pg_pool st') = map_option db_payments (el_pg_pool st)"
    "el_in_flight st' = el_in_flight st" by simp_all
qed

lemma valid_ack_consumes:
  assumes "ack_valid C ack" "handle_completion_ack C e sender ack st = (resp, st')"
  shows "el_in_flight st' (ca_request_id ack) = None"
  using handle_completion_ack_valid [OF assms(1) refl refl, of e sender st] assms(2)
  by (auto simp: consumed_def split: prod.splits sum.splits)

text \<open>
  C7: A request is paid for by at most one ack. Once a valid ack for a request has been handled, whether
  it was accepted or met a storage error, every further ack for the same request, from whomever and with
  whatever proofs, adds no payment row and queues no settlement job.
\<close>

theorem replayed_ack_pays_nothing:
  assumes "ack_valid C ack" and "handle_completion_ack C e sender ack st = (resp, st1)"
    and "ca_request_id ack' = ca_request_id ack"
    and "handle_completion_ack C e' sender' ack' st1 = (resp', st2)"
  shows "map_option db_payments (el_pg_pool st2) = map_option db_payments (el_pg_pool st1) \<and>
         el_settlement st2 = el_settlement st1"
  using ack_not_in_flight [of st1 ack' C e' sender' resp' st2] valid_ack_consumes [OF assms(1,2)] assms(3,4)
  by simp

lemma replayed_ack_pays_nothing_witness:
  "let st1 = snd (handle_completion_ack sample_codec sample_ack_env (PeerId [1]) signed_ack sample_loop);
       st2 = snd (handle_completion_ack sample_codec sample_ack_env (PeerId [2]) signed_ack st1)
   in el_settlement st2 = el_settlement st1"
  using replayed_ack_pays_nothing [OF signed_ack_valid surjective_pairing refl surjective_pairing]
  by (simp add: Let_def)

text \<open>The archive after an accepted ack.\<close>

lemma accepted_ack_archived:
  assumes "ack_valid C ack" and "receipt = receipt_of_ack C (ae_now_ms e) sender ack (el_in_flight st (ca_request_id ack))"
    and "fst (archive_put (lc_receipt C) (ae_archive e) receipt (el_archive st)) = Inr ()"
    and "storable (lc_receipt C) receipt" and "se_err f = None"
    and "handle_completion_ack C e sender ack st = (resp, st')"
  shows "resp = completion_ok receipt"
    and "archive_get (lc_receipt C) f (ca_request_id ack) (el_archive st') = Inr (Some receipt)"
proof -
  obtain a where a: "archive_put (lc_receipt C) (ae_archive e) receipt (el_archive st) = (Inr (), a)"
    using assms(3) by (cases "archive_put (lc_receipt C) (ae_archive e) receipt (el_archive st)") auto
  have res: "resp = completion_ok receipt" "el_archive st' = a"
    using handle_completion_ack_valid [OF assms(1) refl assms(2)] a assms(6) by auto
  then show "resp = completion_ok receipt"
    "archive_get (lc_receipt C) f (ca_request_id ack) (el_archive st') = Inr (Some receipt)"
    using archive.get_put_same [OF a assms(4,5)] by (simp_all add: assms(2))
qed

text \<open>
  C37: A replayed ack is nevertheless accepted and overwrites the archived receipt. A valid ack for a
  request in flight was accepted and its receipt, with payouts, is what the archive returns; the next
  ack for the same request is valid too (the same one again, or another) and the archive stores it.
  Then it is accepted as well, the archive now returns a receipt for the request without any payout that
  verifies under the enclave key, and the payment rows of the first ack stay as they were.
\<close>

theorem replayed_ack_erases_payouts:
  assumes "ed25519_correct (lc_ed C)" and "ack_valid C ack" and "el_in_flight st (ca_request_id ack) = Some m"
    and "first = receipt_of_ack C (ae_now_ms e) sender ack (Some m)" and "rr_payouts first \<noteq> []"
    and "fst (archive_put (lc_receipt C) (ae_archive e) first (el_archive st)) = Inr ()"
    and "storable (lc_receipt C) first" and "handle_completion_ack C e sender ack st = (resp, st1)"
    and "ack_valid C ack'" and "ca_request_id ack' = ca_request_id ack"
    and "second = receipt_of_ack C (ae_now_ms e') sender' ack' None"
    and "fst (archive_put (lc_receipt C) (ae_archive e') second (el_archive st1)) = Inr ()"
    and "storable (lc_receipt C) second" and "handle_completion_ack C e' sender' ack' st1 = (resp', st2)"
    and "se_err f = None"
  shows "archive_get (lc_receipt C) f (ca_request_id ack) (el_archive st1) = Inr (Some first) \<and> rr_payouts first \<noteq> [] \<and>
    cr_accepted resp' \<and>
    archive_get (lc_receipt C) f (ca_request_id ack) (el_archive st2) = Inr (Some second) \<and> rr_payouts second = [] \<and>
    receipt_verify (lc_hex_decode C) (lc_bcs C) (lc_ed C) second = Inr () \<and>
    map_option db_payments (el_pg_pool st2) = map_option db_payments (el_pg_pool st1)"
proof -
  have nf: "el_in_flight st1 (ca_request_id ack') = None"
    using valid_ack_consumes [OF assms(2,8)] assms(10) by simp
  have one: "archive_get (lc_receipt C) f (ca_request_id ack) (el_archive st1) = Inr (Some first)"
    using accepted_ack_archived(2) [OF assms(2) _ assms(6,7,15,8)] assms(3,4) by simp
  have two: "resp' = completion_ok second"
    "archive_get (lc_receipt C) f (ca_request_id ack) (el_archive st2) = Inr (Some second)"
    using accepted_ack_archived [OF assms(9) _ assms(12,13,15,14)] assms(10,11) nf by simp_all
  show ?thesis
    using one two assms(5) ack_not_in_flight(2) [OF nf assms(14)] receipt_of_ack_verifies [OF assms(1)]
    by (simp add: completion_ok_def assms(11))
qed

lemma replayed_ack_erases_payouts_witness:
  "let st1 = snd (handle_completion_ack sample_codec sample_ack_env (PeerId [1]) signed_ack sample_loop);
       st2 = snd (handle_completion_ack sample_codec sample_ack_env (PeerId [2]) signed_ack st1);
       archived = (\<lambda>st. archive_get sample_receipt_codec (sample_env 0) (ca_request_id signed_ack) (el_archive st))
   in \<exists>first second. archived st1 = Inr (Some first) \<and> length (rr_payouts first) = 1 \<and>
        archived st2 = Inr (Some second) \<and> rr_payouts second = []"
proof -
  let ?first = "receipt_of_ack sample_codec (ae_now_ms sample_ack_env) (PeerId [1]) signed_ack (Some sample_meta)"
  let ?second = "receipt_of_ack sample_codec (ae_now_ms sample_ack_env) (PeerId [2]) signed_ack None"
  obtain resp st1 where h1: "handle_completion_ack sample_codec sample_ack_env (PeerId [1]) signed_ack sample_loop = (resp, st1)"
    by fastforce
  obtain resp' st2 where h2: "handle_completion_ack sample_codec sample_ack_env (PeerId [2]) signed_ack st1 = (resp', st2)"
    by fastforce
  have ne: "rr_payouts ?first \<noteq> []" using sample_payouts by (metis list.size(3) zero_neq_one)
  have "\<exists>rows. el_archive st1 = PgArchive rows"
    using handle_completion_ack_valid [OF signed_ack_valid refl refl, of sample_ack_env "PeerId [1]" sample_loop] h1
    by (auto simp: archive_put_def map_prod_def consumed_def simp del: receipt_of_ack_simps split: prod.splits sum.splits)
  then have put: "fst (archive_put (lc_receipt sample_codec) (ae_archive sample_ack_env) ?second (el_archive st1)) = Inr ()"
    using sample_storage(1) by auto
  have "archive_get (lc_receipt sample_codec) (sample_env 0) (ca_request_id signed_ack) (el_archive st1) = Inr (Some ?first) \<and>
    archive_get (lc_receipt sample_codec) (sample_env 0) (ca_request_id signed_ack) (el_archive st2) = Inr (Some ?second) \<and>
    rr_payouts ?second = []"
    using replayed_ack_erases_payouts [OF _ signed_ack_valid _ refl ne _ _ h1 signed_ack_valid refl refl put _ h2, of "sample_env 0"]
      sample_storage(1) by (simp add: sample_env_def del: receipt_of_ack_simps)
  then show ?thesis using h1 h2 sample_payouts by (simp add: Let_def del: receipt_of_ack_simps)
qed

text \<open>
  C38: A storage error loses the request's payouts: the valid ack is answered with a rejection, but the
  in-flight entry has been consumed, so the retry of the same ack, now with storage available, is
  accepted with a receipt without payouts and books no payment.
\<close>

theorem storage_error_loses_payouts:
  assumes "ack_valid C ack"
    and "fst (archive_put (lc_receipt C) (ae_archive e)
           (receipt_of_ack C (ae_now_ms e) sender ack (el_in_flight st (ca_request_id ack))) (el_archive st)) = Inl x"
    and "handle_completion_ack C e sender ack st = (resp, st1)"
    and "fst (archive_put (lc_receipt C) (ae_archive e')
           (receipt_of_ack C (ae_now_ms e') sender ack None) (el_archive st1)) = Inr ()"
    and "handle_completion_ack C e' sender ack st1 = (resp', st2)"
  shows "resp = completion_rejected ''storage error'' \<and> cr_accepted resp' \<and>
    map_option rr_payouts (cr_routing_receipt resp') = Some [] \<and>
    map_option db_payments (el_pg_pool st2) = map_option db_payments (el_pg_pool st)"
proof -
  have one: "resp = completion_rejected ''storage error''" "st1 = consumed (ca_request_id ack) st"
    using handle_completion_ack_valid [OF assms(1) refl refl, of e sender st] assms(2,3)
    by (auto split: prod.splits sum.splits)
  have nf: "el_in_flight st1 (ca_request_id ack) = None" by (simp add: one consumed_def)
  have "resp' = completion_ok (receipt_of_ack C (ae_now_ms e') sender ack None)"
    using handle_completion_ack_valid [OF assms(1) nf [symmetric] refl, of e' sender] assms(4,5)
    by (auto split: prod.splits sum.splits)
  moreover have "map_option db_payments (el_pg_pool st2) = map_option db_payments (el_pg_pool st1)"
    using ack_not_in_flight(2) [OF nf assms(5)] .
  ultimately show ?thesis using one by (simp add: completion_ok_def consumed_def)
qed

lemma storage_error_loses_payouts_witness:
  "let st1 = snd (handle_completion_ack sample_codec broken_storage_env (PeerId [1]) signed_ack sample_loop)
   in cr_accepted (fst (handle_completion_ack sample_codec sample_ack_env (PeerId [1]) signed_ack st1))"
proof -
  let ?st1 = "snd (handle_completion_ack sample_codec broken_storage_env (PeerId [1]) signed_ack sample_loop)"
  have "?st1 = consumed (Uuid (replicate 16 0)) sample_loop"
    using handle_completion_ack_valid [OF signed_ack_valid refl refl, of broken_storage_env "PeerId [1]" sample_loop]
      sample_storage(2) [of _ "[]"] by simp
  then have "el_archive ?st1 = PgArchive []" by (simp add: consumed_def)
  then show ?thesis
    using storage_error_loses_payouts [OF signed_ack_valid _ surjective_pairing _ surjective_pairing,
        of broken_storage_env "PeerId [1]" sample_loop "''io''" sample_ack_env] sample_storage
    by (simp add: Let_def)
qed

section \<open>Who may complete a request\<close>



end
