(* ===== verification/Event_Loop_Invariants.thy ===== *)
theory Event_Loop_Invariants
  imports Event_Loop_Props
begin

text \<open>
  Invariants of every execution of the event loop, by rule induction on its steps: the archived and
  queued receipts are the enclave's own, the bid channels carry only the bids of their request and
  stay within their capacity, and the registry and the database keep their keys; then the routing of
  bids and replies.
\<close>

section \<open>The invariant\<close>

text \<open>A receipt this coordinator issued for a request.\<close>

definition issued :: "loop_codec \<Rightarrow> uuid \<Rightarrow> routing_receipt \<Rightarrow> bool" where
  "issued C rid r \<longleftrightarrow>
     rr_request_id r = rid \<and> rr_coordinator_pubkey r = vk_of (lc_ed C) (lc_key C) \<and>
     receipt_verify (lc_hex_decode C) (lc_bcs C) (lc_ed C) r = Inr () \<and>
     rr_client_id r = [] \<and> rr_bid_set_hash r = zeros32"

definition meta_ok :: "in_flight_meta \<Rightarrow> bool" where
  "meta_ok m \<longleftrightarrow> ifm_client_id m = [] \<and> ifm_bid_set_hash m = zeros32"

definition archive_ok :: "loop_codec \<Rightarrow> archive \<Rightarrow> bool" where
  "archive_ok C a \<longleftrightarrow> (\<forall>f rid r. archive_get (lc_receipt C) f rid a = Inr (Some r) \<longrightarrow> issued C rid r)"

definition job_ok :: "loop_codec \<Rightarrow> settlement_job \<Rightarrow> bool" where
  "job_ok C j \<longleftrightarrow> (\<exists>r. issued C (sj_request_id j) r \<and> rr_payouts r \<noteq> [] \<and> j = settlement_job_of C r (sj_request_id j))"

definition channel_ok :: "uuid \<Rightarrow> bid_channel \<Rightarrow> bool" where
  "channel_ok rid ch \<longleftrightarrow> length (bc_queue ch) \<le> BID_CHANNEL_CAPACITY \<and> list_all (\<lambda>b. bid_request_id b = rid) (bc_queue ch)"

definition loop_inv :: "loop_codec \<Rightarrow> event_loop \<Rightarrow> bool" where
  "loop_inv C st \<longleftrightarrow>
     (\<forall>m\<in>ran (el_in_flight st). meta_ok m) \<and>
     archive_ok C (el_archive st) \<and>
     (\<forall>q. el_settlement st = Some q \<longrightarrow> list_all (job_ok C) q) \<and>
     (\<forall>rid ch. el_bid_subscribers st rid = Some ch \<longrightarrow> channel_ok rid ch) \<and>
     registry_wf (el_peer_registry st) \<and>
     (\<forall>d. el_pg_pool st = Some d \<longrightarrow> db_wf d)"

section \<open>It is kept\<close>

text \<open>The hypotheses on the parameters: signatures verify, and serde's conversion gives a receipt back.\<close>

definition codec_ok :: "loop_codec \<Rightarrow> bool" where
  "codec_ok C \<longleftrightarrow> ed25519_correct (lc_ed C) \<and> (\<forall>r. storable (lc_receipt C) r)"

text \<open>A receipt for a request that this enclave key signed.\<close>

definition own_receipt :: "loop_codec \<Rightarrow> uuid \<Rightarrow> routing_receipt \<Rightarrow> bool" where
  "own_receipt C rid r \<longleftrightarrow>
     rr_request_id r = rid \<and> rr_coordinator_pubkey r = vk_of (lc_ed C) (lc_key C) \<and>
     receipt_verify (lc_hex_decode C) (lc_bcs C) (lc_ed C) r = Inr ()"

lemma own_receipt_of_ack:
  "codec_ok C \<Longrightarrow> own_receipt C (ca_request_id ack) (receipt_of_ack C now sender ack meta)"
  using receipt_of_ack_verifies [of C] by (simp add: own_receipt_def codec_ok_def)

lemma archive_get_err: "archive_get C f rid a = Inr (Some r) \<Longrightarrow> archive_get C (f\<lparr>se_err := None\<rparr>) rid a = Inr (Some r)"
  by (cases a) (auto simp: archive_get_def mem_get_def pg_get_def split: option.splits)

lemma archive_put_ok:
  assumes "codec_ok C" "archive_ok C a" "archive_put (lc_receipt C) e r a = (Inr (), a')" "issued C (rr_request_id r) r"
  shows "archive_ok C a'"
  unfolding archive_ok_def
proof (intro allI impI)
  fix f rid r'
  assume g: "archive_get (lc_receipt C) f rid a' = Inr (Some r')"
  show "issued C rid r'"
  proof (cases "rid = rr_request_id r")
    case True
    have "archive_get (lc_receipt C) (f\<lparr>se_err := None\<rparr>) rid a' = Inr (Some r)"
      using archive.get_put_same [OF assms(3), of "f\<lparr>se_err := None\<rparr>"] assms(1) True by (simp add: codec_ok_def)
    with archive_get_err [OF g] have "r' = r" by simp
    then show ?thesis using assms(4) True by simp
  next
    case False
    then show ?thesis
      using archive.get_put_other [OF assms(3) False, of f] g assms(2) by (simp add: archive_ok_def)
  qed
qed

lemma issued_receipt_of_ack:
  assumes "codec_ok C" "\<forall>m\<in>ran fl. meta_ok m"
  shows "issued C (ca_request_id ack) (receipt_of_ack C now sender ack (fl (ca_request_id ack)))"
proof (cases "fl (ca_request_id ack)")
  case None
  then show ?thesis using receipt_of_ack_verifies [of C] assms(1) by (simp add: issued_def codec_ok_def)
next
  case (Some m)
  then have "meta_ok m" using assms(2) by (auto simp: ran_def)
  then show ?thesis using Some receipt_of_ack_verifies [of C] assms(1)
    by (simp add: issued_def codec_ok_def meta_ok_def meta_client_id_def meta_bid_set_hash_def)
qed

lemma mark_warm_pool_wf:
  "\<forall>d. el_pg_pool st = Some d \<longrightarrow> db_wf d \<Longrightarrow> el_pg_pool (mark_warm e r m st) = Some d \<Longrightarrow> db_wf d"
  by (auto simp: mark_warm_def simp del: warm_peers.simps split: option.splits)

lemma persist_pool_wf:
  assumes "\<forall>d. el_pg_pool st = Some d \<longrightarrow> db_wf d" "el_pg_pool (persist_payments C e rid ls r st) = Some d"
  shows "db_wf d"
proof (cases "el_pg_pool st")
  case None
  then show ?thesis using assms by (simp add: persist_payments_def)
next
  case (Some d0)
  then have "db_wf d0" using assms(1) by simp
  with Some show ?thesis
    using assms(2) insert_pending_wf [of d0 "ae_insert e" rid ls]
    by (auto simp: persist_payments_def split: prod.splits sum.splits if_splits)
qed

lemma ack_pool_wf:
  assumes "\<forall>d. el_pg_pool st = Some d \<longrightarrow> db_wf d" "handle_completion_ack C e sender ack st = (resp, st')"
    and "el_pg_pool st' = Some d"
  shows "db_wf d"
proof (cases "ack_valid C ack")
  case False
  then show ?thesis using handle_completion_ack_invalid [of C ack e sender st] assms by auto
next
  case True
  let ?r = "receipt_of_ack C (ae_now_ms e) sender ack (el_in_flight st (ca_request_id ack))"
  obtain x a where put: "archive_put (lc_receipt C) (ae_archive e) ?r (el_archive st) = (x, a)"
    by (cases "archive_put (lc_receipt C) (ae_archive e) ?r (el_archive st)")
  let ?warm = "mark_warm e ?r (el_in_flight st (ca_request_id ack)) ((consumed (ca_request_id ack) st)\<lparr>el_archive := a\<rparr>)"
  have warm: "\<forall>d. el_pg_pool ?warm = Some d \<longrightarrow> db_wf d"
    using mark_warm_pool_wf [of "(consumed (ca_request_id ack) st)\<lparr>el_archive := a\<rparr>"] assms(1)
    by (simp add: consumed_def)
  note eq = handle_completion_ack_valid [OF True refl refl, of e sender st]
  show ?thesis
  proof (cases x)
    case (Inl err)
    with put eq assms show ?thesis by (simp add: consumed_def)
  next
    case (Inr u)
    with put eq assms(2) have "st' = persist_payments C e (ca_request_id ack)
        (compute_payouts ack (meta_addresses (el_in_flight st (ca_request_id ack)))) ?r ?warm" by simp
    then show ?thesis using persist_pool_wf [OF warm] assms(3) by blast
  qed
qed

lemma persist_settlement:
  assumes "el_settlement (persist_payments C e rid ls r st) = Some q"
  obtains q0 where "el_settlement st = Some q0" "q = q0 \<or> ls \<noteq> [] \<and> q = q0 @ [settlement_job_of C r rid]"
  using assms that
  by (auto simp: persist_payments_def split: option.splits prod.splits sum.splits if_splits)

lemma persist_jobs_ok:
  assumes "\<forall>q. el_settlement st = Some q \<longrightarrow> list_all (job_ok C) q" "issued C rid r" "ls \<noteq> [] \<longrightarrow> rr_payouts r \<noteq> []"
    and "el_settlement (persist_payments C e rid ls r st) = Some q"
  shows "list_all (job_ok C) q"
proof -
  obtain q0 where q0: "el_settlement st = Some q0" "q = q0 \<or> ls \<noteq> [] \<and> q = q0 @ [settlement_job_of C r rid]"
    using assms(4) by (rule persist_settlement)
  moreover have "job_ok C (settlement_job_of C r rid)" if "ls \<noteq> []"
    using assms(2,3) that unfolding job_ok_def by (intro exI [of _ r]) (simp add: settlement_job_of_def)
  ultimately show ?thesis using assms(1) by auto
qed

lemma ack_keeps_inv:
  assumes "codec_ok C" "loop_inv C st"
  shows "loop_inv C (snd (handle_completion_ack C e sender ack st))"
proof (cases "ack_valid C ack")
  case False
  then show ?thesis using handle_completion_ack_invalid [of C ack e sender st] assms(2) by auto
next
  case True
  let ?rid = "ca_request_id ack" and ?meta = "el_in_flight st (ca_request_id ack)"
  let ?lines = "compute_payouts ack (meta_addresses ?meta)"
  let ?r = "receipt_of_ack C (ae_now_ms e) sender ack ?meta"
  have iss: "issued C ?rid ?r"
    using assms by (intro issued_receipt_of_ack) (simp_all add: loop_inv_def)
  have fl: "\<forall>m\<in>ran ((el_in_flight st)(?rid := None)). meta_ok m"
    using assms(2) by (auto simp: loop_inv_def ran_def)
  note eq = handle_completion_ack_valid [OF True refl refl, of e sender st]
  obtain x a where put: "archive_put (lc_receipt C) (ae_archive e) ?r (el_archive st) = (x, a)"
    by (cases "archive_put (lc_receipt C) (ae_archive e) ?r (el_archive st)")
  show ?thesis
  proof (cases x)
    case (Inl err)
    with put eq fl assms(2) show ?thesis by (simp add: loop_inv_def consumed_def)
  next
    case (Inr u)
    define st2 where "st2 = mark_warm e ?r ?meta ((consumed ?rid st)\<lparr>el_archive := a\<rparr>)"
    have res: "snd (handle_completion_ack C e sender ack st) = persist_payments C e ?rid ?lines ?r st2"
      using put eq Inr by (simp add: st2_def)
    have "archive_ok C a"
      using archive_put_ok [OF assms(1), of "el_archive st" "ae_archive e" ?r a] put Inr iss assms(2)
      by (simp add: loop_inv_def)
    moreover have "\<forall>d. el_pg_pool ((consumed ?rid st)\<lparr>el_archive := a\<rparr>) = Some d \<longrightarrow> db_wf d"
      using assms(2) by (simp add: loop_inv_def consumed_def)
    then have "\<forall>d. el_pg_pool st2 = Some d \<longrightarrow> db_wf d" using mark_warm_pool_wf unfolding st2_def by blast
    then have "\<forall>d. el_pg_pool (persist_payments C e ?rid ?lines ?r st2) = Some d \<longrightarrow> db_wf d"
      using persist_pool_wf by blast
    moreover have "list_all (job_ok C) q"
      if "el_settlement (persist_payments C e ?rid ?lines ?r st2) = Some q" for q
    proof (rule persist_jobs_ok [OF _ iss _ that])
      show "\<forall>q. el_settlement st2 = Some q \<longrightarrow> list_all (job_ok C) q"
        using assms(2) by (simp add: st2_def loop_inv_def consumed_def)
      show "?lines \<noteq> [] \<longrightarrow> rr_payouts ?r \<noteq> []" by simp
    qed
    ultimately show ?thesis
      using fl assms(2) by (simp add: res loop_inv_def) (simp add: st2_def consumed_def)
  qed
qed

lemma channel_send_ok:
  "channel_ok (bid_request_id b) ch \<Longrightarrow> channel_send b ch = Some ch' \<Longrightarrow> channel_ok (bid_request_id b) ch'"
  by (auto simp: channel_send_def channel_ok_def split: if_splits)

lemma gossip_keeps_inv:
  assumes "loop_inv C st" "handle_gossip_message C now src msg st = Some st'"
  shows "loop_inv C st'"
  using assms
  by (auto simp: handle_gossip_message_def loop_inv_def split: if_splits option.splits) (metis channel_send_ok)

lemma swarm_keeps_inv:
  assumes "codec_ok C" "loop_inv C st" "handle_swarm_event C e event st = Some (out, st')"
  shows "loop_inv C st'"
proof (cases event)
  case (GossipsubMessage src msg)
  then show ?thesis using assms gossip_keeps_inv by (auto simp: handle_swarm_event_def)
next
  case (CompletionRequest peer request)
  then show ?thesis
    using assms ack_keeps_inv [OF assms(1,2), of e peer request] by (auto simp: handle_swarm_event_def split: prod.splits)
qed (use assms in \<open>auto simp: handle_swarm_event_def finish_inference_def loop_inv_def split: option.splits\<close>)

lemma channel_ok_recv: "channel_ok rid ch \<Longrightarrow> bc_queue ch = b # bs \<Longrightarrow> channel_ok rid (ch\<lparr>bc_queue := bs\<rparr>)"
  by (simp add: channel_ok_def)

lemma channel_ok_new: "channel_ok rid \<lparr>bc_queue = [], bc_open = True\<rparr>" "channel_ok rid (ch\<lparr>bc_queue := [], bc_open := False\<rparr>)"
  by (simp_all add: channel_ok_def)

lemma loop_inv_channel:
  "loop_inv C st \<Longrightarrow> channel_ok rid ch \<Longrightarrow> loop_inv C (st\<lparr>el_bid_subscribers := (el_bid_subscribers st)(rid \<mapsto> ch)\<rparr>)"
  by (simp add: loop_inv_def)

lemma ran_upd: "m \<in> ran (f(k \<mapsto> v)) \<Longrightarrow> m = v \<or> m \<in> ran f"
  by (auto simp: ran_def split: if_splits)

lemma loop_inv_in_flight:
  "loop_inv C st \<Longrightarrow> meta_ok m \<Longrightarrow> loop_inv C (st\<lparr>el_in_flight := (el_in_flight st)(rid \<mapsto> m)\<rparr>)"
  by (auto simp: loop_inv_def dest!: ran_upd)

lemma loop_inv_meta: "loop_inv C st \<Longrightarrow> el_in_flight st rid = Some m \<Longrightarrow> meta_ok m"
  by (auto simp: loop_inv_def ran_def)

lemma command_keeps_inv:
  assumes "loop_inv C st" "handle_command C ce c st = (out, st')"
  shows "loop_inv C st'"
proof (cases c)
  case (Publish req tx)
  let ?m = "\<lparr>ifm_client_id = [], ifm_bid_set_hash = zeros32, ifm_payout_addresses = Map.empty,
      ifm_session_id = ireq_session_id req\<rparr>"
  let ?st1 = "st\<lparr>el_in_flight := (el_in_flight st)(ireq_request_id req \<mapsto> ?m)\<rparr>"
  have "loop_inv C ?st1" using assms(1) by (rule loop_inv_in_flight) (simp add: meta_ok_def)
  then have "loop_inv C (?st1\<lparr>el_bid_subscribers := (el_bid_subscribers ?st1)(ireq_request_id req \<mapsto>
      \<lparr>bc_queue = [], bc_open = True\<rparr>)\<rparr>)"
    by (rule loop_inv_channel) (rule channel_ok_new)
  with Publish assms show ?thesis
    by (auto simp: handle_command_def publish_request_def split: option.splits)
next
  case (SetPayoutAddresses rid addrs)
  show ?thesis
  proof (cases "el_in_flight st rid")
    case None
    with SetPayoutAddresses assms show ?thesis by (simp add: handle_command_def)
  next
    case (Some m)
    then have "meta_ok (m\<lparr>ifm_payout_addresses := addrs\<rparr>)"
      using loop_inv_meta [OF assms(1)] by (auto simp: meta_ok_def)
    with Some SetPayoutAddresses assms show ?thesis
      by (auto simp: handle_command_def intro: loop_inv_in_flight)
  qed
qed (use assms in \<open>auto simp: handle_command_def loop_inv_def\<close>)

lemma loop_step_inv:
  assumes "codec_ok C" "loop_step C st st'" "loop_inv C st"
  shows "loop_inv C st'"
  using assms(2)
proof cases
  case (swarm e event out)
  then show ?thesis using assms swarm_keeps_inv by blast
next
  case (cmd ce c out)
  then show ?thesis using assms command_keeps_inv by blast
next
  case (recv_bid rid ch b bs)
  then have "channel_ok rid ch" using assms(3) by (simp add: loop_inv_def)
  then show ?thesis using recv_bid assms(3) by (auto intro: loop_inv_channel channel_ok_recv)
next
  case (drop_receiver rid ch)
  then show ?thesis using assms(3) by (auto intro: loop_inv_channel channel_ok_new)
qed (use assms(3) in \<open>auto simp: loop_inv_def\<close>)

interpretation loop: guarded_invariant "codec_ok C" "loop_step C" "loop_inv C" for C
  by unfold_locales (rule loop_step_inv)

text \<open>The loop starts with empty maps, an empty archive and an empty settlement queue.\<close>

definition initial_loop :: "nat \<Rightarrow> bool \<Rightarrow> db option \<Rightarrow> bool \<Rightarrow> event_loop" where
  "initial_loop ttl in_memory pool worker =
     with_pg_and_settlement (registry_new ttl) (if in_memory then MemArchive Map.empty else PgArchive [])
       pool (if worker then Some [] else None)"

lemma initial_inv: "\<forall>d. pool = Some d \<longrightarrow> db_wf d \<Longrightarrow> loop_inv C (initial_loop ttl mem pool worker)"
  by (auto simp: initial_loop_def with_pg_and_settlement_def loop_inv_def archive_ok_def archive_get_def
      mem_get_def pg_get_def split: option.splits)

lemma reachable_loop_inv:
  assumes "codec_ok C" "\<forall>d. pool = Some d \<longrightarrow> db_wf d" "(loop_step C)\<^sup>*\<^sup>* (initial_loop ttl mem pool worker) st"
  shows "loop_inv C st"
  by (rule loop.reachable_guarded [OF assms(1,3) initial_inv [OF assms(2)]])

section \<open>Every archived and queued receipt is the enclave's\<close>

lemma sample_codec_ok: "codec_ok sample_codec"
  by (simp add: codec_ok_def)

text \<open>
  In every state the event loop can reach, whatever arrives from the network, in whatever order and
  with whatever failures of storage, a receipt read from the archive for a request names that
  request, carries the enclave's public key and verifies under it.
\<close>

theorem archived_receipts_verify:
  assumes "codec_ok C" and "\<forall>d. pool = Some d \<longrightarrow> db_wf d"
    and "(loop_step C)\<^sup>*\<^sup>* (initial_loop ttl mem pool worker) st"
    and "archive_get (lc_receipt C) f rid (el_archive st) = Inr (Some r)"
  shows "rr_request_id r = rid \<and> rr_coordinator_pubkey r = vk_of (lc_ed C) (lc_key C) \<and>
    receipt_verify (lc_hex_decode C) (lc_bcs C) (lc_ed C) r = Inr ()"
  using reachable_loop_inv [OF assms(1-3)] assms(4) by (auto simp: loop_inv_def archive_ok_def issued_def)

lemma ack_step: "loop_step C st (snd (handle_completion_ack C e sender ack st))"
proof (cases "handle_completion_ack C e sender ack st")
  case (Pair resp st')
  then have "handle_swarm_event C e (CompletionRequest sender ack) st = Some ([SendResponse resp], st')"
    by (simp add: handle_swarm_event_def)
  then show ?thesis using Pair by (auto intro: loop_step.swarm)
qed

definition after_ack :: event_loop where
  "after_ack = snd (handle_completion_ack sample_codec sample_ack_env (PeerId [1]) signed_ack (initial_loop 600 True None False))"

lemma after_ack_reachable: "(loop_step sample_codec)\<^sup>*\<^sup>* (initial_loop 600 True None False) after_ack"
  unfolding after_ack_def by (rule r_into_rtranclp, rule ack_step)

lemma after_ack_archive:
  "archive_get sample_receipt_codec (sample_env 0) (Uuid (replicate 16 0)) (el_archive after_ack) =
     Inr (Some (receipt_of_ack sample_codec (ae_now_ms sample_ack_env) (PeerId [1]) signed_ack None))"
  using handle_completion_ack_valid [OF signed_ack_valid _ refl, of None "initial_loop 600 True None False" sample_ack_env "PeerId [1]"]
  by (simp add: after_ack_def initial_loop_def with_pg_and_settlement_def archive_put_def mem_put_def archive_get_def
      mem_get_def consumed_def)

lemma archived_receipts_verify_witness:
  "receipt_verify sample_hex_decode sample_bcs sample_ed
     (receipt_of_ack sample_codec (ae_now_ms sample_ack_env) (PeerId [1]) signed_ack None) = Inr ()"
  using archived_receipts_verify [OF sample_codec_ok _ after_ack_reachable, of "sample_env 0"] after_ack_archive
  by (simp add: sample_codec_def)

text \<open>
  No reachable archive holds a receipt that says who the client was or which bids were considered:
  the client id is always the empty string and the bid-set hash always 32 zero bytes.
\<close>

theorem archived_receipts_omit_client_and_bids:
  assumes "codec_ok C" and "\<forall>d. pool = Some d \<longrightarrow> db_wf d"
    and "(loop_step C)\<^sup>*\<^sup>* (initial_loop ttl mem pool worker) st"
    and "archive_get (lc_receipt C) f rid (el_archive st) = Inr (Some r)"
  shows "rr_client_id r = [] \<and> rr_bid_set_hash r = zeros32"
  using reachable_loop_inv [OF assms(1-3)] assms(4) by (auto simp: loop_inv_def archive_ok_def issued_def)

lemma archived_receipts_omit_client_and_bids_witness:
  "rr_client_id (receipt_of_ack sample_codec (ae_now_ms sample_ack_env) (PeerId [1]) signed_ack None) = []"
  using archived_receipts_omit_client_and_bids [OF sample_codec_ok _ after_ack_reachable, of "sample_env 0"] after_ack_archive
  by auto

text \<open>
  In every reachable state each queued settlement job carries the serialisation of a receipt that was
  issued for the job's own request, verifies under the enclave key and has at least one payout.
\<close>

theorem queued_jobs_carry_issued_receipts:
  assumes "codec_ok C" and "\<forall>d. pool = Some d \<longrightarrow> db_wf d"
    and "(loop_step C)\<^sup>*\<^sup>* (initial_loop ttl mem pool worker) st"
    and "el_settlement st = Some q" and "j \<in> set q"
  shows "\<exists>r. rr_request_id r = sj_request_id j \<and> rr_payouts r \<noteq> [] \<and>
    receipt_verify (lc_hex_decode C) (lc_bcs C) (lc_ed C) r = Inr () \<and>
    j = settlement_job_of C r (sj_request_id j)"
proof -
  have "job_ok C j"
    using reachable_loop_inv [OF assms(1-3)] assms(4,5) by (auto simp: loop_inv_def list_all_iff)
  then show ?thesis by (auto simp: job_ok_def issued_def)
qed

definition published_loop :: event_loop where
  "published_loop = snd (handle_command sample_codec \<lparr>ce_publish_err = None, ce_dial_err = None, ce_out_id = 0\<rparr>
     (Publish \<lparr>ireq_request_id = Uuid (replicate 16 0), ireq_session_id = Uuid [2], ireq_model = ''m'',
       ireq_privacy = Standard, ireq_session_intent = New\<rparr> 0) (initial_loop 600 True (Some db_empty) True))"

definition auctioned_loop :: event_loop where
  "auctioned_loop = snd (handle_command sample_codec \<lparr>ce_publish_err = None, ce_dial_err = None, ce_out_id = 0\<rparr>
     (SetPayoutAddresses (Uuid (replicate 16 0)) [''12D3KooWPeerNode1'' \<mapsto> ''0x0abc'']) published_loop)"

definition settled_loop :: event_loop where
  "settled_loop = snd (handle_completion_ack sample_codec sample_ack_env (PeerId [1]) signed_ack auctioned_loop)"

lemma settled_loop_reachable: "(loop_step sample_codec)\<^sup>*\<^sup>* (initial_loop 600 True (Some db_empty) True) settled_loop"
proof -
  have "loop_step sample_codec (initial_loop 600 True (Some db_empty) True) published_loop"
    unfolding published_loop_def by (rule loop_step.cmd, rule surjective_pairing)
  moreover have "loop_step sample_codec published_loop auctioned_loop"
    unfolding auctioned_loop_def by (rule loop_step.cmd, rule surjective_pairing)
  moreover have "loop_step sample_codec auctioned_loop settled_loop"
    unfolding settled_loop_def by (rule ack_step)
  ultimately show ?thesis by (meson r_into_rtranclp rtranclp_trans)
qed

definition auctioned_meta :: in_flight_meta where
  "auctioned_meta = \<lparr>ifm_client_id = [], ifm_bid_set_hash = zeros32,
     ifm_payout_addresses = [''12D3KooWPeerNode1'' \<mapsto> ''0x0abc''], ifm_session_id = Uuid [2]\<rparr>"

lemma auctioned_loop_simps:
  "el_in_flight auctioned_loop (Uuid (replicate 16 0)) = Some auctioned_meta"
  "el_pg_pool auctioned_loop = Some db_empty" "el_settlement auctioned_loop = Some []"
  "el_archive auctioned_loop = MemArchive Map.empty"
  by (simp_all add: auctioned_loop_def published_loop_def initial_loop_def with_pg_and_settlement_def loop_simps
      auctioned_meta_def sample_codec_def)

lemma persist_enqueues:
  assumes "el_pg_pool st \<noteq> None" "ls \<noteq> []" "\<And>d. fst (insert_pending (ae_insert e) rid ls d) = Inr ()"
    and "el_settlement st = Some q" "ae_try_send e"
  shows "el_settlement (persist_payments C e rid ls r st) = Some (q @ [settlement_job_of C r rid])"
proof -
  obtain d where d: "el_pg_pool st = Some d" using assms(1) by blast
  show ?thesis
    using d assms(2-5) assms(3) [of d]
    by (cases "insert_pending (ae_insert e) rid ls d") (simp add: persist_payments_def)
qed

lemma settled_loop_queue:
  "el_settlement settled_loop = Some [settlement_job_of sample_codec
     (receipt_of_ack sample_codec (ae_now_ms sample_ack_env) (PeerId [1]) signed_ack (Some auctioned_meta)) (Uuid (replicate 16 0))]"
proof -
  have "compute_payouts signed_ack (meta_addresses (Some auctioned_meta)) \<noteq> []"
    by (simp add: compute_payouts_def List.map_filter_def payout_of_proof_def meta_addresses_def auctioned_meta_def
        signed_ack_def sample_ack_def proof_sign_def sample_proof_def Let_def)
  moreover have "se_err (ae_insert sample_ack_env i) = None" for i
    by (simp add: sample_ack_env_def sample_env_def)
  then have "fst (insert_pending_from (ae_insert sample_ack_env) i rid ls d) = Inr ()" for i rid ls d
    by (induction ls arbitrary: i d) simp_all
  then have "fst (insert_pending (ae_insert sample_ack_env) rid ls d) = Inr ()" for rid ls d
    by (simp add: insert_pending_def)
  moreover have "ae_try_send sample_ack_env" by (simp add: sample_ack_env_def)
  moreover have "el_pg_pool (mark_warm e r m (auctioned_loop\<lparr>el_in_flight := f, el_archive := a\<rparr>)) \<noteq> None" for e r m f a
    by (simp add: mark_warm_def auctioned_loop_simps split: option.split)
  ultimately show ?thesis
    using handle_completion_ack_valid [OF signed_ack_valid _ refl, of "Some auctioned_meta" auctioned_loop sample_ack_env "PeerId [1]"]
    by (simp add: settled_loop_def auctioned_loop_simps archive_put_def mem_put_def consumed_def
        persist_enqueues [where q = "[]"] del: not_None_eq)
qed

lemma queued_jobs_carry_issued_receipts_witness:
  "\<exists>r. rr_request_id r = Uuid (replicate 16 0) \<and> rr_payouts r \<noteq> [] \<and>
     receipt_verify sample_hex_decode sample_bcs sample_ed r = Inr ()"
  using queued_jobs_carry_issued_receipts [OF sample_codec_ok _ settled_loop_reachable settled_loop_queue list.set_intros(1)]
  by (auto simp: settlement_job_of_def sample_codec_def)

section \<open>Bids\<close>

text \<open>
  C24: In every reachable state the bids waiting in the channel of a request are bids for that request,
  and there are at most 64 of them.
\<close>

theorem bid_channels_hold_own_bids:
  assumes "codec_ok C" and "\<forall>d. pool = Some d \<longrightarrow> db_wf d"
    and "(loop_step C)\<^sup>*\<^sup>* (initial_loop ttl mem pool worker) st"
    and "el_bid_subscribers st rid = Some ch"
  shows "length (bc_queue ch) \<le> 64 \<and> list_all (\<lambda>b. bid_request_id b = rid) (bc_queue ch)"
proof -
  have "channel_ok rid ch"
    using reachable_loop_inv [OF assms(1-3)] assms(4) by (auto simp: loop_inv_def)
  then show ?thesis by (simp add: channel_ok_def BID_CHANNEL_CAPACITY_def)
qed

definition after_publish :: event_loop where
  "after_publish = snd (handle_command sample_codec \<lparr>ce_publish_err = None, ce_dial_err = None, ce_out_id = 0\<rparr>
     (Publish \<lparr>ireq_request_id = Uuid [1], ireq_session_id = Uuid [2], ireq_model = ''m'', ireq_privacy = Standard,
       ireq_session_intent = New\<rparr> 0) (initial_loop 600 True None False))"

lemma after_publish_reachable: "(loop_step sample_codec)\<^sup>*\<^sup>* (initial_loop 600 True None False) after_publish"
  unfolding after_publish_def
  by (rule r_into_rtranclp, rule loop_step.cmd, rule surjective_pairing)

lemma after_publish_channel: "el_bid_subscribers after_publish (Uuid [1]) = Some \<lparr>bc_queue = [], bc_open = True\<rparr>"
  by (simp add: after_publish_def loop_simps sample_codec_def)

lemma bid_channels_hold_own_bids_witness:
  "length (bc_queue (the (el_bid_subscribers after_publish (Uuid [1])))) \<le> 64"
  using bid_channels_hold_own_bids [OF sample_codec_ok _ after_publish_reachable after_publish_channel]
  by (simp add: after_publish_channel)

text \<open>
  The loop waits on nothing but a full bid channel: handling a swarm event is suspended exactly when
  the event is a well-formed bid for a request whose receiver exists and has 64 bids unread.
\<close>

theorem loop_waits_only_on_full_channel:
  "handle_swarm_event C e event st = None \<longleftrightarrow>
     (\<exists>src msg bid ch. event = GossipsubMessage src msg \<and> gm_topic msg = BIDS \<and>
        lc_bid_from_slice C (gm_data msg) = Some bid \<and>
        el_bid_subscribers st (bid_request_id bid) = Some ch \<and> bc_open ch \<and> 64 \<le> length (bc_queue ch))"
  by (cases event)
    (auto simp: handle_swarm_event_def handle_gossip_message_def channel_send_def BID_CHANNEL_CAPACITY_def
      not_less split: prod.split option.split)

text \<open>
  A subscription to the bids of a request, once made, is never removed: along every execution of the
  loop the set of subscribed requests only grows, also after the auction has ended and the request has
  been completed.
\<close>

theorem subscriptions_never_removed:
  assumes "(loop_step C)\<^sup>*\<^sup>* st st'"
  shows "dom (el_bid_subscribers st) \<subseteq> dom (el_bid_subscribers st')"
  using assms
proof (induction rule: rtranclp_induct)
  case (step s t)
  have ack: "el_bid_subscribers (snd (handle_completion_ack C e sender ack s)) = el_bid_subscribers s" for e sender ack
    by (simp add: handle_completion_ack_def Let_def split: sum.split prod.split)
  from step(2) have "dom (el_bid_subscribers s) \<subseteq> dom (el_bid_subscribers t)"
  proof cases
    case (swarm e event out)
    show ?thesis
    proof (cases event)
      case (CompletionRequest p a)
      then show ?thesis using swarm ack [of e p a] by (auto simp: handle_swarm_event_def split: prod.splits)
    next
      case (GossipsubMessage src msg)
      then show ?thesis using swarm
        by (auto simp: handle_swarm_event_def handle_gossip_message_def split: if_splits option.splits)
    qed (use swarm in \<open>auto simp: handle_swarm_event_def finish_inference_def split: option.splits\<close>)
  next
    case (cmd ce c out)
    then show ?thesis
      by (cases c) (auto simp: handle_command_def publish_request_def split: option.splits)
  qed auto
  with step(3) show ?case by blast
qed simp

lemma subscriptions_never_removed_witness:
  "dom (el_bid_subscribers (initial_loop 600 True None False)) \<subseteq> dom (el_bid_subscribers after_publish)"
  using subscriptions_never_removed [OF after_publish_reachable] .

section \<open>Inference replies\<close>

text \<open>
  The reply to a dispatched inference reaches the caller that dispatched it, once: dispatching and
  then receiving the node's response (or its failure) for that outbound request answers the caller's
  channel with it, and every later response or failure with the same outbound id answers nobody.
\<close>

theorem inference_reply_delivered_once:
  assumes "handle_command C ce (DispatchInference peer dispatch tx) st = (out, st1)"
    and "handle_swarm_event C e (InferenceResponse (ce_out_id ce) reply) st1 = Some (out1, st2)"
  shows "out1 = [InferenceResult tx (Inr reply)] \<and>
    handle_swarm_event C e' (InferenceResponse (ce_out_id ce) reply') st2 = Some ([], st2) \<and>
    handle_swarm_event C e' (InferenceOutboundFailure (ce_out_id ce) err) st2 = Some ([], st2)"
  using assms by (auto simp: loop_simps)

definition sample_reply :: inference_reply where
  "sample_reply = \<lparr>ir_request_id = Uuid [1], ir_session_id = Uuid [2], ir_content = ''hi'', ir_input_tokens = 1,
     ir_output_tokens = 1, ir_latency_ms = 5, ir_error = None\<rparr>"

definition sample_dispatch :: inference_dispatch where
  "sample_dispatch = \<lparr>id_dispatch_token = sample_token, id_session_key = ''k'', id_new_user_message = ''q'',
     id_memwal_context = None\<rparr>"

lemma inference_reply_delivered_once_witness:
  "let ce = \<lparr>ce_publish_err = None, ce_dial_err = None, ce_out_id = 4\<rparr>;
       st1 = snd (handle_command sample_codec ce (DispatchInference (PeerId [1]) sample_dispatch 7) sample_loop);
       st2 = snd (the (handle_swarm_event sample_codec sample_ack_env (InferenceResponse 4 sample_reply) st1))
   in handle_swarm_event sample_codec sample_ack_env (InferenceResponse 4 sample_reply) st2 = Some ([], st2)"
proof -
  let ?ce = "\<lparr>ce_publish_err = None, ce_dial_err = None, ce_out_id = 4\<rparr>"
  let ?st1 = "snd (handle_command sample_codec ?ce (DispatchInference (PeerId [1]) sample_dispatch 7) sample_loop)"
  obtain out st2 where h: "handle_swarm_event sample_codec sample_ack_env (InferenceResponse (ce_out_id ?ce) sample_reply) ?st1 = Some (out, st2)"
    by (auto simp: loop_simps)
  have "handle_swarm_event sample_codec sample_ack_env (InferenceResponse 4 sample_reply) st2 = Some ([], st2)"
    using inference_reply_delivered_once [OF surjective_pairing h] by simp
  with h show ?thesis by (simp add: Let_def)
qed

end
