(* ===== verification/Payment_System.thy ===== *)
theory Payment_System
  imports Jobs Event_Loop_Invariants "HOL-Library.Multiset"
begin

text \<open>
  The payment path as one system: the event loop, the task that forwards settlement jobs to the apalis
  storage (\<^verbatim>\<open>src/coordinator/src/main.rs\<close>), and the settlement worker with its jobs in progress, all
  on one database. The worker is taken apart into the statements it executes, so that acks,
  other jobs and the deadline watcher run between any two of them. Three history variables record
  the request ids published, the receipt each request was booked with, and the calls to the sidecar.
\<close>

section \<open>State\<close>

record running_job =
  rj_job :: settlement_job
  rj_receipt :: routing_receipt
  rj_index :: nat
  rj_rows :: "pending_payment list"

text \<open>A call of the sidecar: the id of the payment row, the request, and what was sent.\<close>

record system =
  sy_loop :: event_loop
  sy_storage :: "settlement_job list"
  sy_running :: "running_job list"
  sy_published :: "uuid set"
  sy_booked :: "uuid \<rightharpoonup> routing_receipt"
  sy_calls :: "(uuid \<times> uuid \<times> sidecar_call) list"

section \<open>Steps\<close>

text \<open>The body of the worker's loop over the rows: the call, and the statement that records its outcome.\<close>

definition settle_step ::
  "worker_env \<Rightarrow> routing_receipt \<Rightarrow> nat \<Rightarrow> pending_payment \<Rightarrow> db \<Rightarrow> sidecar_call \<times> (string + unit) \<times> db" where
  "settle_step e receipt i row d =
     (case settle_row e receipt i row of
        (call, outcome) \<Rightarrow>
          (call, case outcome of
                   Inr digest \<Rightarrow> mark_submitted (we_mark e i) (pp_id row) digest d
                 | Inl _ \<Rightarrow> mark_failed (we_mark e i) (pp_id row) d))"

lemma settle_rows_step:
  "settle_rows e receipt i (row # rows) d =
     (case settle_step e receipt i row d of
        (call, Inl err, d1) \<Rightarrow> ([call], Inl (StatementError err), d1)
      | (call, Inr _, d1) \<Rightarrow>
          (case settle_rows e receipt (Suc i) rows d1 of (calls, r, d2) \<Rightarrow> (call # calls, r, d2)))"
  by (simp add: settle_step_def split: prod.split sum.split)

text \<open>The answers of the sidecar and the outcomes of the statements vary from step to step.\<close>

definition row_env :: "worker_env \<Rightarrow> (nat \<Rightarrow> http_result) \<Rightarrow> (nat \<Rightarrow> stmt_env) \<Rightarrow> worker_env" where
  "row_env W answers marks = W\<lparr>we_answer := answers, we_mark := marks\<rparr>"

definition publishes :: "mesh_command \<Rightarrow> uuid set" where
  "publishes c = (case c of Publish req _ \<Rightarrow> {ireq_request_id req} | _ \<Rightarrow> {})"

definition is_completion :: "swarm_event \<Rightarrow> bool" where
  "is_completion ev \<longleftrightarrow> (case ev of CompletionRequest _ _ \<Rightarrow> True | _ \<Rightarrow> False)"

definition record_booking :: "uuid \<Rightarrow> in_flight_meta option \<Rightarrow> completion_response \<Rightarrow> (uuid \<rightharpoonup> routing_receipt) \<Rightarrow> (uuid \<rightharpoonup> routing_receipt)" where
  "record_booking rid meta resp b =
     (case (meta, cr_routing_receipt resp) of (Some _, Some r) \<Rightarrow> b(rid \<mapsto> r) | _ \<Rightarrow> b)"

definition running_rids :: "system \<Rightarrow> uuid set" where
  "running_rids s = (\<lambda>run. sj_request_id (rj_job run)) ` set (sy_running s)"

definition set_pool :: "db \<Rightarrow> system \<Rightarrow> system" where
  "set_pool d s = s\<lparr>sy_loop := (sy_loop s)\<lparr>el_pg_pool := Some d\<rparr>\<rparr>"

text \<open>
  A published request id is new, as \<^verbatim>\<open>Uuid::new_v4\<close> is relied on for. The storage hands a job out to one
  run at a time, keeps it until the run succeeds, and may give it up. A run that ends before its first row,
  because the query failed or the receipt does not parse, changes nothing; one that finds no
  row and is not interested in the receipt is a \<open>discard\<close>. With \<open>strict\<close> no statement that records the
  outcome of a call fails.
\<close>

inductive sys_step :: "loop_codec \<Rightarrow> worker_env \<Rightarrow> bool \<Rightarrow> system \<Rightarrow> system \<Rightarrow> bool" for C W strict where
  cmd: "handle_command C ce c (sy_loop s) = (out, st') \<Longrightarrow> publishes c \<inter> sy_published s = {} \<Longrightarrow>
    sys_step C W strict s (s\<lparr>sy_loop := st', sy_published := publishes c \<union> sy_published s\<rparr>)"
| ack: "handle_completion_ack C e sender ack (sy_loop s) = (resp, st') \<Longrightarrow>
    sys_step C W strict s (s\<lparr>sy_loop := st', sy_booked :=
      record_booking (ca_request_id ack) (el_in_flight (sy_loop s) (ca_request_id ack)) resp (sy_booked s)\<rparr>)"
| event: "handle_swarm_event C e ev (sy_loop s) = Some (out, st') \<Longrightarrow> \<not> is_completion ev \<Longrightarrow>
    sys_step C W strict s (s\<lparr>sy_loop := st'\<rparr>)"
| evict: "sys_step C W strict s (s\<lparr>sy_loop := (sy_loop s)\<lparr>el_peer_registry := evict_stale now (el_peer_registry (sy_loop s))\<rparr>\<rparr>)"
| bids: "el_bid_subscribers (sy_loop s) rid = Some ch \<Longrightarrow> ch' = ch\<lparr>bc_queue := tl (bc_queue ch)\<rparr> \<and> bc_queue ch \<noteq> [] \<or>
      ch' = ch\<lparr>bc_queue := [], bc_open := False\<rparr> \<Longrightarrow>
    sys_step C W strict s (s\<lparr>sy_loop := (sy_loop s)\<lparr>el_bid_subscribers := (el_bid_subscribers (sy_loop s))(rid \<mapsto> ch')\<rparr>\<rparr>)"
| push: "el_settlement (sy_loop s) = Some (j # q) \<Longrightarrow>
    sys_step C W strict s (s\<lparr>sy_loop := (sy_loop s)\<lparr>el_settlement := Some q\<rparr>,
      sy_storage := (if stored then sy_storage s @ [j] else sy_storage s)\<rparr>)"
| track: "el_pg_pool (sy_loop s) = Some d \<Longrightarrow> jobs_step d d' \<Longrightarrow> sys_step C W strict s (set_pool d' s)"
| start: "j \<in> set (sy_storage s) \<Longrightarrow> sj_request_id j \<notin> running_rids s \<Longrightarrow> el_pg_pool (sy_loop s) = Some d \<Longrightarrow>
    pending_for_request env (sj_request_id j) d = Inr rows \<Longrightarrow> we_receipt_from_str W (sj_receipt_json j) = Some r \<Longrightarrow>
    sys_step C W strict s (s\<lparr>sy_running := \<lparr>rj_job = j, rj_receipt = r, rj_index = 0, rj_rows = rows\<rparr> # sy_running s\<rparr>)"
| row: "sy_running s = before @ run # after \<Longrightarrow> rj_rows run = p # ps \<Longrightarrow> el_pg_pool (sy_loop s) = Some d \<Longrightarrow>
    settle_step (row_env W answers marks) (rj_receipt run) (rj_index run) p d = (call, res, d') \<Longrightarrow>
    (strict \<Longrightarrow> se_err (marks (rj_index run)) = None) \<Longrightarrow>
    sys_step C W strict s ((set_pool d' s)
      \<lparr>sy_running := before @ (if is_ok res then [run\<lparr>rj_index := Suc (rj_index run), rj_rows := ps\<rparr>] else []) @ after,
       sy_calls := sy_calls s @ [(pp_id p, sj_request_id (rj_job run), call)]\<rparr>)"
| finish: "sy_running s = before @ run # after \<Longrightarrow> rj_rows run = [] \<Longrightarrow>
    sys_step C W strict s (s\<lparr>sy_running := before @ after, sy_storage := remove1 (rj_job run) (sy_storage s)\<rparr>)"
| discard: "j \<in> set (sy_storage s) \<Longrightarrow> sj_request_id j \<notin> running_rids s \<Longrightarrow>
    sys_step C W strict s (s\<lparr>sy_storage := remove1 j (sy_storage s)\<rparr>)"

section \<open>Rows and payouts\<close>

definition row_payout :: "payment_row \<Rightarrow> payout" where
  "row_payout r = \<lparr>po_sui_address = pr_payee_sui_address r, po_amount_nanox = pr_amount_nanox r\<rparr>"

definition rows_of :: "uuid \<Rightarrow> db \<Rightarrow> payment_row list" where
  "rows_of rid d = filter (\<lambda>r. pr_request_id r = rid) (db_payments d)"

definition payout_call :: "worker_env \<Rightarrow> routing_receipt \<Rightarrow> payout \<Rightarrow> sidecar_call" where
  "payout_call w receipt p =
     PostSettle (settle_url w) (sc_secret (we_client w))
       (settle_req_of (we_uuid_str w) (we_hex_encode w) receipt (po_sui_address p) (po_amount_nanox p))"

text \<open>What a call asks for, apart from the address and the secret of the sidecar.\<close>

definition call_body :: "sidecar_call \<Rightarrow> settle_req option" where
  "call_body c = (case c of PostSettle _ _ req \<Rightarrow> Some req | _ \<Rightarrow> None)"

definition payout_body :: "worker_env \<Rightarrow> routing_receipt \<Rightarrow> payout \<Rightarrow> settle_req option" where
  "payout_body w receipt p =
     Some (settle_req_of (we_uuid_str w) (we_hex_encode w) receipt (po_sui_address p) (po_amount_nanox p))"

lemma call_body_payout [simp]: "call_body (payout_call w r p) = payout_body w r p"
  by (simp add: call_body_def payout_body_def payout_call_def)

lemma settle_call_payout: "settle_call w r row = payout_call w r (row_payout row)"
  by (simp add: settle_call_def payout_call_def row_payout_def)

lemma settle_call_row_env [simp]: "settle_call (row_env W a m) = settle_call W"
  by (simp add: fun_eq_iff settle_call_def row_env_def settle_url_def)

text \<open>What the statements of the worker never change in a row.\<close>

definition row_key :: "payment_row \<Rightarrow> uuid \<times> uuid \<times> payout" where
  "row_key r = (pr_id r, pr_request_id r, row_payout r)"

lemma row_keyD:
  "row_key r = row_key r' \<Longrightarrow> pr_id r = pr_id r' \<and> pr_request_id r = pr_request_id r' \<and> row_payout r = row_payout r'"
  by (simp add: row_key_def)

text \<open>
  One step of the worker on a pending row: the call is the row's, and either nothing was recorded or
  exactly this row stops being pending.
\<close>

lemma settle_step_effect:
  assumes "settle_step (row_env W a m) r i (pending_of_row row) d = (call, res, d')"
  shows "call = settle_call W r row"
    and "se_err (m i) \<noteq> None \<and> d' = d \<and> \<not> is_ok res \<or>
      se_err (m i) = None \<and> is_ok res \<and>
      (\<exists>f. (\<forall>x. row_key (f x) = row_key x \<and> pr_status (f x) \<noteq> ''pending'') \<and>
        d' = d\<lparr>db_payments := update_where (\<lambda>x. pr_id x = pr_id row) f (db_payments d)\<rparr>)"
proof -
  let ?out = "settle_result (we_settle_resp (row_env W a m)) (settle_url (row_env W a m)) (we_answer (row_env W a m) i)"
  have eq: "settle_step (row_env W a m) r i (pending_of_row row) d =
      (settle_call W r row, case ?out of Inr digest \<Rightarrow> mark_submitted (m i) (pr_id row) digest d
        | Inl _ \<Rightarrow> mark_failed (m i) (pr_id row) d)"
    by (simp add: settle_step_def settle_row_pending) (simp add: row_env_def split: sum.split)
  show "call = settle_call W r row" using assms eq by simp
  show "se_err (m i) \<noteq> None \<and> d' = d \<and> \<not> is_ok res \<or>
      se_err (m i) = None \<and> is_ok res \<and>
      (\<exists>f. (\<forall>x. row_key (f x) = row_key x \<and> pr_status (f x) \<noteq> ''pending'') \<and>
        d' = d\<lparr>db_payments := update_where (\<lambda>x. pr_id x = pr_id row) f (db_payments d)\<rparr>)"
  proof (cases ?out)
    case (Inl err)
    then show ?thesis using assms eq
      by (auto simp: mark_failed_def update_payment_def row_key_def row_payout_def is_ok_def split: option.splits
          intro!: exI [of _ "\<lambda>x. x\<lparr>pr_status := ''failed''\<rparr>"])
  next
    case (Inr digest)
    then show ?thesis using assms eq
      by (auto simp: mark_submitted_def update_payment_def row_key_def row_payout_def is_ok_def split: option.splits
          intro!: exI [of _ "\<lambda>x. x\<lparr>pr_status := ''submitted'', pr_tx_digest := Some digest, pr_submitted_at := Some (se_now (m i))\<rparr>"])
  qed
qed

text \<open>The rows an insertion appends: pending rows of the request, at most one per line.\<close>

lemma insert_pending_from_sub:
  assumes "insert_pending_from env i rid lines d = (x, d')"
  shows "\<exists>new. db_payments d' = db_payments d @ new \<and> list_all (is_pending rid) new \<and>
    mset (map row_payout new) \<subseteq># mset (payouts_of_lines lines)"
  using assms
proof (induction env i rid lines d rule: insert_pending_from.induct)
  case (2 env i rid line lines d)
  let ?row = "pending_row (env i) rid line"
  have row: "is_pending rid ?row" "row_payout ?row = \<lparr>po_sui_address = pl_sui_address line, po_amount_nanox = pl_amount_nanox line\<rparr>"
    by (simp_all add: pending_row_def is_pending_def row_payout_def)
  show ?case
  proof (cases "se_err (env i)")
    case None
    then obtain new where new: "db_payments d' = insert_payment ?row (db_payments d) @ new" "list_all (is_pending rid) new"
        "mset (map row_payout new) \<subseteq># mset (payouts_of_lines lines)"
      using 2 by fastforce
    show ?thesis
    proof (cases "list_ex (\<lambda>x. pr_id x = pr_id ?row) (db_payments d)")
      case True
      then show ?thesis using new
        by (intro exI [of _ new]) (auto simp: insert_payment_def payouts_of_lines_def intro: subset_mset.order_trans)
    next
      case False
      then show ?thesis using new row
        by (intro exI [of _ "?row # new"]) (simp add: insert_payment_def payouts_of_lines_def)
    qed
  qed (use "2.prems" in \<open>auto intro: exI [of _ "[]"]\<close>)
qed simp

section \<open>What an ack does to the payment path\<close>

text \<open>Either the ack books its receipt, or no row and no job appears.\<close>

lemma persist_effect:
  assumes "el_pg_pool st = Some d" "st' = persist_payments C e rid lines r st" "rr_payouts r = payouts_of_lines lines"
  obtains d' new where "el_pg_pool st' = Some d'" "db_payments d' = db_payments d @ new" "list_all (is_pending rid) new"
    "mset (map row_payout new) \<subseteq># mset (rr_payouts r)" "el_in_flight st' = el_in_flight st"
    "el_settlement st' = el_settlement st \<or> el_settlement st' = map_option (\<lambda>q. q @ [settlement_job_of C r rid]) (el_settlement st)"
proof (cases "lines = []")
  case True
  then show ?thesis using assms by (intro that [of d "[]"]) simp_all
next
  case False
  obtain y d2 where ins: "insert_pending (ae_insert e) rid lines d = (y, d2)" by fastforce
  obtain new where "db_payments d2 = db_payments d @ new" "list_all (is_pending rid) new"
      "mset (map row_payout new) \<subseteq># mset (payouts_of_lines lines)"
    using insert_pending_from_sub [of "ae_insert e" 0 rid lines d y d2] ins by (auto simp: insert_pending_def)
  then show ?thesis using assms False ins
    by (intro that [of d2 new]) (auto simp: persist_payments_def split: sum.split option.split)
qed

lemma ack_effect:
  assumes "el_pg_pool st = Some d" "handle_completion_ack C e sender ack st = (resp, st')" "rid = ca_request_id ack"
  obtains
    (unbooked) d' where "el_pg_pool st' = Some d'" "db_payments d' = db_payments d" "el_settlement st' = el_settlement st"
      "dom (el_in_flight st') \<subseteq> dom (el_in_flight st)" "record_booking rid (el_in_flight st rid) resp B = B"
  | (booked) d' r new where "el_pg_pool st' = Some d'" "db_payments d' = db_payments d @ new" "list_all (is_pending rid) new"
      "mset (map row_payout new) \<subseteq># mset (rr_payouts r)"
      "el_settlement st' = el_settlement st \<or> el_settlement st' = map_option (\<lambda>q. q @ [settlement_job_of C r rid]) (el_settlement st)"
      "el_in_flight st' = (el_in_flight st)(rid := None)" "el_in_flight st rid \<noteq> None"
      "record_booking rid (el_in_flight st rid) resp B = B(rid \<mapsto> r)" "\<exists>now meta. r = receipt_of_ack C now sender ack meta"
proof (cases "ack_valid C ack")
  case False
  then show ?thesis
    using handle_completion_ack_invalid [of C ack e sender st] assms unbooked
    by (auto simp: record_booking_def completion_rejected_def split: option.splits)
next
  case True
  let ?meta = "el_in_flight st rid" and ?lines = "compute_payouts ack (meta_addresses (el_in_flight st rid))"
  let ?r = "receipt_of_ack C (ae_now_ms e) sender ack ?meta"
  obtain x a where put: "archive_put (lc_receipt C) (ae_archive e) ?r (el_archive st) = (x, a)"
    by (cases "archive_put (lc_receipt C) (ae_archive e) ?r (el_archive st)")
  note eq = handle_completion_ack_valid [OF True refl refl, of e sender st]
  show ?thesis
  proof (cases x)
    case (Inl err)
    with put eq assms show ?thesis
      by (intro unbooked [of d]) (auto simp: consumed_def record_booking_def completion_rejected_def split: option.splits)
  next
    case (Inr u)
    define st1 where "st1 = mark_warm e ?r ?meta ((consumed rid st)\<lparr>el_archive := a\<rparr>)"
    have res: "resp = completion_ok ?r" "st' = persist_payments C e rid ?lines ?r st1"
      using put eq assms(2,3) Inr by (simp_all add: st1_def)
    have fr: "el_settlement st1 = el_settlement st" "el_in_flight st1 = (el_in_flight st)(rid := None)"
      by (simp_all add: st1_def consumed_def)
    have "map_option db_payments (el_pg_pool st1) = Some (db_payments d)"
      using assms(1) by (simp add: st1_def consumed_def)
    then obtain d1 where d1: "el_pg_pool st1 = Some d1" "db_payments d1 = db_payments d" by auto
    show ?thesis
    proof (cases ?meta)
      case None
      then have "?lines = []" by (simp add: meta_addresses_def)
      with None d1 fr show ?thesis
        by (intro unbooked [of d1]) (auto simp: res persist_payments_def record_booking_def)
    next
      case (Some m)
      have book: "record_booking rid ?meta resp B = B(rid \<mapsto> ?r)"
        using Some by (simp add: res record_booking_def completion_ok_def)
      obtain d' new where p: "el_pg_pool st' = Some d'" "db_payments d' = db_payments d1 @ new" "list_all (is_pending rid) new"
          "mset (map row_payout new) \<subseteq># mset (rr_payouts ?r)" "el_in_flight st' = el_in_flight st1"
          "el_settlement st' = el_settlement st1 \<or> el_settlement st' = map_option (\<lambda>q. q @ [settlement_job_of C ?r rid]) (el_settlement st1)"
        by (rule persist_effect [OF d1(1) res(2)]) simp
      show ?thesis by (rule booked [of d' new ?r]) (use p d1(2) fr book Some in auto)
    qed
  qed
qed

section \<open>The invariant\<close>

text \<open>
  On the parts of the state that matter for payments: the requests in flight \<open>fl\<close>, those published \<open>pub\<close>,
  the bookings \<open>B\<close>, the payment rows, the queued and stored jobs, the jobs in progress and the calls.
\<close>

definition run_rid :: "running_job \<Rightarrow> uuid" where
  "run_rid x = sj_request_id (rj_job x)"

definition running_ok :: "worker_env \<Rightarrow> payment_row list \<Rightarrow> running_job \<Rightarrow> bool" where
  "running_ok W pays x \<longleftrightarrow>
     we_receipt_from_str W (sj_receipt_json (rj_job x)) = Some (rj_receipt x) \<and>
     (\<exists>rows. rj_rows x = map pending_of_row rows \<and> set rows \<subseteq> set pays \<and> distinct (map pr_id rows) \<and>
        list_all (is_pending (run_rid x)) rows)"

definition booking_ok :: "loop_codec \<Rightarrow> payment_row list \<Rightarrow> settlement_job set \<Rightarrow> uuid \<Rightarrow> routing_receipt \<Rightarrow> bool" where
  "booking_ok C pays jobs rid r \<longleftrightarrow>
     mset (map row_payout (filter (\<lambda>x. pr_request_id x = rid) pays)) \<subseteq># mset (rr_payouts r) \<and>
     (\<forall>j\<in>jobs. sj_request_id j = rid \<longrightarrow> j = settlement_job_of C r rid)"

definition call_ok ::
  "worker_env \<Rightarrow> bool \<Rightarrow> (uuid \<rightharpoonup> routing_receipt) \<Rightarrow> payment_row list \<Rightarrow> uuid \<times> uuid \<times> sidecar_call \<Rightarrow> bool" where
  "call_ok W strict B pays c \<longleftrightarrow>
     (case c of (pid, rid, call) \<Rightarrow>
        \<exists>row\<in>set pays. pr_id row = pid \<and> pr_request_id row = rid \<and> (strict \<longrightarrow> pr_status row \<noteq> ''pending'') \<and>
          (\<forall>r. B rid = Some r \<longrightarrow> call_body call = payout_body W r (row_payout row)))"

text \<open>The requests that the tables, the queues or a job in progress mention.\<close>

definition mentioned :: "(uuid \<rightharpoonup> routing_receipt) \<Rightarrow> payment_row list \<Rightarrow> settlement_job set \<Rightarrow> running_job list \<Rightarrow> uuid set" where
  "mentioned B pays jobs run = dom B \<union> pr_request_id ` set pays \<union> sj_request_id ` jobs \<union> run_rid ` set run"

definition pay_inv ::
  "loop_codec \<Rightarrow> worker_env \<Rightarrow> bool \<Rightarrow> uuid set \<Rightarrow> uuid set \<Rightarrow> (uuid \<rightharpoonup> routing_receipt) \<Rightarrow> payment_row list \<Rightarrow>
     settlement_job set \<Rightarrow> running_job list \<Rightarrow> (uuid \<times> uuid \<times> sidecar_call) list \<Rightarrow> bool" where
  "pay_inv C W strict fl pub B pays jobs run calls \<longleftrightarrow>
     distinct (map pr_id pays) \<and> fl \<union> mentioned B pays jobs run \<subseteq> pub \<and> fl \<inter> mentioned B pays jobs run = {} \<and>
     (\<forall>rid r. B rid = Some r \<longrightarrow> booking_ok C pays (jobs \<union> rj_job ` set run) rid r) \<and>
     distinct (map run_rid run) \<and> list_all (running_ok W pays) run \<and>
     list_all (call_ok W strict B pays) calls \<and> (strict \<longrightarrow> distinct (map fst calls))"

lemmas pay_invI = pay_inv_def [THEN iffD2, OF conjI [OF _ conjI [OF _ conjI [OF _ conjI [OF _ conjI [OF _ conjI [OF _ conjI]]]]]]]

lemma pay_invD:
  assumes "pay_inv C W strict fl pub B pays jobs run calls"
  shows "distinct (map pr_id pays)" "fl \<union> mentioned B pays jobs run \<subseteq> pub" "fl \<inter> mentioned B pays jobs run = {}"
    "B rid = Some r \<Longrightarrow> booking_ok C pays (jobs \<union> rj_job ` set run) rid r" "distinct (map run_rid run)"
    "list_all (running_ok W pays) run" "list_all (call_ok W strict B pays) calls" "strict \<Longrightarrow> distinct (map fst calls)"
  using assms unfolding pay_inv_def by simp_all

lemma booking_ok_mono: "booking_ok C pays jobs rid r \<Longrightarrow> jobs' \<subseteq> jobs \<Longrightarrow> booking_ok C pays jobs' rid r"
  by (auto simp: booking_ok_def)

text \<open>Jobs and jobs in progress may disappear, and requests may leave the flight.\<close>

lemma pay_inv_mono:
  assumes "pay_inv C W strict fl pub B pays jobs run calls" "fl' \<subseteq> fl" "jobs' \<subseteq> jobs"
    and "set run' \<subseteq> set run" "distinct (map run_rid run')"
  shows "pay_inv C W strict fl' pub B pays jobs' run' calls"
proof (rule pay_invI)
  have m: "mentioned B pays jobs' run' \<subseteq> mentioned B pays jobs run"
    using assms(3,4) unfolding mentioned_def by blast
  show "fl' \<union> mentioned B pays jobs' run' \<subseteq> pub" "fl' \<inter> mentioned B pays jobs' run' = {}"
    using m assms(2) pay_invD(2,3) [OF assms(1)] by blast+
  have "jobs' \<union> rj_job ` set run' \<subseteq> jobs \<union> rj_job ` set run" using assms(3,4) by blast
  then show "\<forall>rid r. B rid = Some r \<longrightarrow> booking_ok C pays (jobs' \<union> rj_job ` set run') rid r"
    by (intro allI impI) (rule booking_ok_mono [OF pay_invD(4) [OF assms(1)]])
  show "list_all (running_ok W pays) run'" using pay_invD(6) [OF assms(1)] assms(4) by (auto simp: list_all_iff)
qed (use assms(5) pay_invD [OF assms(1)] in simp_all)

lemma pay_inv_publish:
  assumes "pay_inv C W strict fl pub B pays jobs run calls" "rids \<inter> pub = {}"
  shows "pay_inv C W strict (rids \<union> fl) (rids \<union> pub) B pays jobs run calls"
proof (rule pay_invI)
  show "rids \<union> fl \<union> mentioned B pays jobs run \<subseteq> rids \<union> pub" "(rids \<union> fl) \<inter> mentioned B pays jobs run = {}"
    using pay_invD(2,3) [OF assms(1)] assms(2) by blast+
qed (use pay_invD [OF assms(1)] in simp_all)

lemma running_ok_append: "running_ok W pays x \<Longrightarrow> running_ok W (pays @ new) x"
  by (auto simp: running_ok_def)

lemma booking_ok_other:
  assumes "booking_ok C pays jobs rid r" "rid' \<noteq> rid" "list_all (is_pending rid') new"
    and "\<forall>j\<in>jobs' - jobs. sj_request_id j = rid'"
  shows "booking_ok C (pays @ new) jobs' rid r"
proof -
  have "filter (\<lambda>x. pr_request_id x = rid) new = []"
    using assms(2,3) by (auto simp: filter_empty_conv list_all_iff is_pending_def)
  then show ?thesis using assms unfolding booking_ok_def by (auto simp del: mset_map)
qed

lemma pay_inv_book:
  assumes inv: "pay_inv C W strict fl pub B pays jobs run calls" and rid: "rid \<in> fl"
    and new: "list_all (is_pending rid) new" "mset (map row_payout new) \<subseteq># mset (rr_payouts r)" "distinct (map pr_id (pays @ new))"
    and jobs: "jobs' \<subseteq> insert (settlement_job_of C r rid) jobs"
  shows "pay_inv C W strict (fl - {rid}) pub (B(rid \<mapsto> r)) (pays @ new) jobs' run calls"
proof (rule pay_invI)
  have rid': "sj_request_id (settlement_job_of C r rid) = rid" by (simp add: settlement_job_of_def)
  have fresh: "rid \<notin> dom B" "rid \<notin> pr_request_id ` set pays" "rid \<notin> sj_request_id ` jobs" "rid \<notin> run_rid ` set run" "rid \<in> pub"
    using pay_invD(2,3) [OF inv] rid unfolding mentioned_def by blast+
  have "pr_request_id ` set new \<subseteq> {rid}" using new(1) by (auto simp: list_all_iff is_pending_def)
  moreover have "sj_request_id ` jobs' \<subseteq> insert rid (sj_request_id ` jobs)" using jobs rid' by auto
  ultimately have "mentioned (B(rid \<mapsto> r)) (pays @ new) jobs' run \<subseteq> insert rid (mentioned B pays jobs run)"
    by (auto simp: mentioned_def)
  then show "fl - {rid} \<union> mentioned (B(rid \<mapsto> r)) (pays @ new) jobs' run \<subseteq> pub"
    "(fl - {rid}) \<inter> mentioned (B(rid \<mapsto> r)) (pays @ new) jobs' run = {}"
    using pay_invD(2,3) [OF inv] fresh(5) by blast+
  have rows: "filter (\<lambda>x. pr_request_id x = rid) (pays @ new) = new"
    using new(1) fresh(2) by (auto simp: filter_empty_conv filter_id_conv list_all_iff is_pending_def)
  have "booking_ok C (pays @ new) (jobs' \<union> rj_job ` set run) rid r"
    unfolding booking_ok_def rows using new(2) fresh(3,4) jobs by (auto simp: run_rid_def simp del: mset_map)
  moreover have "booking_ok C (pays @ new) (jobs' \<union> rj_job ` set run) rid2 r2" if "B rid2 = Some r2" for rid2 r2
  proof (rule booking_ok_other [OF pay_invD(4) [OF inv that] _ new(1)])
    show "rid \<noteq> rid2" using that fresh(1) by auto
    show "\<forall>j\<in>(jobs' \<union> rj_job ` set run) - (jobs \<union> rj_job ` set run). sj_request_id j = rid" using jobs rid' by auto
  qed
  ultimately show "\<forall>rid' r'. (B(rid \<mapsto> r)) rid' = Some r' \<longrightarrow> booking_ok C (pays @ new) (jobs' \<union> rj_job ` set run) rid' r'"
    by simp
  have "call_ok W strict (B(rid \<mapsto> r)) (pays @ new) c" if "call_ok W strict B pays c" for c
    using that fresh(2) by (fastforce simp: call_ok_def split: prod.splits)
  then show "list_all (call_ok W strict (B(rid \<mapsto> r)) (pays @ new)) calls"
    using pay_invD(7) [OF inv] by (simp add: list_all_iff)
  show "list_all (running_ok W (pays @ new)) run"
    using pay_invD(6) [OF inv] running_ok_append by (auto simp: list_all_iff)
qed (use new(3) pay_invD [OF inv] in simp_all)

lemma pay_inv_start:
  assumes inv: "pay_inv C W strict fl pub B pays jobs run calls" and j: "j \<in> jobs" "sj_request_id j \<notin> run_rid ` set run"
    and r: "we_receipt_from_str W (sj_receipt_json j) = Some r"
    and rows: "rows = sort_key pr_created_at (filter (is_pending (sj_request_id j)) pays)"
    and x: "x = \<lparr>rj_job = j, rj_receipt = r, rj_index = 0, rj_rows = map pending_of_row rows\<rparr>"
  shows "pay_inv C W strict fl pub B pays jobs (x # run) calls"
proof (rule pay_invI)
  have "distinct (map pr_id rows)" using pay_invD(1) [OF inv] by (simp add: rows distinct_map inj_on_def)
  then show "list_all (running_ok W pays) (x # run)"
    using r pay_invD(6) [OF inv] unfolding x running_ok_def
    by (auto simp: run_rid_def rows list_all_iff intro!: exI [of _ rows])
  have m: "mentioned B pays jobs (x # run) = mentioned B pays jobs run" using j(1) by (auto simp: mentioned_def x run_rid_def)
  show "fl \<union> mentioned B pays jobs (x # run) \<subseteq> pub" "fl \<inter> mentioned B pays jobs (x # run) = {}"
    unfolding m using pay_invD(2,3) [OF inv] by simp_all
  have "jobs \<union> rj_job ` set (x # run) = jobs \<union> rj_job ` set run" using j(1) by (auto simp: x)
  then show "\<forall>rid r. B rid = Some r \<longrightarrow> booking_ok C pays (jobs \<union> rj_job ` set (x # run)) rid r"
    using pay_invD(4) [OF inv] by simp
  show "distinct (map run_rid (x # run))" using j(2) pay_invD(5) [OF inv] by (simp add: x run_rid_def)
qed (use pay_invD [OF inv] in simp_all)

text \<open>serde gives back the receipt whose serialisation a job carries, and refuses the stand-in for a failed one.\<close>

definition json_ok :: "loop_codec \<Rightarrow> worker_env \<Rightarrow> bool" where
  "json_ok C W \<longleftrightarrow>
     (\<forall>r. case lc_receipt_to_str C r of
            None \<Rightarrow> we_receipt_from_str W ''{}'' = None
          | Some s \<Rightarrow> we_receipt_from_str W s = Some r)"

lemma run_receipt:
  assumes "json_ok C W" "running_ok W pays x" "booking_ok C pays (jobs \<union> rj_job ` set run) (run_rid x) r" "x \<in> set run"
  shows "rj_receipt x = r"
proof -
  have "rj_job x = settlement_job_of C r (run_rid x)" using assms(3,4) by (auto simp: booking_ok_def run_rid_def)
  then have "we_receipt_from_str W (sj_receipt_json (settlement_job_of C r (run_rid x))) = Some (rj_receipt x)"
    using assms(2) by (simp add: running_ok_def)
  moreover have "case lc_receipt_to_str C r of None \<Rightarrow> we_receipt_from_str W ''{}'' = None | Some s \<Rightarrow> we_receipt_from_str W s = Some r"
    using assms(1) by (simp add: json_ok_def)
  ultimately show ?thesis by (auto simp: settlement_job_of_def split: option.splits)
qed

text \<open>A change of rows that keeps their keys.\<close>

lemma map_keys:
  assumes "\<And>x. row_key (g x) = row_key x"
  shows "map pr_id (map g pays) = map pr_id pays" "pr_request_id ` set (map g pays) = pr_request_id ` set pays"
    "map row_payout (filter (\<lambda>x. pr_request_id x = rid) (map g pays)) = map row_payout (filter (\<lambda>x. pr_request_id x = rid) pays)"
proof -
  have k: "pr_id (g x) = pr_id x" "pr_request_id (g x) = pr_request_id x" "row_payout (g x) = row_payout x" for x
    using row_keyD [OF assms] by auto
  show "map pr_id (map g pays) = map pr_id pays" "pr_request_id ` set (map g pays) = pr_request_id ` set pays"
    by (simp_all add: k image_image)
  show "map row_payout (filter (\<lambda>x. pr_request_id x = rid) (map g pays)) = map row_payout (filter (\<lambda>x. pr_request_id x = rid) pays)"
    by (induction pays) (simp_all add: k)
qed

lemma settle_step_rows:
  assumes "settle_step (row_env W a m) r i (pending_of_row row) d = (call, res, d')"
  obtains g where "db_payments d' = map g (db_payments d)" "\<And>x. row_key (g x) = row_key x"
    "\<And>x. pr_id x \<noteq> pr_id row \<Longrightarrow> g x = x" "\<And>x. pr_status x \<noteq> ''pending'' \<Longrightarrow> pr_status (g x) \<noteq> ''pending''"
    "se_err (m i) = None \<Longrightarrow> pr_status (g row) \<noteq> ''pending''"
proof (cases "se_err (m i)")
  case (Some e)
  then have "db_payments d' = map (\<lambda>x. x) (db_payments d)" using settle_step_effect(2) [OF assms] by simp
  with Some show ?thesis by (intro that [of "\<lambda>x. x"]) simp_all
next
  case None
  then obtain f where f: "\<forall>x. row_key (f x) = row_key x \<and> pr_status (f x) \<noteq> ''pending''"
      "d' = d\<lparr>db_payments := update_where (\<lambda>x. pr_id x = pr_id row) f (db_payments d)\<rparr>"
    using settle_step_effect(2) [OF assms] by blast
  show ?thesis
    by (rule that [of "\<lambda>x. if pr_id x = pr_id row then f x else x"]) (use f in \<open>auto simp: update_where_def\<close>)
qed

lemma running_ok_keep:
  assumes "running_ok W pays x" "\<And>r. r \<in> set pays \<Longrightarrow> is_pending (run_rid x) r \<Longrightarrow> g r = r"
  shows "running_ok W (map g pays) x"
proof -
  obtain rows where rows: "rj_rows x = map pending_of_row rows" "set rows \<subseteq> set pays" "distinct (map pr_id rows)"
      "list_all (is_pending (run_rid x)) rows" "we_receipt_from_str W (sj_receipt_json (rj_job x)) = Some (rj_receipt x)"
    using assms(1) by (auto simp: running_ok_def)
  have "set rows \<subseteq> set (map g pays)"
  proof
    fix r
    assume "r \<in> set rows"
    then have "r \<in> set pays" "g r = r" using rows(2,4) assms(2) by (auto simp: list_all_iff)
    then show "r \<in> set (map g pays)" by (metis image_eqI set_map)
  qed
  with rows show ?thesis unfolding running_ok_def by blast
qed

lemma call_ok_keep:
  assumes "call_ok W strict B pays c" "\<And>x. row_key (g x) = row_key x"
    and "\<And>x. pr_status x \<noteq> ''pending'' \<Longrightarrow> pr_status (g x) \<noteq> ''pending''"
  shows "call_ok W strict B (map g pays) c"
proof -
  obtain pid rid call where c: "c = (pid, rid, call)" by (cases c)
  then obtain row where "row \<in> set pays" "pr_id row = pid" "pr_request_id row = rid" "strict \<longrightarrow> pr_status row \<noteq> ''pending''"
      "\<forall>r. B rid = Some r \<longrightarrow> call_body call = payout_body W r (row_payout row)"
    using assms(1) by (auto simp: call_ok_def)
  then have "g row \<in> set (map g pays) \<and> pr_id (g row) = pid \<and> pr_request_id (g row) = rid \<and>
      (strict \<longrightarrow> pr_status (g row) \<noteq> ''pending'') \<and> (\<forall>r. B rid = Some r \<longrightarrow> call_body call = payout_body W r (row_payout (g row)))"
    using row_keyD [OF assms(2) [of row]] assms(3) [of row] by simp
  then show ?thesis unfolding c call_ok_def by blast
qed

text \<open>
  One row is rewritten by \<open>g\<close>: it was pending in the job in progress \<open>x\<close>, and only it may change.
\<close>

lemma running_ok_next:
  assumes "running_ok W pays x" "rj_rows x = p # ps"
  obtains row rows where "p = pending_of_row row" "row \<in> set pays" "is_pending (run_rid x) row"
    "\<And>g. (\<And>y. pr_id y \<noteq> pr_id row \<Longrightarrow> g y = y) \<Longrightarrow>
       running_ok W (map g pays) (x\<lparr>rj_index := Suc (rj_index x), rj_rows := ps\<rparr>)"
proof -
  obtain row rows where rows: "p = pending_of_row row" "ps = map pending_of_row rows" "row \<in> set pays" "set rows \<subseteq> set pays"
      "distinct (pr_id row # map pr_id rows)" "is_pending (run_rid x) row" "list_all (is_pending (run_rid x)) rows"
    using assms by (fastforce simp: running_ok_def map_eq_Cons_conv)
  have "running_ok W (map g pays) (x\<lparr>rj_index := Suc (rj_index x), rj_rows := ps\<rparr>)"
    if g: "\<And>y. pr_id y \<noteq> pr_id row \<Longrightarrow> g y = y" for g
  proof -
    have "set rows \<subseteq> set (map g pays)"
    proof
      fix r
      assume r: "r \<in> set rows"
      then have "pr_id r \<noteq> pr_id row" using rows(5) by (metis distinct.simps(2) image_eqI set_map)
      then show "r \<in> set (map g pays)" using r rows(4) g by (metis image_eqI set_map subsetD)
    qed
    then show ?thesis using assms(1) rows(2,5,7) unfolding running_ok_def by (auto simp: run_rid_def)
  qed
  then show ?thesis using rows that by blast
qed

lemma running_ok_others:
  assumes inv: "pay_inv C W strict fl pub B pays jobs (before @ x # after) calls" and y: "y \<in> set before \<union> set after"
    and row: "row \<in> set pays" "is_pending (run_rid x) row" and g: "\<And>y. pr_id y \<noteq> pr_id row \<Longrightarrow> g y = y"
  shows "running_ok W (map g pays) y"
proof (rule running_ok_keep)
  show "running_ok W pays y" using pay_invD(6) [OF inv] y by (auto simp: list_all_iff)
  have "run_rid y \<noteq> run_rid x" using pay_invD(5) [OF inv] y by (auto simp: image_iff)
  moreover have "r = row" if "r \<in> set pays" "pr_id r = pr_id row" for r
    using that row(1) pay_invD(1) [OF inv] by (simp add: distinct_map inj_on_def)
  ultimately show "g r = r" if "r \<in> set pays" "is_pending (run_rid y) r" for r
    using that row(2) by (intro g) (metis is_pending_def)
qed

text \<open>A pending row was not paid yet, if every outcome was recorded.\<close>

lemma pending_not_called:
  assumes inv: "pay_inv C W strict fl pub B pays jobs run calls" and row: "row \<in> set pays" "is_pending rid row" and strict
  shows "pr_id row \<notin> fst ` set calls"
proof
  assume "pr_id row \<in> fst ` set calls"
  then obtain y where y: "y \<in> set pays" "pr_id y = pr_id row" "pr_status y \<noteq> ''pending''"
    using pay_invD(7) [OF inv] \<open>strict\<close> by (fastforce simp: list_all_iff call_ok_def split: prod.splits)
  then have "y = row" using row(1) pay_invD(1) [OF inv] by (simp add: distinct_map inj_on_def)
  then show False using y(3) row(2) by (simp add: is_pending_def)
qed

lemma pay_inv_row:
  assumes inv: "pay_inv C W strict fl pub B pays jobs (before @ x # after) calls"
    and json: "json_ok C W" and p: "rj_rows x = p # ps" and d: "pays = db_payments d"
    and step: "settle_step (row_env W a m) (rj_receipt x) (rj_index x) p d = (call, res, d')"
    and strict: "strict \<Longrightarrow> se_err (m (rj_index x)) = None"
    and x': "x' = x\<lparr>rj_index := Suc (rj_index x), rj_rows := ps\<rparr>"
  shows "pay_inv C W strict fl pub B (db_payments d') jobs (before @ (if is_ok res then [x'] else []) @ after)
    (calls @ [(pp_id p, run_rid x, call)])"
proof -
  let ?run = "before @ (if is_ok res then [x'] else []) @ after"
  have okx: "running_ok W pays x" using pay_invD(6) [OF inv] by simp
  obtain row where row: "p = pending_of_row row" "row \<in> set pays" "is_pending (run_rid x) row"
      "\<And>g. (\<And>y. pr_id y \<noteq> pr_id row \<Longrightarrow> g y = y) \<Longrightarrow> running_ok W (map g pays) x'"
    using running_ok_next [OF okx p] unfolding x' by blast
  obtain g where g: "db_payments d' = map g pays" "\<And>x. row_key (g x) = row_key x" "\<And>x. pr_id x \<noteq> pr_id row \<Longrightarrow> g x = x"
      "\<And>x. pr_status x \<noteq> ''pending'' \<Longrightarrow> pr_status (g x) \<noteq> ''pending''"
      "se_err (m (rj_index x)) = None \<Longrightarrow> pr_status (g row) \<noteq> ''pending''"
    using settle_step_rows step unfolding row(1) d by blast
  have rid': "run_rid x' = run_rid x" "rj_job x' = rj_job x" by (simp_all add: x' run_rid_def)
  have call: "call = payout_call W (rj_receipt x) (row_payout row)"
    using settle_step_effect(1) step unfolding row(1) by (metis settle_call_payout)
  note key = row_keyD [OF g(2) [of row]]
  show ?thesis unfolding g(1)
  proof (rule pay_invI)
    show "distinct (map pr_id (map g pays))" using pay_invD(1) [OF inv] unfolding map_keys(1) [OF g(2)] .
    have "mentioned B (map g pays) jobs ?run \<subseteq> mentioned B pays jobs (before @ x # after)"
      using rid'(1) map_keys(2) [OF g(2)] unfolding mentioned_def by auto
    then show "fl \<union> mentioned B (map g pays) jobs ?run \<subseteq> pub" "fl \<inter> mentioned B (map g pays) jobs ?run = {}"
      using pay_invD(2,3) [OF inv] by blast+
    have "rj_job ` set ?run \<subseteq> rj_job ` set (before @ x # after)" using rid'(2) by auto
    then show "\<forall>rid r. B rid = Some r \<longrightarrow> booking_ok C (map g pays) (jobs \<union> rj_job ` set ?run) rid r"
      using pay_invD(4) [OF inv] unfolding booking_ok_def map_keys(3) [OF g(2)] by blast
    show "distinct (map run_rid ?run)" using pay_invD(5) [OF inv] rid'(1) by auto
    show "list_all (running_ok W (map g pays)) ?run"
      using row(4) [OF g(3)] running_ok_others [OF inv _ row(2,3) g(3)] by (auto simp: list_all_iff)
    have "call_body call = payout_body W r (row_payout (g row))" if "B (run_rid x) = Some r" for r
      using call key run_receipt [OF json okx pay_invD(4) [OF inv that]] by simp
    moreover have "g row \<in> set (map g pays)" "pr_id (g row) = pp_id p" "pr_request_id (g row) = run_rid x"
      "strict \<longrightarrow> pr_status (g row) \<noteq> ''pending''"
      using row(1-3) key g(5) strict by (simp_all add: is_pending_def)
    ultimately have "call_ok W strict B (map g pays) (pp_id p, run_rid x, call)" unfolding call_ok_def by blast
    then show "list_all (call_ok W strict B (map g pays)) (calls @ [(pp_id p, run_rid x, call)])"
      using pay_invD(7) [OF inv] call_ok_keep [OF _ g(2,4)] by (auto simp: list_all_iff)
    show "strict \<longrightarrow> distinct (map fst (calls @ [(pp_id p, run_rid x, call)]))"
      using pay_invD(8) [OF inv] pending_not_called [OF inv row(2,3)] by (simp add: row(1))
  qed
qed

section \<open>The system keeps it\<close>

definition queued_jobs :: "system \<Rightarrow> settlement_job set" where
  "queued_jobs s = set (case el_settlement (sy_loop s) of None \<Rightarrow> [] | Some q \<Rightarrow> q) \<union> set (sy_storage s)"

definition sys_inv :: "loop_codec \<Rightarrow> worker_env \<Rightarrow> bool \<Rightarrow> system \<Rightarrow> bool" where
  "sys_inv C W strict s \<longleftrightarrow>
     (\<exists>d. el_pg_pool (sy_loop s) = Some d \<and> db_wf d \<and>
        pay_inv C W strict (dom (el_in_flight (sy_loop s))) (sy_published s) (sy_booked s) (db_payments d)
          (queued_jobs s) (sy_running s) (sy_calls s))"

lemma sys_invE:
  assumes "sys_inv C W strict s"
  obtains d where "el_pg_pool (sy_loop s) = Some d" "db_wf d"
    "pay_inv C W strict (dom (el_in_flight (sy_loop s))) (sy_published s) (sy_booked s) (db_payments d)
       (queued_jobs s) (sy_running s) (sy_calls s)"
  using assms unfolding sys_inv_def by blast

lemma command_frame:
  assumes "handle_command C ce c st = (out, st')"
  shows "el_pg_pool st' = el_pg_pool st" "el_settlement st' = el_settlement st" "el_archive st' = el_archive st"
    "dom (el_in_flight st') \<subseteq> publishes c \<union> dom (el_in_flight st)"
  using assms by (auto simp: handle_command_def publish_request_def publishes_def split: mesh_command.splits option.splits if_splits)

lemma event_frame:
  assumes "handle_swarm_event C e ev st = Some (out, st')" "\<not> is_completion ev"
  shows "el_pg_pool st' = el_pg_pool st" "el_settlement st' = el_settlement st" "el_in_flight st' = el_in_flight st"
  using assms
  by (auto simp: handle_swarm_event_def finish_inference_def handle_gossip_message_def is_completion_def
      split: swarm_event.splits option.splits if_splits)

lemma update_payments_wf:
  "db_wf d \<Longrightarrow> (\<And>x. pr_id (f x) = pr_id x) \<Longrightarrow> db_wf (d\<lparr>db_payments := update_where p f (db_payments d)\<rparr>)"
  by (simp add: db_wf_def update_where_keys)

lemma settle_step_wf:
  assumes "settle_step e r i p d = (call, res, d')" "db_wf d"
  shows "db_wf d'"
  using assms update_payments_wf [OF assms(2)]
  by (auto simp: settle_step_def mark_submitted_def mark_failed_def update_payment_def split: prod.splits sum.splits option.splits)

lemma jobs_step_wf: "jobs_step d d' \<Longrightarrow> db_wf d \<Longrightarrow> db_wf d' \<and> db_payments d' = db_payments d"
  by (induction rule: jobs_step.induct)
    (auto simp: job_push_def mark_completed_def set_job_status_def handle_dispatch_timeout_def Let_def db_wf_def
      update_where_keys list_ex_iff dispatch_row_of_def split: option.splits sum.splits prod.splits)

lemma sys_inv_ack:
  assumes ack: "handle_completion_ack C e sender ack (sy_loop s) = (resp, st')"
    and d: "el_pg_pool (sy_loop s) = Some d" "db_wf d"
      "pay_inv C W strict (dom (el_in_flight (sy_loop s))) (sy_published s) (sy_booked s) (db_payments d)
         (queued_jobs s) (sy_running s) (sy_calls s)"
  shows "sys_inv C W strict (s\<lparr>sy_loop := st', sy_booked :=
    record_booking (ca_request_id ack) (el_in_flight (sy_loop s) (ca_request_id ack)) resp (sy_booked s)\<rparr>)"
proof -
  let ?rid = "ca_request_id ack"
  have wf: "db_wf d'" if "el_pg_pool st' = Some d'" for d' using ack_pool_wf [OF _ ack that] d(1,2) by simp
  show ?thesis
  proof (rule ack_effect [OF d(1) ack refl, where B = "sy_booked s"])
    fix d'
    assume u: "el_pg_pool st' = Some d'" "db_payments d' = db_payments d" "el_settlement st' = el_settlement (sy_loop s)"
      "dom (el_in_flight st') \<subseteq> dom (el_in_flight (sy_loop s))"
      "record_booking ?rid (el_in_flight (sy_loop s) ?rid) resp (sy_booked s) = sy_booked s"
    then show ?thesis
      using pay_inv_mono [OF d(3) u(4) subset_refl subset_refl pay_invD(5) [OF d(3)]] wf [OF u(1)]
      unfolding sys_inv_def by (simp add: queued_jobs_def)
  next
    fix d' r new
    assume b: "el_pg_pool st' = Some d'" "db_payments d' = db_payments d @ new" "list_all (is_pending ?rid) new"
      "mset (map row_payout new) \<subseteq># mset (rr_payouts r)"
      "el_settlement st' = el_settlement (sy_loop s) \<or>
       el_settlement st' = map_option (\<lambda>q. q @ [settlement_job_of C r ?rid]) (el_settlement (sy_loop s))"
      "el_in_flight st' = (el_in_flight (sy_loop s))(?rid := None)" "el_in_flight (sy_loop s) ?rid \<noteq> None"
      "record_booking ?rid (el_in_flight (sy_loop s) ?rid) resp (sy_booked s) = (sy_booked s)(?rid \<mapsto> r)"
    have dis: "distinct (map pr_id (db_payments d @ new))" using wf [OF b(1)] by (simp add: db_wf_def b(2) flip: b(2))
    have jobs: "queued_jobs (s\<lparr>sy_loop := st'\<rparr>) \<subseteq> insert (settlement_job_of C r ?rid) (queued_jobs s)"
      using b(5) by (cases "el_settlement (sy_loop s)") (auto simp: queued_jobs_def)
    have "?rid \<in> dom (el_in_flight (sy_loop s))" using b(7) by auto
    from pay_inv_book [OF d(3) this b(3,4) dis jobs] show ?thesis
      using wf [OF b(1)] b(1,2,6,8) unfolding sys_inv_def by (simp add: queued_jobs_def)
  qed
qed

lemma sys_inv_start:
  assumes j: "j \<in> set (sy_storage s)" "sj_request_id j \<notin> running_rids s"
    and d: "el_pg_pool (sy_loop s) = Some d" "db_wf d"
      "pay_inv C W strict (dom (el_in_flight (sy_loop s))) (sy_published s) (sy_booked s) (db_payments d)
         (queued_jobs s) (sy_running s) (sy_calls s)"
    and rows: "pending_for_request env (sj_request_id j) d = Inr rows" "we_receipt_from_str W (sj_receipt_json j) = Some r"
  shows "sys_inv C W strict (s\<lparr>sy_running := \<lparr>rj_job = j, rj_receipt = r, rj_index = 0, rj_rows = rows\<rparr> # sy_running s\<rparr>)"
proof -
  have "rows = map pending_of_row (sort_key pr_created_at (filter (is_pending (sj_request_id j)) (db_payments d)))"
    using rows(1) by (simp add: pending_for_request_def split: option.splits)
  moreover have "j \<in> queued_jobs s" "sj_request_id j \<notin> run_rid ` set (sy_running s)"
    using j by (simp_all add: queued_jobs_def running_rids_def run_rid_def image_def)
  ultimately show ?thesis
    using pay_inv_start [OF d(3) _ _ rows(2) refl refl] d(1,2) unfolding sys_inv_def by (simp add: queued_jobs_def)
qed

lemma sys_inv_row:
  assumes json: "json_ok C W" and run: "sy_running s = before @ run # after" "rj_rows run = p # ps"
    and d: "el_pg_pool (sy_loop s) = Some d" "db_wf d"
      "pay_inv C W strict (dom (el_in_flight (sy_loop s))) (sy_published s) (sy_booked s) (db_payments d)
         (queued_jobs s) (sy_running s) (sy_calls s)"
    and step: "settle_step (row_env W answers marks) (rj_receipt run) (rj_index run) p d = (call, res, d')"
      "strict \<Longrightarrow> se_err (marks (rj_index run)) = None"
  shows "sys_inv C W strict ((set_pool d' s)
    \<lparr>sy_running := before @ (if is_ok res then [run\<lparr>rj_index := Suc (rj_index run), rj_rows := ps\<rparr>] else []) @ after,
     sy_calls := sy_calls s @ [(pp_id p, sj_request_id (rj_job run), call)]\<rparr>)"
proof -
  have "pay_inv C W strict (dom (el_in_flight (sy_loop s))) (sy_published s) (sy_booked s) (db_payments d)
      (queued_jobs s) (before @ run # after) (sy_calls s)" using d(3) run(1) by simp
  from pay_inv_row [OF this json run(2) refl step refl] show ?thesis
    using settle_step_wf [OF step(1) d(2)] unfolding sys_inv_def by (simp add: set_pool_def queued_jobs_def run_rid_def)
qed

lemma sys_step_inv:
  assumes "json_ok C W" "sys_step C W strict s s'" "sys_inv C W strict s"
  shows "sys_inv C W strict s'"
proof -
  obtain d where d: "el_pg_pool (sy_loop s) = Some d" "db_wf d"
      "pay_inv C W strict (dom (el_in_flight (sy_loop s))) (sy_published s) (sy_booked s) (db_payments d)
         (queued_jobs s) (sy_running s) (sy_calls s)"
    using assms(3) by (rule sys_invE)
  note dist = pay_invD(5) [OF d(3)]
  show ?thesis using assms(2)
  proof cases
    case (cmd ce c out st')
    note fr = command_frame [OF cmd(2)]
    have "pay_inv C W strict (dom (el_in_flight st')) (publishes c \<union> sy_published s) (sy_booked s) (db_payments d)
        (queued_jobs s) (sy_running s) (sy_calls s)"
      by (rule pay_inv_mono [OF pay_inv_publish [OF d(3) cmd(3)] fr(4) subset_refl subset_refl dist])
    then show ?thesis unfolding cmd(1) sys_inv_def using d(1,2) fr(1,2) by (simp add: queued_jobs_def)
  next
    case (ack e sender ack resp st')
    then show ?thesis using sys_inv_ack [OF ack(2) d] by simp
  next
    case (event e ev out st')
    then show ?thesis using d event_frame [OF event(2,3)] unfolding sys_inv_def by (simp add: queued_jobs_def)
  next
    case (push j q stored)
    have "queued_jobs s' \<subseteq> queued_jobs s" using push by (auto simp: queued_jobs_def)
    from pay_inv_mono [OF d(3) subset_refl this subset_refl dist] show ?thesis
      using d(1,2) unfolding sys_inv_def push(1) by simp
  next
    case (track d0 d')
    then have "db_wf d'" "db_payments d' = db_payments d" using d(1,2) jobs_step_wf by auto
    then show ?thesis using d(3) unfolding sys_inv_def track(1) by (simp add: set_pool_def queued_jobs_def)
  next
    case (start j d0 env rows r)
    then show ?thesis using sys_inv_start [OF start(2,3) d _ start(6)] d(1) by simp
  next
    case (row before run after p ps d0 answers marks call res d')
    have "d0 = d" using row(4) d(1) by simp
    show ?thesis unfolding row(1)
      by (rule sys_inv_row [OF _ row(2,3) d row(5) [unfolded \<open>d0 = d\<close>] row(6)]) (use assms(1) in simp_all)
  next
    case (finish before run after)
    have "queued_jobs s' \<subseteq> queued_jobs s" using finish set_remove1_subset by (fastforce simp: queued_jobs_def)
    moreover have "set (before @ after) \<subseteq> set (sy_running s)" "distinct (map run_rid (before @ after))"
      using dist by (auto simp: finish(2))
    ultimately show ?thesis
      using pay_inv_mono [OF d(3) subset_refl] d(1,2) unfolding sys_inv_def finish(1) by simp
  next
    case (discard j)
    have "queued_jobs s' \<subseteq> queued_jobs s" using discard set_remove1_subset by (fastforce simp: queued_jobs_def)
    from pay_inv_mono [OF d(3) subset_refl this subset_refl dist] show ?thesis
      using d(1,2) unfolding sys_inv_def discard(1) by simp
  qed (use d in \<open>simp_all add: sys_inv_def queued_jobs_def\<close>)
qed

interpretation payments: guarded_invariant "json_ok C W" "sys_step C W strict" "sys_inv C W strict" for C W strict
  by unfold_locales (rule sys_step_inv)

end
