(* ===== verification/Payment_Props.thy ===== *)
theory Payment_Props
  imports Payment_System
begin

text \<open>
  What one step does to the rows, the bookings and the calls, and what follows: where each call of the sidecar
  comes from, that a request without a job stays as it is, that a job in progress covers its pending rows, and
  that the event loop inside the system only makes steps of the event loop of \<^verbatim>\<open>Event_Loop\<close>.
\<close>

section \<open>Start\<close>

text \<open>
  The state when the loop is spawned: the tables and the storage may hold what an earlier process
  left, for the requests \<open>pub\<close>.
\<close>

definition boot_system :: "peer_registry \<Rightarrow> archive \<Rightarrow> db \<Rightarrow> settlement_job list \<Rightarrow> uuid set \<Rightarrow> system" where
  "boot_system reg arch d storage pub =
     \<lparr>sy_loop = with_pg_and_settlement reg arch (Some d) (Some []), sy_storage = storage, sy_running = [], sy_published = pub,
      sy_booked = Map.empty, sy_calls = []\<rparr>"

definition left_over :: "db \<Rightarrow> settlement_job list \<Rightarrow> uuid set" where
  "left_over d storage = pr_request_id ` set (db_payments d) \<union> sj_request_id ` set storage"

lemma boot_inv:
  assumes "db_wf d" "left_over d storage \<subseteq> pub"
  shows "sys_inv C W strict (boot_system reg arch d storage pub)"
  using assms
  by (auto simp: sys_inv_def boot_system_def with_pg_and_settlement_def pay_inv_def mentioned_def
      queued_jobs_def left_over_def db_wf_def)

section \<open>One step\<close>

text \<open>A step leaves the rows alone, books a request that was in flight, or pays a row of a job in progress.\<close>

lemma sys_step_cases:
  assumes "sys_step C W strict s s'" "sys_inv C W strict s" "el_pg_pool (sy_loop s) = Some d"
  obtains
    (same) d' where "el_pg_pool (sy_loop s') = Some d'" "db_payments d' = db_payments d" "sy_booked s' = sy_booked s"
      "sy_calls s' = sy_calls s"
  | (book) d' rid r new where "el_pg_pool (sy_loop s') = Some d'" "db_payments d' = db_payments d @ new"
      "list_all (is_pending rid) new" "sy_booked s' = (sy_booked s)(rid \<mapsto> r)" "rid \<in> dom (el_in_flight (sy_loop s))"
      "sy_calls s' = sy_calls s" "\<exists>now sender ack meta. ca_request_id ack = rid \<and> r = receipt_of_ack C now sender ack meta"
  | (pay) d' g run row call where "el_pg_pool (sy_loop s') = Some d'" "db_payments d' = map g (db_payments d)"
      "\<And>x. row_key (g x) = row_key x" "\<And>x. pr_id x \<noteq> pr_id row \<Longrightarrow> g x = x" "row \<in> set (db_payments d)"
      "run \<in> set (sy_running s)" "is_pending (run_rid run) row" "sy_booked s' = sy_booked s"
      "sy_calls s' = sy_calls s @ [(pr_id row, run_rid run, call)]"
  using assms(1)
proof cases
  case (cmd ce c out st')
  then show ?thesis using same assms(3) command_frame(1) [OF cmd(2)] by simp
next
  case (event e ev out st')
  then show ?thesis using same assms(3) event_frame(1) [OF event(2,3)] by simp
next
  case (ack e sender ack resp st')
  show ?thesis
  proof (rule ack_effect [OF assms(3) ack(2) refl, where B = "sy_booked s"])
    fix d' r new
    assume "el_pg_pool st' = Some d'" "db_payments d' = db_payments d @ new" "list_all (is_pending (ca_request_id ack)) new"
      "el_in_flight (sy_loop s) (ca_request_id ack) \<noteq> None"
      "record_booking (ca_request_id ack) (el_in_flight (sy_loop s) (ca_request_id ack)) resp (sy_booked s) =
       (sy_booked s)(ca_request_id ack \<mapsto> r)" "\<exists>now meta. r = receipt_of_ack C now sender ack meta"
    then show ?thesis using book [of d' new "ca_request_id ack" r] unfolding ack(1) by auto
  qed (use same ack(1) in simp)
next
  case (track d0 d')
  then show ?thesis using same assms(2,3) jobs_step_wf by (auto simp: set_pool_def elim: sys_invE)
next
  case (row before run after p ps d0 answers marks call res d')
  have run: "run \<in> set (sy_running s)" and "d0 = d" using row(2,4) assms(3) by auto
  note step = row(5) [unfolded \<open>d0 = d\<close>]
  have "running_ok W (db_payments d) run"
    using assms(2,3) run by (auto simp: sys_inv_def pay_inv_def list_all_iff)
  from running_ok_next [OF this row(3)] obtain r where r: "p = pending_of_row r" "r \<in> set (db_payments d)"
      "is_pending (run_rid run) r" by blast
  obtain g where "db_payments d' = map g (db_payments d)" "\<And>x. row_key (g x) = row_key x" "\<And>x. pr_id x \<noteq> pr_id r \<Longrightarrow> g x = x"
    using settle_step_rows step unfolding r(1) by metis
  with r run show ?thesis using pay [of d' g r run call] unfolding row(1) by (simp add: set_pool_def run_rid_def)
qed (use same assms(3) in simp_all)

section \<open>Calls of the sidecar\<close>

definition calls_for :: "uuid \<Rightarrow> system \<Rightarrow> (uuid \<times> uuid \<times> sidecar_call) list" where
  "calls_for rid s = filter (\<lambda>c. fst (snd c) = rid) (sy_calls s)"

text \<open>Every row is of a request of an earlier process or of one booked by this one.\<close>

definition accounted :: "uuid set \<Rightarrow> system \<Rightarrow> bool" where
  "accounted pub s \<longleftrightarrow>
     (\<forall>d. el_pg_pool (sy_loop s) = Some d \<longrightarrow> pr_request_id ` set (db_payments d) \<subseteq> pub \<union> dom (sy_booked s))"

lemma accounted_step:
  assumes "sys_step C W strict s s'" "sys_inv C W strict s" "accounted pub s"
  shows "accounted pub s'"
proof -
  obtain d where d: "el_pg_pool (sy_loop s) = Some d" using assms(2) by (rule sys_invE)
  then have rows: "pr_request_id ` set (db_payments d) \<subseteq> pub \<union> dom (sy_booked s)" using assms(3) by (simp add: accounted_def)
  show ?thesis
  proof (rule sys_step_cases [OF assms(1,2) d])
    fix d' rid r new
    assume b: "el_pg_pool (sy_loop s') = Some d'" "db_payments d' = db_payments d @ new" "list_all (is_pending rid) new"
      "sy_booked s' = (sy_booked s)(rid \<mapsto> r)"
    have "pr_request_id ` set new \<subseteq> {rid}" using b(3) by (auto simp: list_all_iff is_pending_def)
    then show ?thesis using rows b(1,2,4) unfolding accounted_def by auto
  next
    fix d' g
    assume "el_pg_pool (sy_loop s') = Some d'" "db_payments d' = map g (db_payments d)" "\<And>x. row_key (g x) = row_key x"
      "sy_booked s' = sy_booked s"
    then show ?thesis using rows map_keys(2) [of g] unfolding accounted_def by simp
  qed (use rows in \<open>simp add: accounted_def\<close>)
qed

text \<open>The call behind an entry of the log: the row it was made for and the receipt it carries.\<close>

lemma call_row:
  assumes "sys_inv C W strict s" "accounted pub s" "c \<in> set (calls_for rid s)" "rid \<notin> pub"
  obtains d r row where "el_pg_pool (sy_loop s) = Some d" "distinct (map pr_id (db_payments d))" "sy_booked s rid = Some r"
    "mset (map row_payout (rows_of rid d)) \<subseteq># mset (rr_payouts r)"
    "row \<in> set (rows_of rid d)" "pr_id row = fst c" "call_body (snd (snd c)) = payout_body W r (row_payout row)"
proof -
  obtain d where d: "el_pg_pool (sy_loop s) = Some d"
      "pay_inv C W strict (dom (el_in_flight (sy_loop s))) (sy_published s) (sy_booked s) (db_payments d)
         (queued_jobs s) (sy_running s) (sy_calls s)"
    using assms(1) by (rule sys_invE)
  have "call_ok W strict (sy_booked s) (db_payments d) c" "fst (snd c) = rid"
    using pay_invD(7) [OF d(2)] assms(3) by (auto simp: calls_for_def list_all_iff)
  then obtain row where row: "row \<in> set (db_payments d)" "pr_id row = fst c" "pr_request_id row = rid"
      "\<And>r. sy_booked s rid = Some r \<Longrightarrow> call_body (snd (snd c)) = payout_body W r (row_payout row)"
    by (auto simp: call_ok_def split: prod.splits)
  then have "rid \<in> dom (sy_booked s)" using assms(2,4) d(1) by (auto simp: accounted_def)
  then obtain r where r: "sy_booked s rid = Some r" by blast
  then have "mset (map row_payout (rows_of rid d)) \<subseteq># mset (rr_payouts r)"
    using pay_invD(4) [OF d(2) r] by (simp add: booking_ok_def rows_of_def)
  with d(1) pay_invD(1) [OF d(2)] r row show ?thesis by (intro that) (auto simp: rows_of_def)
qed

lemma call_is_payout:
  assumes "sys_inv C W strict s" "accounted pub s" "c \<in> set (calls_for rid s)" "rid \<notin> pub"
  shows "\<exists>r. sy_booked s rid = Some r \<and> call_body (snd (snd c)) \<in> payout_body W r ` set (rr_payouts r)"
proof -
  obtain d r row where r: "sy_booked s rid = Some r" "mset (map row_payout (rows_of rid d)) \<subseteq># mset (rr_payouts r)"
      "row \<in> set (rows_of rid d)" "call_body (snd (snd c)) = payout_body W r (row_payout row)"
    using call_row [OF assms] by metis
  have "row_payout row \<in># mset (map row_payout (rows_of rid d))" using r(3) by auto
  then have "row_payout row \<in> set (rr_payouts r)" using mset_subset_eqD [OF r(2)] by simp
  with r show ?thesis by blast
qed

text \<open>Calls for distinct rows are at most the calls for all rows.\<close>

lemma calls_within_rows:
  fixes cs :: "(uuid \<times> uuid \<times> sidecar_call) list" and rows :: "payment_row list"
  assumes "distinct (map fst cs)" "distinct (map pr_id rows)"
    and "\<And>c. c \<in> set cs \<Longrightarrow> \<exists>row\<in>set rows. pr_id row = fst c \<and> call_body (snd (snd c)) = f row"
  shows "mset (map (\<lambda>c. call_body (snd (snd c))) cs) \<subseteq># image_mset f (mset rows)"
proof -
  define row_of where "row_of c = the (map_of (map (\<lambda>r. (pr_id r, r)) rows) (fst c))" for c :: "uuid \<times> uuid \<times> sidecar_call"
  have row: "row_of c \<in> set rows \<and> pr_id (row_of c) = fst c \<and> call_body (snd (snd c)) = f (row_of c)" if c: "c \<in> set cs" for c
  proof -
    obtain row where row: "row \<in> set rows" "pr_id row = fst c" "call_body (snd (snd c)) = f row" using assms(3) [OF c] by blast
    have "map_of (map (\<lambda>r. (pr_id r, r)) rows) (fst c) = Some row"
      using row assms(2) by (intro map_of_is_SomeI) (auto simp: comp_def intro: rev_image_eqI)
    with row show ?thesis by (simp add: row_of_def)
  qed
  have "map pr_id (map row_of cs) = map fst cs" using row by simp
  then have "distinct (map row_of cs)" using assms(1) distinct_map [of pr_id "map row_of cs"] by argo
  moreover have "set (map row_of cs) \<subseteq> set rows" using row by auto
  moreover have "distinct rows" using assms(2) distinct_map by blast
  ultimately have "mset (map row_of cs) \<subseteq># mset rows"
    by (metis finite_set mset_set_set msubset_mset_set_iff)
  from image_mset_subseteq_mono [OF this, of f] have "mset (map (\<lambda>c. f (row_of c)) cs) \<subseteq># image_mset f (mset rows)"
    by (simp add: image_mset.compositionality comp_def)
  moreover have "map (\<lambda>c. call_body (snd (snd c))) cs = map (\<lambda>c. f (row_of c)) cs" using row by simp
  ultimately show ?thesis by metis
qed

lemma calls_within_receipt:
  assumes inv: "sys_inv C W True s \<and> accounted pub s" and r: "sy_booked s rid = Some r" and rid: "rid \<notin> pub"
  shows "mset (map (\<lambda>c. call_body (snd (snd c))) (calls_for rid s)) \<subseteq># image_mset (payout_body W r) (mset (rr_payouts r))"
proof -
  obtain d where d: "el_pg_pool (sy_loop s) = Some d"
      "pay_inv C W True (dom (el_in_flight (sy_loop s))) (sy_published s) (sy_booked s) (db_payments d)
         (queued_jobs s) (sy_running s) (sy_calls s)"
    using inv [THEN conjunct1] by (rule sys_invE)
  have sub: "mset (map row_payout (rows_of rid d)) \<subseteq># mset (rr_payouts r)"
    using pay_invD(4) [OF d(2) r] by (simp add: booking_ok_def rows_of_def)
  have "distinct (map fst (calls_for rid s))" "distinct (map pr_id (rows_of rid d))"
    using pay_invD(1,8) [OF d(2)] by (simp_all add: calls_for_def rows_of_def distinct_map_filter)
  moreover have "\<exists>row\<in>set (rows_of rid d). pr_id row = fst c \<and> call_body (snd (snd c)) = payout_body W r (row_payout row)"
    if "c \<in> set (calls_for rid s)" for c
    using call_row [OF inv [THEN conjunct1] inv [THEN conjunct2] that rid] r d(1) by (metis option.inject)
  ultimately have "mset (map (\<lambda>c. call_body (snd (snd c))) (calls_for rid s)) \<subseteq># image_mset (\<lambda>row. payout_body W r (row_payout row)) (mset (rows_of rid d))"
    by (rule calls_within_rows)
  also have "\<dots> \<subseteq># image_mset (payout_body W r) (mset (rr_payouts r))"
    using image_mset_subseteq_mono [OF sub, of "payout_body W r"] by (simp add: image_mset.compositionality comp_def)
  finally show ?thesis .
qed

section \<open>A request without a job\<close>

text \<open>
  No job of the request is queued, stored or running and it is no longer in flight, as after a failed
  \<^verbatim>\<open>try_send\<close> or a failed push to the storage.
\<close>

definition orphaned :: "uuid \<Rightarrow> system \<Rightarrow> bool" where
  "orphaned rid s \<longleftrightarrow>
     rid \<in> sy_published s \<and> el_in_flight (sy_loop s) rid = None \<and>
     rid \<notin> sj_request_id ` queued_jobs s \<union> run_rid ` set (sy_running s)"

lemma ack_without_send:
  assumes "ack_valid C ack" "\<not> ae_try_send e" "handle_completion_ack C e sender ack st = (resp, st')"
  shows "el_settlement st' = el_settlement st" "el_in_flight st' (ca_request_id ack) = None"
  using handle_completion_ack_valid [OF assms(1) refl refl, of e sender st] assms(2,3)
  by (auto simp: persist_payments_def consumed_def split: prod.splits sum.splits option.splits if_splits)

lemma ack_queue:
  assumes "el_pg_pool st = Some d" "handle_completion_ack C e sender ack st = (resp, st')" "el_in_flight st rid = None"
    and "j \<in> set (case el_settlement st' of None \<Rightarrow> [] | Some q \<Rightarrow> q)" "sj_request_id j = rid"
  shows "j \<in> set (case el_settlement st of None \<Rightarrow> [] | Some q \<Rightarrow> q)"
proof (rule ack_effect [OF assms(1,2) refl, where B = Map.empty])
  fix r
  assume "el_settlement st' = el_settlement st \<or>
      el_settlement st' = map_option (\<lambda>q. q @ [settlement_job_of C r (ca_request_id ack)]) (el_settlement st)"
    "el_in_flight st (ca_request_id ack) \<noteq> None"
  then show ?thesis using assms(3-5) by (cases "el_settlement st") (auto simp: settlement_job_of_def)
qed (use assms in simp)

lemma ack_in_flight:
  assumes "el_pg_pool st = Some d" "handle_completion_ack C e sender ack st = (resp, st')"
  shows "dom (el_in_flight st') \<subseteq> dom (el_in_flight st)"
  by (rule ack_effect [OF assms refl, where B = Map.empty]) auto

lemma orphaned_step:
  assumes "sys_step C W strict s s'" "sys_inv C W strict s" "orphaned rid s"
  shows "orphaned rid s'"
proof -
  obtain d where d: "el_pg_pool (sy_loop s) = Some d" using assms(2) by (rule sys_invE)
  note o = assms(3) [unfolded orphaned_def]
  show ?thesis using assms(1)
  proof cases
    case (cmd ce c out st')
    then show ?thesis using o command_frame [OF cmd(2)] by (auto simp: orphaned_def queued_jobs_def)
  next
    case (ack e sender ack resp st')
    have "rid \<notin> sj_request_id ` queued_jobs s'"
      using o ack_queue [OF d ack(2), of rid] unfolding ack(1) by (fastforce simp: queued_jobs_def)
    then show ?thesis using o ack_in_flight [OF d ack(2)] unfolding ack(1) by (auto simp: orphaned_def)
  next
    case (event e ev out st')
    then show ?thesis using o event_frame [OF event(2,3)] by (simp add: orphaned_def queued_jobs_def)
  next
    case (start j d0 env rows r)
    then show ?thesis using o by (auto simp: orphaned_def queued_jobs_def run_rid_def)
  next
    case (row before run after p ps d0 answers marks call res d')
    then show ?thesis using o by (auto simp: orphaned_def queued_jobs_def run_rid_def set_pool_def)
  next
    case (finish before run after)
    then show ?thesis using o notin_set_remove1 [of _ "sy_storage s"] by (auto simp: orphaned_def queued_jobs_def)
  next
    case (discard j)
    then show ?thesis using o notin_set_remove1 [of _ "sy_storage s"] by (auto simp: orphaned_def queued_jobs_def)
  qed (use o in \<open>auto simp: orphaned_def queued_jobs_def set_pool_def\<close>)
qed

text \<open>What the payment path knows of a request: its rows and the calls made for it.\<close>

definition payments_of :: "uuid \<Rightarrow> system \<Rightarrow> payment_row list option \<times> (uuid \<times> uuid \<times> sidecar_call) list" where
  "payments_of rid s = (map_option (rows_of rid) (el_pg_pool (sy_loop s)), calls_for rid s)"

lemma rows_of_map:
  assumes "\<And>x. row_key (g x) = row_key x" "\<And>x. x \<in> set (db_payments d) \<Longrightarrow> pr_request_id x = rid \<Longrightarrow> g x = x"
    and "db_payments d' = map g (db_payments d)"
  shows "rows_of rid d' = rows_of rid d"
proof -
  have "pr_request_id (g x) = pr_request_id x" for x using row_keyD [OF assms(1)] by blast
  then show ?thesis using assms(2) by (auto simp: rows_of_def assms(3) filter_map comp_def intro!: map_idI)
qed

lemma orphaned_frozen:
  assumes "sys_step C W strict s s'" "sys_inv C W strict s" "orphaned rid s"
  shows "payments_of rid s' = payments_of rid s"
proof -
  obtain d where d: "el_pg_pool (sy_loop s) = Some d" "db_wf d" using assms(2) by (rule sys_invE)
  show ?thesis
  proof (rule sys_step_cases [OF assms(1,2) d(1)])
    fix d' rid' r new
    assume b: "el_pg_pool (sy_loop s') = Some d'" "db_payments d' = db_payments d @ new" "list_all (is_pending rid') new"
      "rid' \<in> dom (el_in_flight (sy_loop s))" "sy_calls s' = sy_calls s"
    have "rid' \<noteq> rid" using b(4) assms(3) by (auto simp: orphaned_def)
    then have "rows_of rid d' = rows_of rid d"
      using b(3) by (auto simp: rows_of_def b(2) filter_empty_conv list_all_iff is_pending_def)
    then show ?thesis using b(1,5) d(1) by (simp add: payments_of_def calls_for_def)
  next
    fix d' g run row call
    assume p: "el_pg_pool (sy_loop s') = Some d'" "db_payments d' = map g (db_payments d)" "\<And>x. row_key (g x) = row_key x"
      "\<And>x. pr_id x \<noteq> pr_id row \<Longrightarrow> g x = x" "row \<in> set (db_payments d)" "run \<in> set (sy_running s)" "is_pending (run_rid run) row"
      "sy_calls s' = sy_calls s @ [(pr_id row, run_rid run, call)]"
    have rid: "run_rid run \<noteq> rid" using p(6) assms(3) by (auto simp: orphaned_def)
    have "g x = x" if "x \<in> set (db_payments d)" "pr_request_id x = rid" for x
    proof (rule p(4))
      show "pr_id x \<noteq> pr_id row"
        using that p(5,7) rid d(2) by (auto simp: db_wf_def distinct_map is_pending_def dest: inj_onD)
    qed
    from rows_of_map [OF p(3) this p(2)] show ?thesis using p(1,8) d(1) rid by (simp add: payments_of_def calls_for_def)
  qed (use d in \<open>simp add: payments_of_def calls_for_def rows_of_def\<close>)
qed

lemma in_flight_unpaid:
  assumes "sys_inv C W strict s" "rid \<in> dom (el_in_flight (sy_loop s))"
  shows "calls_for rid s = []" "rid \<in> sy_published s" "rid \<notin> sj_request_id ` queued_jobs s" "rid \<notin> run_rid ` set (sy_running s)"
proof -
  obtain d :: db where d: "pay_inv C W strict (dom (el_in_flight (sy_loop s))) (sy_published s) (sy_booked s) (db_payments d)
      (queued_jobs s) (sy_running s) (sy_calls s)"
    using assms(1) by (rule sys_invE)
  note sep = pay_invD(2,3) [OF d] assms(2)
  show "rid \<in> sy_published s" "rid \<notin> sj_request_id ` queued_jobs s" "rid \<notin> run_rid ` set (sy_running s)"
    using sep unfolding mentioned_def by blast+
  have "rid \<notin> pr_request_id ` set (db_payments d)" using sep unfolding mentioned_def by blast
  moreover have "fst (snd c) \<in> pr_request_id ` set (db_payments d)" if "c \<in> set (sy_calls s)" for c
    using pay_invD(7) [OF d] that by (cases c) (auto simp: list_all_iff call_ok_def)
  ultimately show "calls_for rid s = []" by (auto simp: calls_for_def filter_empty_conv)
qed

section \<open>The loop inside the system\<close>

lemma sys_step_loop:
  assumes "sys_step C W strict s s'" "sys_inv C W strict s"
  shows "(loop_step C)\<^sup>*\<^sup>* (sy_loop s) (sy_loop s')"
proof -
  obtain d where d: "el_pg_pool (sy_loop s) = Some d" "db_wf d" using assms(2) by (rule sys_invE)
  note one = r_into_rtranclp [of "loop_step C"]
  show ?thesis using assms(1)
  proof cases
    case (cmd ce c out st')
    then show ?thesis by (auto intro: one loop_step.cmd)
  next
    case (ack e sender ack resp st')
    then show ?thesis using one [OF ack_step [of C "sy_loop s" e sender ack]] by simp
  next
    case (event e ev out st')
    then show ?thesis by (auto intro: one loop_step.swarm)
  next
    case (evict now)
    then show ?thesis by (auto intro: one loop_step.evict)
  next
    case (bids rid ch ch')
    from bids(3) show ?thesis
    proof (elim disjE conjE)
      assume "ch' = ch\<lparr>bc_queue := tl (bc_queue ch)\<rparr>" "bc_queue ch \<noteq> []"
      then show ?thesis using bids by (cases "bc_queue ch") (auto intro!: one loop_step.recv_bid)
    qed (use bids in \<open>auto intro!: one loop_step.drop_receiver\<close>)
  next
    case (push j q stored)
    then show ?thesis by (auto intro: one loop_step.forward_job)
  next
    case (track d0 d')
    then have "db_wf d'" using d jobs_step_wf by auto
    then show ?thesis using one [OF loop_step.other_writer [OF d(1)]] track(1) by (simp add: set_pool_def)
  next
    case (row before run after p ps d0 answers marks call res d')
    then have "db_wf d'" using d settle_step_wf by fastforce
    then show ?thesis using one [OF loop_step.other_writer [OF d(1)]] row(1) by (simp add: set_pool_def)
  qed simp_all
qed

text \<open>
  The system is a refinement of the event loop with arbitrary other writers: whatever the system
  reaches from its start, its event loop reaches by steps of the loop alone, so every invariant of the loop
  holds in the system.
\<close>

theorem system_refines_loop:
  assumes "json_ok C W" "db_wf d" "left_over d storage \<subseteq> pub"
    and "(sys_step C W strict)\<^sup>*\<^sup>* (boot_system reg arch d storage pub) s"
  shows "(loop_step C)\<^sup>*\<^sup>* (with_pg_and_settlement reg arch (Some d) (Some [])) (sy_loop s)"
  using assms(4)
proof (induction rule: rtranclp_induct)
  case base
  show ?case by (simp add: boot_system_def)
next
  case (step s s')
  then show ?case
    using sys_step_loop payments.reachable_guarded [OF assms(1) step(1) boot_inv [OF assms(2,3)]] by (meson rtranclp_trans)
qed

section \<open>A finished job\<close>

text \<open>
  A job in progress still has to handle every row of its request that is pending, and a row of this
  process that is no longer pending was sent to the sidecar.
\<close>

definition covers :: "payment_row list \<Rightarrow> running_job \<Rightarrow> bool" where
  "covers pays x \<longleftrightarrow> list_all (\<lambda>row. is_pending (run_rid x) row \<longrightarrow> pr_id row \<in> pp_id ` set (rj_rows x)) pays"

definition handled :: "uuid set \<Rightarrow> (uuid \<times> uuid \<times> sidecar_call) list \<Rightarrow> payment_row \<Rightarrow> bool" where
  "handled pub calls row \<longleftrightarrow> pr_request_id row \<in> pub \<or> pr_status row = ''pending'' \<or> pr_id row \<in> fst ` set calls"

definition covered :: "uuid set \<Rightarrow> system \<Rightarrow> bool" where
  "covered pub s \<longleftrightarrow>
     (\<forall>d. el_pg_pool (sy_loop s) = Some d \<longrightarrow>
        list_all (covers (db_payments d)) (sy_running s) \<and> list_all (handled pub (sy_calls s)) (db_payments d))"

lemma coversD: "covers pays x \<Longrightarrow> row \<in> set pays \<Longrightarrow> is_pending (run_rid x) row \<Longrightarrow> pr_id row \<in> pp_id ` set (rj_rows x)"
  by (simp add: covers_def list_all_iff)

lemma covers_append: "covers pays x \<Longrightarrow> list_all (is_pending rid) new \<Longrightarrow> run_rid x \<noteq> rid \<Longrightarrow> covers (pays @ new) x"
  by (auto simp: covers_def list_all_iff is_pending_def)

lemma covers_map:
  assumes "covers pays x" "\<And>y. row_key (g y) = row_key y" "\<And>y. pr_status y \<noteq> ''pending'' \<Longrightarrow> pr_status (g y) \<noteq> ''pending''"
  shows "covers (map g pays) x"
proof -
  have "pr_id (g y) \<in> pp_id ` set (rj_rows x)" if "y \<in> set pays" "is_pending (run_rid x) (g y)" for y
  proof -
    have "is_pending (run_rid x) y" using that(2) assms(3) [of y] row_keyD [OF assms(2) [of y]] by (auto simp: is_pending_def)
    then show ?thesis using coversD [OF assms(1) that(1)] row_keyD [OF assms(2) [of y]] by simp
  qed
  then show ?thesis by (simp add: covers_def list_all_iff)
qed

text \<open>The row just recorded leaves the rows to come.\<close>

lemma covers_next:
  assumes "covers (map g pays) x" "rj_rows x = pending_of_row row # ps" "distinct (map pr_id (map g pays))"
    and "row \<in> set pays" "pr_id (g row) = pr_id row" "pr_status (g row) \<noteq> ''pending''"
  shows "covers (map g pays) (x\<lparr>rj_index := i, rj_rows := ps\<rparr>)"
proof -
  have "pr_id y \<in> pp_id ` set ps" if y: "y \<in> set (map g pays)" "is_pending (run_rid x) y" for y
  proof -
    have "pr_id y \<noteq> pr_id (g row)"
      using assms(3,4,6) y by (metis (no_types, lifting) distinct_map image_eqI inj_onD is_pending_def set_map)
    then show ?thesis using coversD [OF assms(1) y] assms(2,5) by auto
  qed
  then show ?thesis by (simp add: covers_def list_all_iff run_rid_def)
qed

lemma handled_step:
  assumes "sys_step C W strict s s'" "sys_inv C W strict s" "el_pg_pool (sy_loop s) = Some d"
    and "list_all (handled pub (sy_calls s)) (db_payments d)" "el_pg_pool (sy_loop s') = Some d'"
  shows "list_all (handled pub (sy_calls s')) (db_payments d')"
proof (rule sys_step_cases [OF assms(1-3)])
  fix d1 rid r new
  assume "el_pg_pool (sy_loop s') = Some d1" "db_payments d1 = db_payments d @ new" "list_all (is_pending rid) new"
    "sy_calls s' = sy_calls s"
  then show ?thesis using assms(4,5) by (auto simp: list_all_iff handled_def is_pending_def)
next
  fix d1 g run row call
  assume p: "el_pg_pool (sy_loop s') = Some d1" "db_payments d1 = map g (db_payments d)" "\<And>x. row_key (g x) = row_key x"
    "\<And>x. pr_id x \<noteq> pr_id row \<Longrightarrow> g x = x" "sy_calls s' = sy_calls s @ [(pr_id row, run_rid run, call)]"
  have "handled pub (sy_calls s') (g y)" if "y \<in> set (db_payments d)" for y
    using assms(4) that p(4) [of y] row_keyD [OF p(3) [of y]]
    by (cases "pr_id y = pr_id row") (auto simp: list_all_iff handled_def p(5))
  then show ?thesis using p(1,2) assms(5) by (simp add: list_all_iff)
qed (use assms in simp_all)

lemma covers_row:
  assumes inv: "sys_inv C W strict s" and d: "el_pg_pool (sy_loop s) = Some d" "list_all (covers (db_payments d)) (before @ run # after)"
    and run: "sy_running s = before @ run # after" "rj_rows run = p # ps"
    and step: "settle_step (row_env W answers marks) (rj_receipt run) (rj_index run) p d = (call, res, d')"
  shows "list_all (covers (db_payments d'))
    (before @ (if is_ok res then [run\<lparr>rj_index := Suc (rj_index run), rj_rows := ps\<rparr>] else []) @ after)"
proof -
  have "running_ok W (db_payments d) run" "distinct (map pr_id (db_payments d))"
    using inv d(1) run(1) by (auto simp: sys_inv_def pay_inv_def list_all_iff)
  then obtain row where row: "p = pending_of_row row" "row \<in> set (db_payments d)" using running_ok_next run(2) by blast
  obtain g where g: "db_payments d' = map g (db_payments d)" "\<And>x. row_key (g x) = row_key x"
      "\<And>x. pr_id x \<noteq> pr_id row \<Longrightarrow> g x = x"
      "\<And>x. pr_status x \<noteq> ''pending'' \<Longrightarrow> pr_status (g x) \<noteq> ''pending''"
      "se_err (marks (rj_index run)) = None \<Longrightarrow> pr_status (g row) \<noteq> ''pending''"
    using settle_step_rows step unfolding row(1) by blast
  have all: "list_all (covers (map g (db_payments d))) (before @ run # after)"
    using d(2) covers_map g(2,4) by (auto simp: list_all_iff)
  have "covers (map g (db_payments d)) (run\<lparr>rj_index := Suc (rj_index run), rj_rows := ps\<rparr>)" if "is_ok res"
  proof (rule covers_next [OF _ run(2) [unfolded row(1)] _ row(2)])
    show "distinct (map pr_id (map g (db_payments d)))" using \<open>distinct _\<close> unfolding map_keys(1) [OF g(2)] .
    have "se_err (marks (rj_index run)) = None" using settle_step_effect(2) [OF step [unfolded row(1)]] that by auto
    then show "pr_status (g row) \<noteq> ''pending''" by (rule g(5))
    show "pr_id (g row) = pr_id row" using row_keyD [OF g(2)] by blast
  qed (use all in simp)
  then show ?thesis using all unfolding g(1) by simp
qed

lemma covers_step:
  assumes "sys_step C W strict s s'" "sys_inv C W strict s" "el_pg_pool (sy_loop s) = Some d"
    and "list_all (covers (db_payments d)) (sy_running s)" "el_pg_pool (sy_loop s') = Some d'"
  shows "list_all (covers (db_payments d')) (sy_running s')"
  using assms(1)
proof cases
  case (cmd ce c out st')
  then show ?thesis using assms(3-5) command_frame(1) [OF cmd(2)] by simp
next
  case (ack e sender ack resp st')
  show ?thesis
  proof (rule ack_effect [OF assms(3) ack(2) refl, where B = "sy_booked s"])
    fix d1 r new
    assume b: "el_pg_pool st' = Some d1" "db_payments d1 = db_payments d @ new" "list_all (is_pending (ca_request_id ack)) new"
      "el_in_flight (sy_loop s) (ca_request_id ack) \<noteq> None"
    have "ca_request_id ack \<notin> run_rid ` set (sy_running s)"
      using in_flight_unpaid(4) [OF assms(2), of "ca_request_id ack"] b(4) by blast
    then have "covers (db_payments d @ new) x" if "x \<in> set (sy_running s)" for x
      using assms(4) that by (intro covers_append [OF _ b(3)]) (auto simp: list_all_iff image_iff)
    then show ?thesis using assms(5) b(1,2) unfolding ack(1) by (simp add: list_all_iff)
  qed (use assms(4,5) ack(1) in simp)
next
  case (event e ev out st')
  then show ?thesis using assms(3-5) event_frame(1) [OF event(2,3)] by simp
next
  case (track d0 d1)
  then show ?thesis using assms(2-5) jobs_step_wf by (auto simp: set_pool_def elim: sys_invE)
next
  case (start j d0 env rows r)
  then have "rows = map pending_of_row (sort_key pr_created_at (filter (is_pending (sj_request_id j)) (db_payments d)))"
    using assms(3) by (simp add: pending_for_request_def split: option.splits)
  then show ?thesis using start assms(3-5) by (auto simp: covers_def run_rid_def list_all_iff image_image)
next
  case (row before run after p ps d0 answers marks call res d1)
  have "d0 = d" "d1 = d'" using row(1,4) assms(3,5) by (simp_all add: set_pool_def)
  from covers_row [OF assms(2,3) assms(4) [unfolded row(2)] row(2,3) row(5) [unfolded \<open>d0 = d\<close>]] show ?thesis
    unfolding row(1) \<open>d1 = d'\<close> by simp
next
  case (finish before run after)
  then show ?thesis using assms(3-5) by simp
qed (use assms in simp_all)

lemma covered_step:
  assumes "sys_step C W strict s s'" "sys_inv C W strict s" "covered pub s"
  shows "covered pub s'"
proof -
  obtain d where d: "el_pg_pool (sy_loop s) = Some d" using assms(2) by (rule sys_invE)
  then show ?thesis using assms(3) covers_step [OF assms(1,2) d] handled_step [OF assms(1,2) d] by (simp add: covered_def)
qed

text \<open>A job without rows left has sent every row of its request.\<close>

lemma covered_finished:
  assumes inv: "sys_inv C W strict s" "accounted pub s" "covered pub s"
    and run: "run \<in> set (sy_running s)" "rj_rows run = []" "run_rid run = rid" and rid: "rid \<notin> pub"
    and d: "el_pg_pool (sy_loop s) = Some d" "row \<in> set (rows_of rid d)"
  shows "pr_status row \<noteq> ''pending''"
    and "\<exists>r call. sy_booked s rid = Some r \<and> (pr_id row, rid, call) \<in> set (sy_calls s) \<and> call_body call = payout_body W r (row_payout row)"
proof -
  have cov: "list_all (covers (db_payments d)) (sy_running s)" "list_all (handled pub (sy_calls s)) (db_payments d)"
    using inv(3) d(1) by (simp_all add: covered_def)
  have row: "row \<in> set (db_payments d)" "pr_request_id row = rid" using d(2) by (auto simp: rows_of_def)
  show settled: "pr_status row \<noteq> ''pending''"
    using cov(1) run row by (auto simp: list_all_iff covers_def is_pending_def)
  then obtain c where c: "c \<in> set (sy_calls s)" "fst c = pr_id row"
    using cov(2) row rid by (auto simp: list_all_iff handled_def)
  have dist: "distinct (map pr_id (db_payments d))" "list_all (call_ok W strict (sy_booked s) (db_payments d)) (sy_calls s)"
    using inv(1) d(1) by (auto simp: sys_inv_def pay_inv_def)
  then have snd_c: "fst (snd c) = rid"
    using c row by (cases c) (fastforce simp: list_all_iff call_ok_def distinct_map dest: inj_onD)
  then have "c \<in> set (calls_for rid s)" using c(1) by (simp add: calls_for_def)
  from call_row [OF inv(1,2) this rid] obtain d1 r row' where d1: "el_pg_pool (sy_loop s) = Some d1" "row' \<in> set (rows_of rid d1)"
      and r: "sy_booked s rid = Some r" "pr_id row' = fst c" "call_body (snd (snd c)) = payout_body W r (row_payout row')" by metis
  have "row' \<in> set (db_payments d)" using d1 d(1) by (simp add: rows_of_def)
  then have "row' = row" using r(2) c(2) row(1) dist(1) by (auto simp: distinct_map dest: inj_onD)
  moreover have "c = (pr_id row, rid, snd (snd c))" using c(2) snd_c by (simp add: prod_eq_iff)
  ultimately show "\<exists>r call. sy_booked s rid = Some r \<and> (pr_id row, rid, call) \<in> set (sy_calls s) \<and> call_body call = payout_body W r (row_payout row)"
    using r(1,3) c(1) by metis
qed

section \<open>A run of the system\<close>

definition pay_receipt :: routing_receipt where
  "pay_receipt = receipt_of_ack sample_codec (ae_now_ms sample_ack_env) (PeerId [1]) signed_ack (Some auctioned_meta)"

definition pay_codec :: loop_codec where
  "pay_codec = sample_codec\<lparr>lc_receipt_to_str := (\<lambda>r. if r = pay_receipt then Some ''r'' else None)\<rparr>"

definition pay_worker :: worker_env where
  "pay_worker = sample_worker\<lparr>we_receipt_from_str := (\<lambda>s. if s = ''r'' then Some pay_receipt else None)\<rparr>"

abbreviation pay_rid :: uuid where
  "pay_rid \<equiv> Uuid (replicate 16 0)"

lemma pay_codec_ok: "codec_ok pay_codec" "json_ok pay_codec pay_worker"
  using sample_codec_ok by (simp_all add: codec_ok_def json_ok_def pay_codec_def pay_worker_def)

lemma pay_codec_primary [simp]: "primary_of_ack pay_codec = primary_of_ack sample_codec"
  by (simp add: fun_eq_iff primary_of_ack_def pay_codec_def split: list.split)

lemma pay_codec_fields [simp]:
  "lc_ed pay_codec = sample_ed" "lc_key pay_codec = lc_key sample_codec" "lc_sha256 pay_codec = lc_sha256 sample_codec"
  "lc_proof_json pay_codec = lc_proof_json sample_codec" "lc_ack_json pay_codec = lc_ack_json sample_codec"
  "lc_hex_decode pay_codec = lc_hex_decode sample_codec" "lc_bcs pay_codec = lc_bcs sample_codec"
  "lc_receipt pay_codec = sample_receipt_codec" "lc_request_to_vec pay_codec = lc_request_to_vec sample_codec"
  "lc_with_p2p pay_codec = lc_with_p2p sample_codec"
  by (simp_all add: pay_codec_def)

lemma pay_codec_sample [simp]:
  "handle_command pay_codec ce c st = handle_command sample_codec ce c st"
  "receipt_of_ack pay_codec = receipt_of_ack sample_codec" "ack_valid pay_codec = ack_valid sample_codec"
  by (simp_all add: fun_eq_iff handle_command_def publish_request_def receipt_of_ack_def ack_valid_def
      split: mesh_command.split)

definition pay_boot :: system where
  "pay_boot = boot_system (registry_new 600) (MemArchive Map.empty) db_empty [] {}"

definition pay_auctioned :: system where
  "pay_auctioned = pay_boot\<lparr>sy_loop := auctioned_loop, sy_published := {pay_rid}\<rparr>"

definition pay_published :: system where
  "pay_published = pay_boot\<lparr>sy_loop := published_loop, sy_published := {pay_rid}\<rparr>"

lemma pay_published_reachable: "(sys_step pay_codec pay_worker strict)\<^sup>*\<^sup>* pay_boot pay_published"
proof -
  let ?ce = "\<lparr>ce_publish_err = None, ce_dial_err = None, ce_out_id = 0\<rparr>"
  let ?pub = "Publish \<lparr>ireq_request_id = pay_rid, ireq_session_id = Uuid [2], ireq_model = ''m'',
       ireq_privacy = Standard, ireq_session_intent = New\<rparr> 0"
  have "sys_step pay_codec pay_worker strict pay_boot
      (pay_boot\<lparr>sy_loop := published_loop, sy_published := publishes ?pub \<union> sy_published pay_boot\<rparr>)"
    by (rule sys_step.cmd [where ce = ?ce and out = "fst (handle_command sample_codec ?ce ?pub (sy_loop pay_boot))"])
      (simp_all add: published_loop_def initial_loop_def pay_boot_def boot_system_def)
  then show ?thesis by (simp add: pay_published_def publishes_def pay_boot_def boot_system_def)
qed

lemma pay_auctioned_reachable: "(sys_step pay_codec pay_worker strict)\<^sup>*\<^sup>* pay_boot pay_auctioned"
proof -
  let ?ce = "\<lparr>ce_publish_err = None, ce_dial_err = None, ce_out_id = 0\<rparr>"
  let ?addr = "SetPayoutAddresses pay_rid [''12D3KooWPeerNode1'' \<mapsto> ''0x0abc'']"
  have "sys_step pay_codec pay_worker strict pay_published
      (pay_published\<lparr>sy_loop := auctioned_loop, sy_published := publishes ?addr \<union> sy_published pay_published\<rparr>)"
    by (rule sys_step.cmd [where ce = ?ce and out = "fst (handle_command sample_codec ?ce ?addr published_loop)"])
      (simp_all add: auctioned_loop_def publishes_def pay_published_def)
  then have "sys_step pay_codec pay_worker strict pay_published pay_auctioned"
    by (simp add: pay_auctioned_def pay_published_def publishes_def)
  with pay_published_reachable show ?thesis by (rule rtranclp.rtrancl_into_rtrancl)
qed

lemma pay_lines: "compute_payouts signed_ack (meta_addresses (Some auctioned_meta)) =
    [\<lparr>pl_peer_id = ''12D3KooWPeerNode1'', pl_sui_address = ''0x0abc'', pl_amount_nanox = 1000\<rparr>]"
  by (simp add: compute_payouts_def List.map_filter_def payout_of_proof_def meta_addresses_def auctioned_meta_def
      signed_ack_def sample_ack_def proof_sign_def sample_proof_def Let_def)

lemma pay_ack:
  assumes "ae_archive e = sample_env 0" "ae_insert e = sample_env" "ae_now_ms e = ae_now_ms sample_ack_env"
  obtains st' d row where "handle_completion_ack pay_codec e (PeerId [1]) signed_ack auctioned_loop = (completion_ok pay_receipt, st')"
    "el_pg_pool st' = Some d" "db_payments d = [row]" "is_pending pay_rid row"
    "el_settlement st' = Some (if ae_try_send e then [settlement_job_of pay_codec pay_receipt pay_rid] else [])"
proof -
  let ?lines = "compute_payouts signed_ack (meta_addresses (Some auctioned_meta))"
  obtain a where put: "archive_put sample_receipt_codec (ae_archive e) pay_receipt (el_archive auctioned_loop) = (Inr (), a)"
    by (simp add: auctioned_loop_simps archive_put_def mem_put_def assms(1))
  define st where "st = mark_warm e pay_receipt (Some auctioned_meta) ((consumed pay_rid auctioned_loop)\<lparr>el_archive := a\<rparr>)"
  have "map_option db_payments (el_pg_pool st) = Some []"
    by (simp add: st_def consumed_def auctioned_loop_simps db_empty_def)
  then obtain d where d: "el_pg_pool st = Some d" "db_payments d = []" by auto
  let ?row = "pending_row (sample_env 0) pay_rid \<lparr>pl_peer_id = ''12D3KooWPeerNode1'', pl_sui_address = ''0x0abc'', pl_amount_nanox = 1000\<rparr>"
  have ins: "insert_pending (ae_insert e) pay_rid ?lines d = (Inr (), d\<lparr>db_payments := [?row]\<rparr>)"
    by (simp add: insert_pending_def pay_lines assms(2) d(2) insert_payment_def sample_env_def)
  have "handle_completion_ack pay_codec e (PeerId [1]) signed_ack auctioned_loop =
      (completion_ok pay_receipt, persist_payments pay_codec e pay_rid ?lines pay_receipt st)"
    using handle_completion_ack_valid [of pay_codec signed_ack "Some auctioned_meta" auctioned_loop pay_receipt e "PeerId [1]"]
      signed_ack_valid put by (simp add: auctioned_loop_simps pay_receipt_def assms(3) st_def)
  moreover have "el_settlement st = Some []" by (simp add: st_def consumed_def auctioned_loop_simps)
  ultimately show ?thesis
    using d ins by (intro that [of _ "d\<lparr>db_payments := [?row]\<rparr>" ?row])
      (auto simp: persist_payments_def pay_lines is_pending_def pending_row_def)
qed

text \<open>The run: ack, push to the storage, start of the job, its one row.\<close>

lemma pay_run:
  "\<exists>s c. (sys_step pay_codec pay_worker strict)\<^sup>*\<^sup>* pay_boot s \<and> sy_booked s pay_rid = Some pay_receipt \<and>
     calls_for pay_rid s = [c] \<and> sy_calls s = [c] \<and> (\<exists>x\<in>set (sy_running s). rj_rows x = [] \<and> run_rid x = pay_rid) \<and>
     (\<exists>d row. el_pg_pool (sy_loop s) = Some d \<and> rows_of pay_rid d = [row])"
proof -
  let ?step = "sys_step pay_codec pay_worker strict" and ?job = "settlement_job_of pay_codec pay_receipt pay_rid"
  obtain st d row where h: "handle_completion_ack pay_codec sample_ack_env (PeerId [1]) signed_ack auctioned_loop = (completion_ok pay_receipt, st)"
      "el_pg_pool st = Some d" "db_payments d = [row]" "is_pending pay_rid row" "el_settlement st = Some [?job]"
    by (rule pay_ack [of sample_ack_env]) (simp_all add: sample_ack_env_def)
  define s1 where "s1 = pay_auctioned\<lparr>sy_loop := st, sy_booked := [pay_rid \<mapsto> pay_receipt]\<rparr>"
  define s2 where "s2 = s1\<lparr>sy_loop := st\<lparr>el_settlement := Some []\<rparr>, sy_storage := [?job]\<rparr>"
  define x where "x = \<lparr>rj_job = ?job, rj_receipt = pay_receipt, rj_index = 0, rj_rows = [pending_of_row row]\<rparr>"
  define s3 where "s3 = s2\<lparr>sy_running := [x]\<rparr>"
  have init: "sy_booked pay_auctioned = Map.empty" "sy_running pay_auctioned = []" "sy_calls pay_auctioned = []"
      "sy_storage pay_auctioned = []" "sy_loop pay_auctioned = auctioned_loop"
    by (simp_all add: pay_auctioned_def pay_boot_def boot_system_def)
  have s3: "sy_running s3 = [x]" "el_pg_pool (sy_loop s3) = Some d" "sy_calls s3 = []"
    using h(2) by (simp_all add: s3_def s2_def s1_def init)
  have x: "rj_rows x = [pending_of_row row]" "rj_receipt x = pay_receipt" "rj_index x = 0" "sj_request_id (rj_job x) = pay_rid"
    by (simp_all add: x_def settlement_job_of_def)
  have "?step pay_auctioned s1"
    using sys_step.ack [of pay_codec sample_ack_env "PeerId [1]" signed_ack pay_auctioned "completion_ok pay_receipt" st] h(1)
    by (simp add: init s1_def record_booking_def completion_ok_def auctioned_loop_simps)
  moreover have "?step s1 s2"
    using sys_step.push [of s1 ?job "[]" pay_codec pay_worker strict True] h(5) by (simp add: s1_def s2_def init)
  moreover have "pending_for_request (sample_env 0) pay_rid d = Inr [pending_of_row row]"
    using h(3,4) by (simp add: pending_for_request_def sample_env_def)
  then have "?step s2 s3"
    using sys_step.start [of ?job s2 d "sample_env 0" "[pending_of_row row]" pay_worker pay_receipt] h(2)
    by (simp add: s3_def s2_def s1_def x_def init running_rids_def settlement_job_of_def pay_codec_def pay_worker_def)
  moreover obtain call res d' where step: "settle_step (row_env pay_worker (we_answer sample_worker) sample_env) pay_receipt 0 (pending_of_row row) d = (call, res, d')"
    by (cases "settle_step (row_env pay_worker (we_answer sample_worker) sample_env) pay_receipt 0 (pending_of_row row) d")
  then have "?step s3 ((set_pool d' s3)\<lparr>sy_running := (if is_ok res then [x\<lparr>rj_index := Suc (rj_index x), rj_rows := []\<rparr>] else []),
      sy_calls := [(pr_id row, pay_rid, call)]\<rparr>)" (is "sys_step _ _ _ s3 ?s4")
    using sys_step.row [of s3 "[]" x "[]" "pending_of_row row" "[]" d pay_worker "we_answer sample_worker" sample_env call res d'] h(2)
    by (cases "is_ok res") (simp_all add: s3 x sample_env_def)
  ultimately have "?step\<^sup>*\<^sup>* pay_boot ?s4"
    using pay_auctioned_reachable [of strict] by (meson rtranclp.rtrancl_into_rtrancl)
  moreover have "is_ok res" using settle_step_effect(2) [OF step] by (auto simp: sample_env_def)
  moreover have "\<exists>row'. rows_of pay_rid d' = [row']"
  proof -
    obtain g where "db_payments d' = map g [row]" "\<And>x. row_key (g x) = row_key x"
      using settle_step_rows [OF step] h(3) by metis
    then show ?thesis using h(4) row_keyD [of "g row" row] by (simp add: rows_of_def is_pending_def)
  qed
  ultimately show ?thesis
    by (intro exI [of _ ?s4] exI [of _ "(pr_id row, pay_rid, call)"])
      (simp add: s3_def s2_def s1_def set_pool_def calls_for_def run_rid_def x)
qed

lemma pay_boot_ok: "db_wf db_empty" "left_over db_empty [] \<subseteq> {}"
  by (simp_all add: db_wf_def db_empty_def left_over_def)

lemma system_refines_loop_witness:
  "(loop_step pay_codec)\<^sup>*\<^sup>* (with_pg_and_settlement (registry_new 600) (MemArchive Map.empty) (Some db_empty) (Some [])) auctioned_loop"
  using system_refines_loop [OF pay_codec_ok(2) pay_boot_ok pay_auctioned_reachable [unfolded pay_boot_def]]
  by (simp add: pay_auctioned_def)

end
