(* ===== verification/Restarts.thy ===== *)
theory Restarts
  imports Payment_Props
begin

text \<open>
  The payment system across restarts of the process. A restart keeps what Postgres holds (the tables, the
  receipts and the job storage) and loses what the process held: the requests in flight, the channels, the jobs
  in progress. \<^verbatim>\<open>run\<close> of \<^verbatim>\<open>src/coordinator/src/main.rs\<close> then draws a new enclave key, and init may have
  drawn a new secret for the sidecar. The properties hold for every sequence of runs, failures and restarts.
\<close>

section \<open>Restarts\<close>

record deployment =
  dp_system :: system
  dp_key :: bytes
  dp_client :: sidecar_client
  dp_keys :: "bytes set"

text \<open>The process uses the archive in Postgres; one in memory would start empty again.\<close>

definition restart_archive :: "archive \<Rightarrow> archive" where
  "restart_archive a = (case a of MemArchive _ \<Rightarrow> MemArchive Map.empty | PgArchive rows \<Rightarrow> PgArchive rows)"

definition restart_system :: "peer_registry \<Rightarrow> bool \<Rightarrow> system \<Rightarrow> system" where
  "restart_system reg worker s =
     s\<lparr>sy_loop := with_pg_and_settlement reg (restart_archive (el_archive (sy_loop s))) (el_pg_pool (sy_loop s)) (if worker then Some [] else None),
       sy_running := []\<rparr>"

text \<open>
  Between two restarts the system makes its steps with the key and the client of the current process. A
  crash inside an ack or between a call and the statement that records it is the step in which the statements
  from there on fail, followed by the restart. \<open>dp_keys\<close> records the keys used so far.
\<close>

inductive deploy_step :: "loop_codec \<Rightarrow> worker_env \<Rightarrow> bool \<Rightarrow> deployment \<Rightarrow> deployment \<Rightarrow> bool" for C W strict where
  running: "sys_step (C\<lparr>lc_key := dp_key D\<rparr>) (W\<lparr>we_client := dp_client D\<rparr>) strict (dp_system D) s \<Longrightarrow>
    deploy_step C W strict D (D\<lparr>dp_system := s\<rparr>)"
| restart: "deploy_step C W strict D
    \<lparr>dp_system = restart_system reg worker (dp_system D), dp_key = k, dp_client = client, dp_keys = insert k (dp_keys D)\<rparr>"

definition first_deployment ::
  "peer_registry \<Rightarrow> archive \<Rightarrow> db \<Rightarrow> settlement_job list \<Rightarrow> uuid set \<Rightarrow> bytes \<Rightarrow> sidecar_client \<Rightarrow> deployment" where
  "first_deployment reg arch d storage pub k client =
     \<lparr>dp_system = boot_system reg arch d storage pub, dp_key = k, dp_client = client, dp_keys = {k}\<rparr>"

section \<open>What does not depend on key and client\<close>

lemma keyed_simps [simp]:
  "settlement_job_of (C\<lparr>lc_key := k\<rparr>) = settlement_job_of C" "codec_ok (C\<lparr>lc_key := k\<rparr>) = codec_ok C"
  "ack_valid (C\<lparr>lc_key := k\<rparr>) = ack_valid C" "payout_body (W\<lparr>we_client := c\<rparr>) = payout_body W"
  by (simp_all add: fun_eq_iff settlement_job_of_def codec_ok_def ack_valid_def payout_body_def)

lemma keyed_json [simp]: "json_ok (C\<lparr>lc_key := k\<rparr>) (W\<lparr>we_client := c\<rparr>) = json_ok C W"
  by (simp add: json_ok_def split: option.split)

lemma keyed_inv [simp]: "sys_inv (C\<lparr>lc_key := k\<rparr>) (W\<lparr>we_client := c\<rparr>) strict s = sys_inv C W strict s"
proof -
  have "booking_ok (C\<lparr>lc_key := k\<rparr>) = booking_ok C" "running_ok (W\<lparr>we_client := c\<rparr>) = running_ok W"
    "call_ok (W\<lparr>we_client := c\<rparr>) = call_ok W"
    by (simp_all add: fun_eq_iff booking_ok_def running_ok_def call_ok_def)
  then show ?thesis by (simp add: sys_inv_def pay_inv_def)
qed

section \<open>The invariant across restarts\<close>

lemma restart_inv: "sys_inv C W strict s \<Longrightarrow> sys_inv C W strict (restart_system reg worker s)"
proof (erule sys_invE)
  fix d
  assume d: "el_pg_pool (sy_loop s) = Some d" "db_wf d"
    "pay_inv C W strict (dom (el_in_flight (sy_loop s))) (sy_published s) (sy_booked s) (db_payments d)
       (queued_jobs s) (sy_running s) (sy_calls s)"
  have jobs: "queued_jobs (restart_system reg worker s) \<subseteq> queued_jobs s"
    by (auto simp: queued_jobs_def restart_system_def with_pg_and_settlement_def)
  have "pay_inv C W strict {} (sy_published s) (sy_booked s) (db_payments d) (queued_jobs (restart_system reg worker s)) [] (sy_calls s)"
    by (rule pay_inv_mono [OF d(3) _ jobs]) simp_all
  then show ?thesis
    using d(1,2) unfolding sys_inv_def by (simp add: restart_system_def with_pg_and_settlement_def)
qed

lemma restart_frame [simp]:
  "el_pg_pool (sy_loop (restart_system reg worker s)) = el_pg_pool (sy_loop s)"
  "sy_booked (restart_system reg worker s) = sy_booked s" "sy_calls (restart_system reg worker s) = sy_calls s"
  "sy_running (restart_system reg worker s) = []" "sy_published (restart_system reg worker s) = sy_published s"
  by (simp_all add: restart_system_def with_pg_and_settlement_def)

text \<open>Every booking carries a receipt for its request, signed with the key of one of the processes.\<close>

definition signed_bookings :: "loop_codec \<Rightarrow> deployment \<Rightarrow> bool" where
  "signed_bookings C D \<longleftrightarrow>
     dp_key D \<in> dp_keys D \<and>
     (\<forall>rid r. sy_booked (dp_system D) rid = Some r \<longrightarrow> (\<exists>k\<in>dp_keys D. own_receipt (C\<lparr>lc_key := k\<rparr>) rid r))"

definition deploy_inv :: "loop_codec \<Rightarrow> worker_env \<Rightarrow> bool \<Rightarrow> uuid set \<Rightarrow> deployment \<Rightarrow> bool" where
  "deploy_inv C W strict pub D \<longleftrightarrow>
     sys_inv C W strict (dp_system D) \<and> accounted pub (dp_system D) \<and> covered pub (dp_system D) \<and> signed_bookings C D"

lemma booked_step:
  assumes "sys_step C W strict s s'" "sys_inv C W strict s" "codec_ok C" "sy_booked s' rid = Some r"
  shows "sy_booked s rid = Some r \<or> own_receipt C rid r"
proof -
  obtain d where d: "el_pg_pool (sy_loop s) = Some d" using assms(2) by (rule sys_invE)
  show ?thesis
  proof (rule sys_step_cases [OF assms(1,2) d])
    fix rid' r'
    assume "sy_booked s' = (sy_booked s)(rid' \<mapsto> r')"
      "\<exists>now sender ack meta. ca_request_id ack = rid' \<and> r' = receipt_of_ack C now sender ack meta"
    then show ?thesis using assms(4) own_receipt_of_ack [OF assms(3)] by (auto split: if_splits)
  qed (use assms(4) in simp_all)
qed

lemma deploy_step_inv:
  assumes "codec_ok C \<and> json_ok C W" "deploy_step C W strict D D'" "deploy_inv C W strict pub D"
  shows "deploy_inv C W strict pub D'"
  using assms(2)
proof cases
  case (running s)
  let ?C = "C\<lparr>lc_key := dp_key D\<rparr>" and ?W = "W\<lparr>we_client := dp_client D\<rparr>"
  have inv: "sys_inv ?C ?W strict (dp_system D)" "accounted pub (dp_system D)" "covered pub (dp_system D)" "signed_bookings C D"
    using assms(3) by (simp_all add: deploy_inv_def)
  have "sys_inv C W strict s" using sys_step_inv [OF _ running(2) inv(1)] assms(1) by simp
  moreover have "accounted pub s" "covered pub s"
    using accounted_step [OF running(2) inv(1,2)] covered_step [OF running(2) inv(1,3)] by simp_all
  moreover have "signed_bookings C D'"
    using inv(4) booked_step [OF running(2) inv(1)] assms(1) unfolding signed_bookings_def running(1) by fastforce
  ultimately show ?thesis by (simp add: deploy_inv_def running(1))
next
  case (restart reg worker k client)
  then show ?thesis
    using assms(3) restart_inv
    by (auto simp: deploy_inv_def accounted_def covered_def signed_bookings_def)
qed

interpretation deployments: guarded_invariant "codec_ok C \<and> json_ok C W" "deploy_step C W strict" "deploy_inv C W strict pub"
  for C W strict pub
  by unfold_locales (rule deploy_step_inv)

lemma first_deployment_inv:
  assumes "db_wf d" "left_over d storage \<subseteq> pub"
  shows "deploy_inv C W strict pub (first_deployment reg arch d storage pub k client)"
  using boot_inv [OF assms] assms(2)
  by (auto simp: deploy_inv_def first_deployment_def signed_bookings_def accounted_def covered_def boot_system_def
      with_pg_and_settlement_def left_over_def handled_def list_all_iff)

lemma deployed_inv:
  assumes "codec_ok C" "json_ok C W" "db_wf d" "left_over d storage \<subseteq> pub"
    and "(deploy_step C W strict)\<^sup>*\<^sup>* (first_deployment reg arch d storage pub k client) D"
  shows "sys_inv C W strict (dp_system D)" "accounted pub (dp_system D)" "covered pub (dp_system D)" "signed_bookings C D"
  using deployments.reachable_guarded [OF _ assms(5) first_deployment_inv [OF assms(3,4)]] assms(1,2)
  by (simp_all add: deploy_inv_def)

section \<open>Money across restarts\<close>

text \<open>
  C2: Over the whole life of a deployment, through any number of restarts, failing statements and
  interleavings of acks, jobs and other writers: the sidecar is never asked to pay a request that was not booked, and
  everything it is asked for a booked one is a payout of the receipt the request was booked with, which names the request
  and verifies under the key of the process that signed it. If no statement that records the outcome of a
  call fails, the requests to pay are at most the payouts of that receipt, each as often as it lists it.
\<close>

theorem sidecar_pays_at_most_the_receipt:
  assumes "codec_ok C" "json_ok C W" "db_wf d" "left_over d storage \<subseteq> pub"
    and "(deploy_step C W strict)\<^sup>*\<^sup>* (first_deployment reg arch d storage pub k client) D" "rid \<notin> pub"
  shows "case sy_booked (dp_system D) rid of
      None \<Rightarrow> calls_for rid (dp_system D) = []
    | Some r \<Rightarrow> (\<exists>k\<in>dp_keys D. own_receipt (C\<lparr>lc_key := k\<rparr>) rid r) \<and>
        (\<forall>c\<in>set (calls_for rid (dp_system D)). call_body (snd (snd c)) \<in> payout_body W r ` set (rr_payouts r)) \<and>
        (strict \<longrightarrow> mset (map (\<lambda>c. call_body (snd (snd c))) (calls_for rid (dp_system D)))
           \<subseteq># image_mset (payout_body W r) (mset (rr_payouts r)))"
proof (cases "sy_booked (dp_system D) rid")
  case None
  then have "c \<notin> set (calls_for rid (dp_system D))" for c
    using call_is_payout [OF deployed_inv(1,2) [OF assms(1-5)] _ assms(6), of c] by auto
  then show ?thesis using None by (cases "calls_for rid (dp_system D)") auto
next
  case (Some r)
  note inv = deployed_inv [OF assms(1-5)]
  have own: "\<exists>k\<in>dp_keys D. own_receipt (C\<lparr>lc_key := k\<rparr>) rid r" using inv(4) Some by (simp add: signed_bookings_def)
  have calls: "\<forall>c\<in>set (calls_for rid (dp_system D)). call_body (snd (snd c)) \<in> payout_body W r ` set (rr_payouts r)"
    using call_is_payout [OF inv(1,2) _ assms(6)] Some by fastforce
  have "strict \<longrightarrow> mset (map (\<lambda>c. call_body (snd (snd c))) (calls_for rid (dp_system D)))
      \<subseteq># image_mset (payout_body W r) (mset (rr_payouts r))"
    using calls_within_receipt [OF _ Some assms(6)] inv(1,2) by (cases strict) simp_all
  with own calls show ?thesis using Some by simp
qed

text \<open>
  C5: A job that has gone through its rows, and is about to be acknowledged to the storage, has asked for
  everything, also when earlier runs of it were cut off by failures or restarts: no row of its request is
  pending, and for every one of them the sidecar was asked for the payout of that row with the receipt of the request.
\<close>

theorem finished_job_paid_every_row:
  assumes "codec_ok C" "json_ok C W" "db_wf d" "left_over d storage \<subseteq> pub"
    and "(deploy_step C W strict)\<^sup>*\<^sup>* (first_deployment reg arch d storage pub k client) D"
    and "run \<in> set (sy_running (dp_system D))" "rj_rows run = []" "run_rid run = rid" "rid \<notin> pub"
    and "el_pg_pool (sy_loop (dp_system D)) = Some d'" "row \<in> set (rows_of rid d')"
  shows "pr_status row \<noteq> ''pending'' \<and>
    (\<exists>r call. sy_booked (dp_system D) rid = Some r \<and> (pr_id row, rid, call) \<in> set (sy_calls (dp_system D)) \<and>
       call_body call = payout_body W r (row_payout row))"
  using covered_finished [OF deployed_inv(1-3) [OF assms(1-5)] assms(6-11)] by blast

section \<open>Requests that are lost\<close>

lemma orphaned_restart:
  "orphaned rid s \<Longrightarrow> orphaned rid (restart_system reg worker s)"
  "payments_of rid (restart_system reg worker s) = payments_of rid s"
  by (auto simp: orphaned_def queued_jobs_def restart_system_def with_pg_and_settlement_def payments_of_def calls_for_def)

lemma orphaned_deploy_step:
  assumes "codec_ok C \<and> json_ok C W" "deploy_step C W strict D D'"
    and "sys_inv C W strict (dp_system D) \<and> orphaned rid (dp_system D) \<and> payments_of rid (dp_system D) = p"
  shows "sys_inv C W strict (dp_system D') \<and> orphaned rid (dp_system D') \<and> payments_of rid (dp_system D') = p"
  using assms(2)
proof cases
  case (running s)
  have "sys_inv (C\<lparr>lc_key := dp_key D\<rparr>) (W\<lparr>we_client := dp_client D\<rparr>) strict (dp_system D)" using assms(3) by simp
  then show ?thesis
    using assms(1,3) sys_step_inv [OF _ running(2)] orphaned_step [OF running(2)] orphaned_frozen [OF running(2)]
    by (simp add: running(1))
next
  case (restart reg worker k client)
  then show ?thesis using assms(3) restart_inv orphaned_restart by simp
qed

interpretation orphans: guarded_invariant "codec_ok C \<and> json_ok C W" "deploy_step C W strict"
  "\<lambda>D. sys_inv C W strict (dp_system D) \<and> orphaned rid (dp_system D) \<and> payments_of rid (dp_system D) = p" for C W strict rid p
  by unfold_locales (rule orphaned_deploy_step)

lemma orphaned_forever:
  assumes "codec_ok C" "json_ok C W" "sys_inv C W strict (dp_system D)" "orphaned rid (dp_system D)" "(deploy_step C W strict)\<^sup>*\<^sup>* D D'"
  shows "payments_of rid (dp_system D') = payments_of rid (dp_system D)"
  using orphans.reachable_guarded [OF _ assms(5)] assms(1-4) by blast

text \<open>The system after an ack, and what is known of a request in flight before it.\<close>

definition acked :: "completion_ack \<Rightarrow> completion_response \<Rightarrow> event_loop \<Rightarrow> system \<Rightarrow> system" where
  "acked ack resp st' s = s\<lparr>sy_loop := st', sy_booked :=
     record_booking (ca_request_id ack) (el_in_flight (sy_loop s) (ca_request_id ack)) resp (sy_booked s)\<rparr>"

lemma ack_without_payouts:
  assumes "ack_valid C ack" "handle_completion_ack C e sender ack st = (resp, st')"
    and "el_in_flight st (ca_request_id ack) = Some m" "ifm_payout_addresses m = Map.empty"
  shows "el_settlement st' = el_settlement st" "el_in_flight st' (ca_request_id ack) = None"
    "map_option db_payments (el_pg_pool st') = map_option db_payments (el_pg_pool st)"
proof -
  have "compute_payouts ack (meta_addresses (Some m)) = []"
    using assms(4) by (simp add: compute_payouts_def meta_addresses_def payout_of_proof_def List.map_filter_def Let_def filter_empty_conv)
  then show "el_settlement st' = el_settlement st" "el_in_flight st' (ca_request_id ack) = None"
    "map_option db_payments (el_pg_pool st') = map_option db_payments (el_pg_pool st)"
    using handle_completion_ack_valid [OF assms(1) assms(3) [symmetric] refl, of e sender] assms(2)
    by (auto simp: consumed_def split: prod.splits sum.splits)
qed

lemma in_flight_no_rows:
  assumes "sys_inv C W strict s" "rid \<in> dom (el_in_flight (sy_loop s))"
  shows "payments_of rid s = (Some [], [])"
proof -
  obtain d where d: "el_pg_pool (sy_loop s) = Some d"
      "pay_inv C W strict (dom (el_in_flight (sy_loop s))) (sy_published s) (sy_booked s) (db_payments d)
         (queued_jobs s) (sy_running s) (sy_calls s)"
    using assms(1) by (rule sys_invE)
  have "rid \<notin> pr_request_id ` set (db_payments d)" using pay_invD(3) [OF d(2)] assms(2) unfolding mentioned_def by blast
  then have "rows_of rid d = []" by (auto simp: rows_of_def filter_empty_conv)
  then show ?thesis using in_flight_unpaid(1) [OF assms] d(1) by (simp add: payments_of_def)
qed

text \<open>An ack that queues no job leaves its request without one, for good.\<close>

lemma ack_orphans:
  assumes inv: "codec_ok C" "json_ok C W" "sys_inv C W strict (dp_system D)"
    and ack: "handle_completion_ack (C\<lparr>lc_key := dp_key D\<rparr>) e sender ack (sy_loop (dp_system D)) = (resp, st')"
    and fl: "el_in_flight (sy_loop (dp_system D)) (ca_request_id ack) \<noteq> None"
    and st': "el_settlement st' = el_settlement (sy_loop (dp_system D))" "el_in_flight st' (ca_request_id ack) = None"
    and D1: "D1 = D\<lparr>dp_system := acked ack resp st' (dp_system D)\<rparr>" "(deploy_step C W strict)\<^sup>*\<^sup>* D1 D2"
  shows "payments_of (ca_request_id ack) (dp_system D2) = payments_of (ca_request_id ack) (dp_system D1)"
    and "calls_for (ca_request_id ack) (dp_system D1) = []"
proof -
  let ?rid = "ca_request_id ack" and ?s = "dp_system D"
  note fresh = in_flight_unpaid [OF inv(3), of ?rid]
  have "sys_step (C\<lparr>lc_key := dp_key D\<rparr>) (W\<lparr>we_client := dp_client D\<rparr>) strict ?s (acked ack resp st' ?s)"
    unfolding acked_def by (rule sys_step.ack [OF ack])
  from sys_step_inv [OF _ this] inv have inv1: "sys_inv C W strict (dp_system D1)" by (simp add: D1(1))
  have "orphaned ?rid (dp_system D1)"
    using fresh fl st' by (auto simp: orphaned_def D1(1) acked_def queued_jobs_def)
  with orphaned_forever [OF inv(1,2) inv1 _ D1(2)] show "payments_of ?rid (dp_system D2) = payments_of ?rid (dp_system D1)" .
  show "calls_for ?rid (dp_system D1) = []" using fresh(1) fl by (auto simp: D1(1) acked_def calls_for_def)
qed

text \<open>
  C31: When the settlement channel is full as a completion is accepted, the payments of that request are
  lost: in every later state, also after restarts, its rows are the ones the ack inserted, still pending, and
  the sidecar is never called for it. Nothing polls the table for them.
\<close>

theorem dropped_job_is_never_paid:
  assumes "codec_ok C" "json_ok C W" "db_wf d" "left_over d storage \<subseteq> pub"
    and "(deploy_step C W strict)\<^sup>*\<^sup>* (first_deployment reg arch d storage pub k client) D"
    and "ack_valid C ack" "el_in_flight (sy_loop (dp_system D)) (ca_request_id ack) \<noteq> None" "\<not> ae_try_send e"
    and "handle_completion_ack (C\<lparr>lc_key := dp_key D\<rparr>) e sender ack (sy_loop (dp_system D)) = (resp, st')"
    and "D1 = D\<lparr>dp_system := acked ack resp st' (dp_system D)\<rparr>" "(deploy_step C W strict)\<^sup>*\<^sup>* D1 D2"
  shows "calls_for (ca_request_id ack) (dp_system D2) = [] \<and>
    payments_of (ca_request_id ack) (dp_system D2) = payments_of (ca_request_id ack) (dp_system D1)"
proof -
  have st': "el_settlement st' = el_settlement (sy_loop (dp_system D))" "el_in_flight st' (ca_request_id ack) = None"
    using ack_without_send [OF _ assms(8,9)] assms(6) by simp_all
  from ack_orphans [OF assms(1,2) deployed_inv(1) [OF assms(1-5)] assms(9,7) st' assms(10,11)]
  show ?thesis by (simp add: payments_of_def)
qed

text \<open>
  C34: Until the auction of a request has set the payout addresses, a valid ack that names the request,
  from whichever peer and signed with whichever key, uses the request up: no row and no call for it exists in any
  later state, whoever wins the auction and completes the request.
\<close>

theorem early_ack_voids_payment:
  assumes "codec_ok C" "json_ok C W" "db_wf d" "left_over d storage \<subseteq> pub"
    and "(deploy_step C W strict)\<^sup>*\<^sup>* (first_deployment reg arch d storage pub k client) D"
    and "ack_valid C ack" "el_in_flight (sy_loop (dp_system D)) (ca_request_id ack) = Some m" "ifm_payout_addresses m = Map.empty"
    and "handle_completion_ack (C\<lparr>lc_key := dp_key D\<rparr>) e sender ack (sy_loop (dp_system D)) = (resp, st')"
    and "D1 = D\<lparr>dp_system := acked ack resp st' (dp_system D)\<rparr>" "(deploy_step C W strict)\<^sup>*\<^sup>* D1 D2"
  shows "payments_of (ca_request_id ack) (dp_system D2) = (Some [], [])"
proof -
  let ?rid = "ca_request_id ack" and ?s = "dp_system D"
  note inv = deployed_inv(1) [OF assms(1-5)]
  have fl: "el_in_flight (sy_loop ?s) ?rid \<noteq> None" using assms(7) by simp
  have ack: "el_settlement st' = el_settlement (sy_loop ?s)" "el_in_flight st' ?rid = None"
    "map_option db_payments (el_pg_pool st') = map_option db_payments (el_pg_pool (sy_loop ?s))"
    using ack_without_payouts [OF _ assms(9)] assms(6-8) by simp_all
  note orphan = ack_orphans [OF assms(1,2) inv assms(9) fl ack(1,2) assms(10,11)]
  have "map_option (rows_of ?rid) (el_pg_pool st') = map_option (rows_of ?rid) (el_pg_pool (sy_loop ?s))"
    using ack(3) by (auto simp: rows_of_def map_option_case split: option.splits)
  also have "\<dots> = Some []" using in_flight_no_rows [OF inv, of ?rid] assms(7) by (auto simp: payments_of_def)
  finally show ?thesis using orphan by (simp add: payments_of_def assms(10) acked_def)
qed

text \<open>
  C32: A restart loses the requests in flight: whatever completions arrive for such a request later, no
  row is booked for it and the sidecar is never called for it.
\<close>

theorem restart_forgets_requests:
  assumes "codec_ok C" "json_ok C W" "db_wf d" "left_over d storage \<subseteq> pub"
    and "(deploy_step C W strict)\<^sup>*\<^sup>* (first_deployment reg arch d storage pub k client) D"
    and "rid \<in> dom (el_in_flight (sy_loop (dp_system D)))"
    and "dp_system D1 = restart_system reg' worker (dp_system D)" "(deploy_step C W strict)\<^sup>*\<^sup>* D1 D2"
  shows "payments_of rid (dp_system D2) = (Some [], [])"
proof -
  note inv = deployed_inv(1) [OF assms(1-5)]
  have "orphaned rid (dp_system D1)"
    using in_flight_unpaid(2-4) [OF inv assms(6)] unfolding assms(7)
    by (auto simp: orphaned_def queued_jobs_def restart_system_def with_pg_and_settlement_def)
  moreover have "sys_inv C W strict (dp_system D1)" using restart_inv [OF inv] by (simp add: assms(7))
  ultimately have "payments_of rid (dp_system D2) = payments_of rid (dp_system D1)"
    using orphaned_forever [OF assms(1,2) _ _ assms(8)] by blast
  then show ?thesis using in_flight_no_rows [OF inv assms(6)] by (simp add: assms(7) orphaned_restart)
qed

section \<open>Runs of a deployment\<close>

lemma runs_deploy:
  assumes "(sys_step (C\<lparr>lc_key := dp_key D\<rparr>) (W\<lparr>we_client := dp_client D\<rparr>) strict)\<^sup>*\<^sup>* (dp_system D) s"
  shows "(deploy_step C W strict)\<^sup>*\<^sup>* D (D\<lparr>dp_system := s\<rparr>)"
  using assms
proof (induction rule: rtranclp_induct)
  case (step s s')
  have "deploy_step C W strict (D\<lparr>dp_system := s\<rparr>) ((D\<lparr>dp_system := s\<rparr>)\<lparr>dp_system := s'\<rparr>)"
    by (rule deploy_step.running) (use step(2) in simp)
  with step(3) show ?case by simp
qed simp

definition pay_deployment :: deployment where
  "pay_deployment = first_deployment (registry_new 600) (MemArchive Map.empty) db_empty [] {} (lc_key pay_codec) (we_client pay_worker)"

lemma pay_rekey [simp]: "pay_codec\<lparr>lc_key := lc_key sample_codec\<rparr> = pay_codec"
  by (simp add: pay_codec_def)

lemma pay_deploy:
  assumes "(sys_step pay_codec pay_worker strict)\<^sup>*\<^sup>* pay_boot s"
  shows "(deploy_step pay_codec pay_worker strict)\<^sup>*\<^sup>* pay_deployment (pay_deployment\<lparr>dp_system := s\<rparr>)"
proof (rule runs_deploy)
  show "(sys_step (pay_codec\<lparr>lc_key := dp_key pay_deployment\<rparr>) (pay_worker\<lparr>we_client := dp_client pay_deployment\<rparr>) strict)\<^sup>*\<^sup>*
      (dp_system pay_deployment) s"
    using assms by (simp add: pay_deployment_def first_deployment_def pay_boot_def)
qed

lemma sidecar_pays_at_most_the_receipt_witness:
  "\<exists>D. (deploy_step pay_codec pay_worker True)\<^sup>*\<^sup>* pay_deployment D \<and> length (calls_for pay_rid (dp_system D)) = 1 \<and> card (dp_keys D) = 2 \<and>
     mset (map (\<lambda>c. call_body (snd (snd c))) (calls_for pay_rid (dp_system D)))
       \<subseteq># image_mset (payout_body pay_worker pay_receipt) (mset (rr_payouts pay_receipt))"
proof -
  obtain s c where s: "(sys_step pay_codec pay_worker True)\<^sup>*\<^sup>* pay_boot s" "sy_booked s pay_rid = Some pay_receipt"
      "calls_for pay_rid s = [c]" using pay_run [of True] by blast
  define D where "D = \<lparr>dp_system = restart_system (registry_new 600) True s, dp_key = [3], dp_client = we_client pay_worker,
    dp_keys = {[3], lc_key pay_codec}\<rparr>"
  have "deploy_step pay_codec pay_worker True (pay_deployment\<lparr>dp_system := s\<rparr>) D"
    using deploy_step.restart [of pay_codec pay_worker True "pay_deployment\<lparr>dp_system := s\<rparr>" "registry_new 600" True "[3]" "we_client pay_worker"]
    by (simp add: D_def pay_deployment_def first_deployment_def)
  then have D: "(deploy_step pay_codec pay_worker True)\<^sup>*\<^sup>* pay_deployment D"
    using pay_deploy [OF s(1)] by simp
  have sys: "sy_booked (dp_system D) pay_rid = Some pay_receipt" "calls_for pay_rid (dp_system D) = [c]" "card (dp_keys D) = 2"
    using s(2,3) by (simp_all add: D_def calls_for_def sample_codec_def)
  from sidecar_pays_at_most_the_receipt [OF pay_codec_ok pay_boot_ok D [unfolded pay_deployment_def], of pay_rid]
  show ?thesis using D sys by (intro exI [of _ D]) simp
qed

lemma finished_job_paid_every_row_witness:
  "\<exists>D row call. (deploy_step pay_codec pay_worker False)\<^sup>*\<^sup>* pay_deployment D \<and> pr_status row \<noteq> ''pending'' \<and>
     (pr_id row, pay_rid, call) \<in> set (sy_calls (dp_system D)) \<and> call_body call = payout_body pay_worker pay_receipt (row_payout row)"
proof -
  obtain s x d row where s: "(sys_step pay_codec pay_worker False)\<^sup>*\<^sup>* pay_boot s" "sy_booked s pay_rid = Some pay_receipt"
      "x \<in> set (sy_running s)" "rj_rows x = []" "run_rid x = pay_rid" "el_pg_pool (sy_loop s) = Some d" "rows_of pay_rid d = [row]"
    using pay_run [of False] by blast
  let ?D = "pay_deployment\<lparr>dp_system := s\<rparr>"
  have "pr_status row \<noteq> ''pending'' \<and> (\<exists>r call. sy_booked (dp_system ?D) pay_rid = Some r \<and>
      (pr_id row, pay_rid, call) \<in> set (sy_calls (dp_system ?D)) \<and> call_body call = payout_body pay_worker r (row_payout row))"
    using finished_job_paid_every_row [OF pay_codec_ok pay_boot_ok pay_deploy [OF s(1), unfolded pay_deployment_def], of x pay_rid d row] s
    by (simp add: pay_deployment_def)
  then show ?thesis using s(2) pay_deploy [OF s(1)] by (intro exI [of _ ?D]) auto
qed

lemma pay_auctioned_deployed:
  "(deploy_step pay_codec pay_worker strict)\<^sup>*\<^sup>* pay_deployment (pay_deployment\<lparr>dp_system := pay_auctioned\<rparr>)"
  by (rule pay_deploy [OF pay_auctioned_reachable])

lemma dropped_job_is_never_paid_witness:
  "\<exists>s row. fst (payments_of pay_rid s) = Some [row] \<and> is_pending pay_rid row \<and> calls_for pay_rid s = []"
proof -
  let ?e = "sample_ack_env\<lparr>ae_try_send := False\<rparr>" and ?D = "pay_deployment\<lparr>dp_system := pay_auctioned\<rparr>"
  obtain st d row where h: "handle_completion_ack pay_codec ?e (PeerId [1]) signed_ack auctioned_loop = (completion_ok pay_receipt, st)"
      "el_pg_pool st = Some d" "db_payments d = [row]" "is_pending pay_rid row"
    by (rule pay_ack [of ?e]) (simp_all add: sample_ack_env_def)
  let ?s = "acked signed_ack (completion_ok pay_receipt) st pay_auctioned"
  have "calls_for pay_rid ?s = []"
    using dropped_job_is_never_paid [OF pay_codec_ok pay_boot_ok pay_auctioned_deployed [unfolded pay_deployment_def],
        where ack = signed_ack and e = ?e and sender = "PeerId [1]" and resp = "completion_ok pay_receipt" and st' = st
          and ?D1.0 = "?D\<lparr>dp_system := ?s\<rparr>" and ?D2.0 = "?D\<lparr>dp_system := ?s\<rparr>"] h(1) signed_ack_valid
    by (simp add: auctioned_loop_simps pay_auctioned_def pay_deployment_def first_deployment_def)
  moreover have "fst (payments_of pay_rid ?s) = Some [row]"
    using h(2-4) by (simp add: acked_def payments_of_def rows_of_def is_pending_def)
  ultimately show ?thesis using h(4) by blast
qed

lemma early_ack_voids_payment_witness:
  "\<exists>resp st'. handle_completion_ack pay_codec sample_ack_env (PeerId [7]) signed_ack published_loop = (resp, st') \<and>
     payments_of pay_rid (acked signed_ack resp st' pay_published) = (Some [], [])"
proof -
  let ?D = "pay_deployment\<lparr>dp_system := pay_published\<rparr>"
  obtain resp st' where h: "handle_completion_ack pay_codec sample_ack_env (PeerId [7]) signed_ack published_loop = (resp, st')"
    by fastforce
  let ?D1 = "?D\<lparr>dp_system := acked signed_ack resp st' pay_published\<rparr>"
  obtain m where m: "el_in_flight published_loop pay_rid = Some m" "ifm_payout_addresses m = Map.empty"
    by (simp add: published_loop_def initial_loop_def with_pg_and_settlement_def loop_simps sample_codec_def)
  have key: "pay_codec\<lparr>lc_key := dp_key ?D\<rparr> = pay_codec" "sy_loop (dp_system ?D) = published_loop"
    by (simp_all add: pay_deployment_def first_deployment_def pay_published_def)
  have "payments_of (ca_request_id signed_ack) (dp_system ?D1) = (Some [], [])"
    by (rule early_ack_voids_payment [OF pay_codec_ok pay_boot_ok pay_deploy [OF pay_published_reachable, unfolded pay_deployment_def],
          where ack = signed_ack and e = sample_ack_env and sender = "PeerId [7]" and resp = resp and st' = st' and m = m and ?D1.0 = ?D1])
      (use h m key signed_ack_valid in \<open>simp_all add: pay_deployment_def\<close>)
  with h show ?thesis by simp
qed

lemma restart_forgets_requests_witness:
  "payments_of pay_rid (restart_system (registry_new 600) True pay_auctioned) = (Some [], [])"
proof -
  let ?D = "pay_deployment\<lparr>dp_system := restart_system (registry_new 600) True pay_auctioned\<rparr>"
  have "pay_rid \<in> dom (el_in_flight (sy_loop pay_auctioned))" by (simp add: pay_auctioned_def auctioned_loop_simps domI)
  then show ?thesis
    using restart_forgets_requests [OF pay_codec_ok pay_boot_ok pay_auctioned_deployed [unfolded pay_deployment_def],
        where rid = pay_rid and ?D1.0 = ?D and ?D2.0 = ?D and reg' = "registry_new 600" and worker = True] by simp
qed

end
