(* ===== verification/Peer_Liveness.thy ===== *)
theory Peer_Liveness
  imports Peer_Registry
begin

text \<open>
  The registry over time: announcements and address observations arrive as the event loop handles them, and
  the loop evicts stale peers every \<^verbatim>\<open>EVICT_INTERVAL\<close> (\<^verbatim>\<open>EventLoop::run\<close> of
  \<^verbatim>\<open>src/coordinator/src/mesh/event_loop.rs\<close>). What a reader of the registry then knows of the peers listed.
\<close>

section \<open>The clock and the operations over time\<close>

text \<open>
  \<^verbatim>\<open>now_ms\<close>: milliseconds since the epoch, cut to 64 bits, and 0 for a clock set before the epoch.
\<close>

definition now_ms :: "int \<Rightarrow> u64" where
  "now_ms since_epoch_ms = (if since_epoch_ms < 0 then 0 else of_int since_epoch_ms)"

text \<open>In milliseconds.\<close>

definition EVICT_INTERVAL :: nat where
  "EVICT_INTERVAL = 30 * 1000"

datatype registry_op =
    Announce peer_id node_capabilities "multiaddr list"
  | Observe peer_id "multiaddr list"
  | Evict

fun apply_op :: "u64 \<Rightarrow> registry_op \<Rightarrow> peer_registry \<Rightarrow> peer_registry" where
  "apply_op now (Announce peer caps addrs) g = upsert now peer caps addrs g"
| "apply_op now (Observe peer addrs) g = observe_addrs peer addrs g"
| "apply_op now Evict g = evict_stale now g"

definition run_ops :: "(u64 \<times> registry_op) list \<Rightarrow> peer_registry \<Rightarrow> peer_registry" where
  "run_ops tr g = foldl (\<lambda>g (now, op). apply_op now op g) g tr"

lemma run_ops_simps [simp]:
  "run_ops [] g = g" "run_ops (tr @ [(now, op)]) g = apply_op now op (run_ops tr g)"
  by (simp_all add: run_ops_def)

text \<open>The time of the last announcement of a peer, and of the last eviction.\<close>

definition last_announce :: "peer_id \<Rightarrow> (u64 \<times> registry_op) list \<Rightarrow> u64 option" where
  "last_announce peer tr =
     foldl (\<lambda>acc (now, op). case op of Announce q _ _ \<Rightarrow> if q = peer then Some now else acc | _ \<Rightarrow> acc) None tr"

definition last_evict :: "(u64 \<times> registry_op) list \<Rightarrow> u64 option" where
  "last_evict tr = foldl (\<lambda>acc (now, op). case op of Evict \<Rightarrow> Some now | _ \<Rightarrow> acc) None tr"

lemma last_simps [simp]:
  "last_announce p [] = None" "last_evict [] = None"
  "last_announce p (tr @ [(now, op)]) = (case op of Announce q _ _ \<Rightarrow> if q = p then Some now else last_announce p tr | _ \<Rightarrow> last_announce p tr)"
  "last_evict (tr @ [(now, op)]) = (case op of Evict \<Rightarrow> Some now | _ \<Rightarrow> last_evict tr)"
  by (simp_all add: last_announce_def last_evict_def split: registry_op.split)

definition clock_ordered :: "(u64 \<times> registry_op) list \<Rightarrow> bool" where
  "clock_ordered tr \<longleftrightarrow> sorted (map fst tr)"

lemma clock_ordered_snoc [simp]:
  "clock_ordered (tr @ [(now, op)]) \<longleftrightarrow> clock_ordered tr \<and> list_all (\<lambda>x. fst x \<le> now) tr"
  by (auto simp: clock_ordered_def sorted_append list_all_iff)

section \<open>What the list says\<close>

lemma run_ops_wf: "registry_wf (run_ops tr (registry_new ttl)) \<and> reg_ttl_ms (run_ops tr (registry_new ttl)) = ttl"
proof (induction tr rule: rev_induct)
  case (snoc x tr)
  obtain now op where x: "x = (now, op)" by (cases x)
  show ?case
    using snoc unfolding x
    by (cases op) (simp_all, simp_all add: upsert_def observe_addrs_def evict_stale_def Let_def split: option.split)
qed (simp, simp add: registry_new_def)

lemma last_evict_mem: "last_evict tr = Some s \<Longrightarrow> \<exists>op. (s, op) \<in> set tr"
proof (induction tr rule: rev_induct)
  case (snoc x tr)
  then show ?case by (cases x) (auto split: registry_op.splits)
qed simp

text \<open>An entry carries the time of the last announcement of its peer, and survived the last eviction or came later.\<close>

lemma listed_sound:
  assumes "ttl < 2 ^ 64" "clock_ordered tr" "registry_get p (run_ops tr (registry_new ttl)) = Some e"
  shows "last_announce p tr = Some (pe_last_seen_ms e) \<and>
    (\<forall>t0. last_evict tr = Some t0 \<longrightarrow> unat t0 \<le> unat (pe_last_seen_ms e) + ttl)"
  using assms(2,3)
proof (induction tr arbitrary: e rule: rev_induct)
  case Nil
  then show ?case by (simp add: registry_get_def registry_new_def)
next
  case (snoc x tr)
  obtain now op where x: "x = (now, op)" by (cases x)
  let ?g = "run_ops tr (registry_new ttl)"
  have g: "registry_wf ?g" "reg_ttl_ms ?g = ttl" using run_ops_wf by simp_all
  note r = registry_refines_map [OF g(1), unfolded g(2), OF assms(1)]
  have order: "clock_ordered tr" "list_all (\<lambda>y. fst y \<le> now) tr" using snoc.prems(1) x by simp_all
  have evict_le: "t0 \<le> now" if "last_evict tr = Some t0" for t0
    using that order(2) last_evict_mem by (fastforce simp: list_all_iff)
  note IH = snoc.IH [OF order(1), unfolded registry_get_def]
  show ?case
  proof (cases op)
    case (Announce q caps addrs)
    then show ?thesis
      using snoc.prems(2) IH [of e] r [of now q caps addrs] evict_le
      by (auto simp: x registry_get_def announce_map_def word_le_nat_alt intro: trans_le_add1 split: if_splits)
  next
    case (Observe q addrs)
    then show ?thesis
      using snoc.prems(2) IH r [of now q undefined addrs]
      by (auto simp: x registry_get_def observe_map_def split: if_splits)
  next
    case Evict
    then show ?thesis
      using snoc.prems(2) IH [of e] r [of now]
      by (auto simp: x registry_get_def alive_map_def split: option.splits if_splits)
  qed
qed

lemma listed_complete:
  assumes "ttl < 2 ^ 64" "clock_ordered tr" "list_all (\<lambda>x. fst x \<le> now) tr"
    and "last_announce p tr = Some s" "unat now \<le> unat s + ttl"
  shows "\<exists>e. registry_get p (run_ops tr (registry_new ttl)) = Some e \<and> pe_last_seen_ms e = s"
  using assms(2-4)
proof (induction tr rule: rev_induct)
  case (snoc x tr)
  obtain t op where x: "x = (t, op)" by (cases x)
  let ?g = "run_ops tr (registry_new ttl)"
  have g: "registry_wf ?g" "reg_ttl_ms ?g = ttl" using run_ops_wf by simp_all
  note r = registry_refines_map [OF g(1), unfolded g(2), OF assms(1)]
  have order: "clock_ordered tr" "list_all (\<lambda>y. fst y \<le> now) tr" and t: "unat t \<le> unat now"
    using snoc.prems(1,2) x by (simp_all add: word_le_nat_alt)
  note IH = snoc.IH [OF order, unfolded registry_get_def]
  show ?case
  proof (cases op)
    case (Announce q caps addrs)
    then show ?thesis
      using snoc.prems(3) IH r [of t q caps addrs] by (auto simp: x registry_get_def announce_map_def split: if_splits)
  next
    case (Observe q addrs)
    then show ?thesis
      using snoc.prems(3) IH r [of t q undefined addrs] by (auto simp: x registry_get_def observe_map_def)
  next
    case Evict
    then show ?thesis
      using snoc.prems(3) IH r [of t] t assms(5) by (auto simp: x registry_get_def alive_map_def)
  qed
qed simp

text \<open>
  C20: The registry lists the live peers, up to the interval of the evictions, as long as the
  system clock does not go back. Reading it at a time by which
  the last eviction lies at most the interval and some delay of the loop back: every peer listed announced
  itself at most its time to live, the interval and that delay ago, and carries the time of its last
  announcement; and every peer whose last announcement is at most the time to live ago is listed. No
  clock difference wraps around.
\<close>

theorem listed_peers_are_live:
  assumes "ttl < 2 ^ 64" "clock_ordered tr" "list_all (\<lambda>x. fst x \<le> now) tr"
    and "last_evict tr = Some t0" "unat now \<le> unat t0 + EVICT_INTERVAL + delay"
  shows "(\<forall>p e. registry_get p (run_ops tr (registry_new ttl)) = Some e \<longrightarrow>
      last_announce p tr = Some (pe_last_seen_ms e) \<and> unat now \<le> unat (pe_last_seen_ms e) + ttl + EVICT_INTERVAL + delay) \<and>
    (\<forall>p s. last_announce p tr = Some s \<and> unat now \<le> unat s + ttl \<longrightarrow>
      (\<exists>e. registry_get p (run_ops tr (registry_new ttl)) = Some e \<and> pe_last_seen_ms e = s))"
  using listed_sound [OF assms(1,2)] listed_complete [OF assms(1-3)] assms(4,5) by fastforce

definition sample_trace :: "(u64 \<times> registry_op) list" where
  "sample_trace = [(100, Announce (PeerId [1]) sample_caps []), (5000, Announce (PeerId [2]) sample_caps []), (30000, Evict)]"

lemma listed_peers_are_live_witness:
  "\<exists>e. registry_get (PeerId [2]) (run_ops sample_trace (registry_new 29000)) = Some e \<and> pe_last_seen_ms e = 5000"
proof -
  have "clock_ordered sample_trace" "list_all (\<lambda>x. fst x \<le> 31000) sample_trace" "last_evict sample_trace = Some 30000"
    "last_announce (PeerId [2]) sample_trace = Some 5000"
    by (simp_all add: sample_trace_def clock_ordered_def last_evict_def last_announce_def)
  then show ?thesis
    using listed_peers_are_live [of 29000 sample_trace 31000 30000 0] by (simp add: EVICT_INTERVAL_def)
qed

end
