(* ===== verification/Mesh_Handle.thy ===== *)
theory Mesh_Handle
  imports Event_Loop_Invariants Inference_Api
begin

text \<open>
  The \<^verbatim>\<open>Mesh\<close> trait of \<^verbatim>\<open>src/coordinator/src/mesh/mod.rs\<close> with two of its implementations: the
  idle \<^verbatim>\<open>NoopMesh\<close>, and \<^verbatim>\<open>Libp2pMesh\<close>, which forwards every operation as a command to the event
  loop and waits for the reply.
\<close>

section \<open>Forwarding to the loop\<close>

text \<open>
  The loop behind the command channel, \<open>None\<close> once its task has ended and dropped the receiver.
  \<open>taken\<close> says that the loop takes the command from the channel before it ends; otherwise the reply
  sender is dropped with the queued command.
\<close>

definition forward ::
  "string \<Rightarrow> string \<Rightarrow> bool \<Rightarrow> (event_loop \<Rightarrow> (string + 'r) \<times> event_loop) \<Rightarrow> event_loop option \<Rightarrow>
     (string + 'r) \<times> event_loop option" where
  "forward send_context reply_context taken f mesh =
     (case mesh of
        None \<Rightarrow> (Inl send_context, None)
      | Some st \<Rightarrow>
          if taken then (case f st of (result, st1) \<Rightarrow> (result, Some st1))
          else (Inl reply_context, None))"

definition mesh_dial :: "loop_codec \<Rightarrow> command_env \<Rightarrow> bool \<Rightarrow> multiaddr \<Rightarrow> event_loop option \<Rightarrow> (string + unit) \<times> event_loop option" where
  "mesh_dial C e taken addr mesh =
     forward ''send dial command'' ''dial reply'' taken
       (\<lambda>st. case handle_command C e (Dial addr 0) st of
               ([DialResult _ result], st1) \<Rightarrow> (result, st1)
             | (_, st1) \<Rightarrow> (Inl ''dial reply'', st1)) mesh"

definition mesh_listen_addrs :: "loop_codec \<Rightarrow> command_env \<Rightarrow> bool \<Rightarrow> event_loop option \<Rightarrow> multiaddr list \<times> event_loop option" where
  "mesh_listen_addrs C e taken mesh =
     (case forward [] [] taken
             (\<lambda>st. case handle_command C e (ListenAddrs 0) st of
                     ([ListenAddrsResult _ addrs], st1) \<Rightarrow> (Inr addrs, st1)
                   | (_, st1) \<Rightarrow> (Inl [], st1)) mesh of
        (Inr addrs, mesh1) \<Rightarrow> (addrs, mesh1)
      | (Inl _, mesh1) \<Rightarrow> ([], mesh1))"

definition mesh_publish_request ::
  "loop_codec \<Rightarrow> command_env \<Rightarrow> bool \<Rightarrow> inference_request \<Rightarrow> event_loop option \<Rightarrow> (string + unit) \<times> event_loop option" where
  "mesh_publish_request C e taken request mesh =
     forward ''send publish command'' ''publish reply'' taken
       (\<lambda>st. case handle_command C e (Publish request 0) st of
               ([PublishResult _ result], st1) \<Rightarrow> (result, st1)
             | (_, st1) \<Rightarrow> (Inl ''publish reply'', st1)) mesh"

text \<open>No reply is awaited, and a failure to send is ignored.\<close>

definition mesh_set_payout_addresses ::
  "loop_codec \<Rightarrow> command_env \<Rightarrow> bool \<Rightarrow> uuid \<Rightarrow> payout_addresses \<Rightarrow> event_loop option \<Rightarrow> event_loop option" where
  "mesh_set_payout_addresses C e taken request_id addresses mesh =
     snd (forward [] [] taken
       (\<lambda>st. (Inr (), snd (handle_command C e (SetPayoutAddresses request_id addresses) st))) mesh)"

text \<open>
  \<^verbatim>\<open>dispatch_inference\<close> waits beyond the command for the event that answers it: \<open>later\<close> is what the
  loop does in the meantime, with its outputs, \<open>None\<close> when it ends without an answer.
\<close>

definition answer_for :: "nat \<Rightarrow> loop_output list \<Rightarrow> (string + inference_reply) option" where
  "answer_for reply_tx outs =
     (case List.map_filter (\<lambda>out. case out of InferenceResult tx r \<Rightarrow> if tx = reply_tx then Some r else None | _ \<Rightarrow> None) outs of
        [] \<Rightarrow> None
      | r # _ \<Rightarrow> Some r)"

definition mesh_dispatch_inference ::
  "loop_codec \<Rightarrow> command_env \<Rightarrow> bool \<Rightarrow> (event_loop \<Rightarrow> loop_output list \<times> event_loop) \<Rightarrow> peer_id \<Rightarrow> inference_dispatch \<Rightarrow> nat \<Rightarrow>
     event_loop option \<Rightarrow> (string + inference_reply) \<times> event_loop option" where
  "mesh_dispatch_inference C e taken later peer dispatch reply_tx mesh =
     forward ''send dispatch-inference command'' ''dispatch-inference reply'' taken
       (\<lambda>st. case later (snd (handle_command C e (DispatchInference peer dispatch reply_tx) st)) of
               (outs, st1) \<Rightarrow>
                 (case answer_for reply_tx outs of None \<Rightarrow> Inl ''dispatch-inference reply'' | Some r \<Rightarrow> r, st1)) mesh"

section \<open>The idle mesh\<close>

text \<open>The sender of the bid channel is dropped on return, so the first receive finds it closed.\<close>

definition noop_publish_request :: "inference_request \<Rightarrow> string + recv_outcome list" where
  "noop_publish_request request = Inr [SenderClosed]"

definition default_dispatch_inference :: "peer_id \<Rightarrow> inference_dispatch \<Rightarrow> string + inference_reply" where
  "default_dispatch_inference peer dispatch = Inl ''dispatch_inference not implemented for this Mesh''"

lemma noop_mesh_no_nodes:
  assumes "ch_publish e = noop_publish_request request" "chat_completions P e req = Some (calls, r)"
  shows "\<exists>err. r = Inl err \<and> app_error_status err \<in> {400, 503} \<and> \<not> list_ex is_dispatch calls"
proof -
  have dec: "decrypt_messages_if_encrypted P req = Inl x \<Longrightarrow> app_error_status x = 400" for x
    by (auto simp: decrypt_messages_if_encrypted_def Let_def split: option.splits if_splits)
  show ?thesis
    using assms
    by (auto simp: chat_completions_def noop_publish_request_def collect_bids_def Let_def is_dispatch_def
        pick_winner_with_warmth_def dec split: sum.splits option.splits prod.splits)
qed

section \<open>Effects on the loop\<close>

lemma mesh_publish_ok:
  assumes "mesh_publish_request C e taken request mesh = (Inr (), mesh')"
  obtains st st' where "mesh = Some st" "mesh' = Some st'"
    "el_in_flight st' = (el_in_flight st)(ireq_request_id request \<mapsto>
       \<lparr>ifm_client_id = [], ifm_bid_set_hash = zeros32, ifm_payout_addresses = Map.empty,
        ifm_session_id = ireq_session_id request\<rparr>)"
    "el_bid_subscribers st' = (el_bid_subscribers st)(ireq_request_id request \<mapsto> \<lparr>bc_queue = [], bc_open = True\<rparr>)"
  using assms
  by (auto simp: mesh_publish_request_def forward_def handle_command_def publish_request_def
      split: option.splits prod.splits if_splits)

lemma mesh_set_payout_addresses_in_flight:
  assumes "el_in_flight st rid = Some m"
  shows "mesh_set_payout_addresses C e True rid addrs (Some st) =
    Some (st\<lparr>el_in_flight := (el_in_flight st)(rid \<mapsto> m\<lparr>ifm_payout_addresses := addrs\<rparr>)\<rparr>)"
  using assms by (simp add: mesh_set_payout_addresses_def forward_def handle_command_def)

section \<open>The loop between two calls of a handler\<close>

text \<open>
  What one iteration of \<^verbatim>\<open>run\<close> takes up (a swarm event, a command, the eviction tick), and the tasks beside it: the holder
  of a bid receiver takes a bid or drops the receiver, and the forwarding task takes a settlement job.
\<close>

datatype loop_input =
    OnEvent ack_env swarm_event
  | OnCommand command_env mesh_command
  | OnEvict u64
  | OnRecv uuid
  | OnDropReceiver uuid
  | OnForward

fun channel_recv :: "uuid \<Rightarrow> event_loop \<Rightarrow> (inference_bid \<times> event_loop) option" where
  "channel_recv rid st =
     (case el_bid_subscribers st rid of
        None \<Rightarrow> None
      | Some ch \<Rightarrow>
          (case bc_queue ch of
             [] \<Rightarrow> None
           | b # bs \<Rightarrow> Some (b, st\<lparr>el_bid_subscribers := (el_bid_subscribers st)(rid \<mapsto> ch\<lparr>bc_queue := bs\<rparr>)\<rparr>)))"

text \<open>\<open>None\<close> while the input has to wait: a bid for a full channel, a receive from an empty one.\<close>

fun take_input :: "loop_codec \<Rightarrow> loop_input \<Rightarrow> event_loop \<Rightarrow> event_loop option" where
  "take_input C (OnEvent e event) st = map_option snd (handle_swarm_event C e event st)"
| "take_input C (OnCommand e cmd) st = Some (snd (handle_command C e cmd st))"
| "take_input C (OnEvict now) st = Some (st\<lparr>el_peer_registry := evict_stale now (el_peer_registry st)\<rparr>)"
| "take_input C (OnRecv rid) st = map_option snd (channel_recv rid st)"
| "take_input C (OnDropReceiver rid) st =
     Some (case el_bid_subscribers st rid of
             None \<Rightarrow> st
           | Some ch \<Rightarrow> st\<lparr>el_bid_subscribers := (el_bid_subscribers st)(rid \<mapsto> ch\<lparr>bc_queue := [], bc_open := False\<rparr>)\<rparr>)"
| "take_input C OnForward st =
     (case el_settlement st of Some (j # q) \<Rightarrow> Some (st\<lparr>el_settlement := Some q\<rparr>) | _ \<Rightarrow> None)"

fun run_inputs :: "loop_codec \<Rightarrow> loop_input list \<Rightarrow> event_loop \<Rightarrow> event_loop option" where
  "run_inputs C [] st = Some st"
| "run_inputs C (i # is) st = (case take_input C i st of None \<Rightarrow> None | Some st1 \<Rightarrow> run_inputs C is st1)"

text \<open>The executions of \<open>run_inputs\<close> are executions of the loop.\<close>

lemma take_input_step: "take_input C i st = Some st' \<Longrightarrow> loop_step C st st' \<or> st' = st"
  by (cases i) (auto intro: loop_step.intros loop_step.cmd [OF surjective_pairing] split: option.splits list.splits)

lemma run_inputs_steps: "run_inputs C is st = Some st' \<Longrightarrow> (loop_step C)\<^sup>*\<^sup>* st st'"
proof (induction "is" arbitrary: st)
  case (Cons i "is")
  then obtain st1 where "take_input C i st = Some st1" "(loop_step C)\<^sup>*\<^sup>* st1 st'" by (auto split: option.splits)
  with take_input_step show ?case by (metis converse_rtranclp_into_rtranclp)
qed simp

section \<open>What keeps a request in flight\<close>

definition completes :: "uuid \<Rightarrow> swarm_event \<Rightarrow> bool" where
  "completes rid event = (case event of CompletionRequest _ ack \<Rightarrow> ca_request_id ack = rid | _ \<Rightarrow> False)"

lemma ack_keeps_other_in_flight:
  assumes "handle_completion_ack C e sender ack st = (resp, st')" "rid \<noteq> ca_request_id ack"
  shows "el_in_flight st' rid = el_in_flight st rid"
proof (cases "ack_valid C ack")
  case False
  then show ?thesis using handle_completion_ack_invalid [of C ack e sender st] assms(1) by auto
next
  case True
  then show ?thesis
    using handle_completion_ack_valid [OF True refl refl, of e sender st] assms
    by (auto simp: consumed_def split: prod.splits sum.splits)
qed

lemma gossip_keeps_in_flight:
  "handle_gossip_message C now src msg st = Some st' \<Longrightarrow> el_in_flight st' = el_in_flight st"
  by (auto simp: handle_gossip_message_def split: if_splits option.splits)

lemma swarm_event_keeps_in_flight:
  assumes "handle_swarm_event C e event st = Some (out, st')" "\<not> completes rid event"
  shows "el_in_flight st' rid = el_in_flight st rid"
  using assms
  by (auto simp: handle_swarm_event_def finish_inference_def completes_def gossip_keeps_in_flight
      ack_keeps_other_in_flight split: swarm_event.splits prod.splits option.splits if_splits)

definition touches :: "uuid \<Rightarrow> loop_input \<Rightarrow> bool" where
  "touches rid i =
     (case i of
        OnEvent _ event \<Rightarrow> completes rid event
      | OnCommand _ (Publish request _) \<Rightarrow> ireq_request_id request = rid
      | OnCommand _ (SetPayoutAddresses r _) \<Rightarrow> r = rid
      | _ \<Rightarrow> False)"

lemma command_keeps_in_flight:
  assumes "\<not> touches rid (OnCommand e cmd)"
  shows "el_in_flight (snd (handle_command C e cmd st)) rid = el_in_flight st rid"
  using assms
  by (cases cmd) (auto simp: touches_def handle_command_def publish_request_def split: option.splits prod.splits)

lemma take_input_keeps_in_flight:
  assumes "take_input C i st = Some st'" "\<not> touches rid i"
  shows "el_in_flight st' rid = el_in_flight st rid"
proof (cases i)
  case (OnEvent e event)
  then show ?thesis using assms swarm_event_keeps_in_flight [of C e event st] by (auto simp: touches_def)
next
  case (OnCommand e cmd)
  then show ?thesis using assms command_keeps_in_flight by auto
qed (use assms in \<open>auto split: option.splits list.splits\<close>)

lemma run_inputs_keep_in_flight:
  "run_inputs C is st = Some st' \<Longrightarrow> list_all (\<lambda>i. \<not> touches rid i) is \<Longrightarrow> el_in_flight st' rid = el_in_flight st rid"
proof (induction "is" arbitrary: st)
  case (Cons i "is")
  then show ?case using take_input_keeps_in_flight [of C i st] by (auto split: option.splits)
qed simp

section \<open>What the receiver gets\<close>

text \<open>The bids the receiver of a request takes during an execution, and those that arrive for it.\<close>

fun received :: "loop_codec \<Rightarrow> uuid \<Rightarrow> loop_input list \<Rightarrow> event_loop \<Rightarrow> inference_bid list" where
  "received C rid [] st = []"
| "received C rid (i # is) st =
     (case take_input C i st of
        None \<Rightarrow> []
      | Some st1 \<Rightarrow>
          (if i = OnRecv rid then (case channel_recv rid st of None \<Rightarrow> [] | Some (b, _) \<Rightarrow> [b]) else []) @
          received C rid is st1)"

definition bid_of_input :: "loop_codec \<Rightarrow> uuid \<Rightarrow> loop_input \<Rightarrow> inference_bid list" where
  "bid_of_input C rid i =
     (case i of
        OnEvent _ (GossipsubMessage _ message) \<Rightarrow>
          (case (gm_topic message = BIDS, lc_bid_from_slice C (gm_data message)) of
             (True, Some bid) \<Rightarrow> if bid_request_id bid = rid then [bid] else []
           | _ \<Rightarrow> [])
      | _ \<Rightarrow> [])"

text \<open>The inputs that end or restart the auction of a request.\<close>

definition ends_auction :: "uuid \<Rightarrow> loop_input \<Rightarrow> bool" where
  "ends_auction rid i =
     (case i of
        OnDropReceiver r \<Rightarrow> r = rid
      | OnCommand _ (Publish request _) \<Rightarrow> ireq_request_id request = rid
      | _ \<Rightarrow> False)"

lemma ack_keeps_channels:
  "el_bid_subscribers (snd (handle_completion_ack C e sender ack st)) = el_bid_subscribers st"
proof (cases "ack_valid C ack")
  case False
  then show ?thesis using handle_completion_ack_invalid [of C ack e sender st] by auto
next
  case True
  then show ?thesis
    using handle_completion_ack_valid [OF True refl refl, of e sender st]
    by (auto simp: consumed_def split: prod.splits sum.splits)
qed

lemma gossip_channel:
  assumes "handle_gossip_message C now src message st = Some st'" "el_bid_subscribers st rid = Some ch" "bc_open ch"
  shows "el_bid_subscribers st' rid = Some (ch\<lparr>bc_queue := bc_queue ch @ bid_of_input C rid (OnEvent e (GossipsubMessage src message))\<rparr>)"
  using assms
  by (auto simp: handle_gossip_message_def channel_send_def bid_of_input_def BIDS_def ANNOUNCE_def
      split: if_splits option.splits)

lemma take_input_channel:
  assumes "take_input C i st = Some st'" "el_bid_subscribers st rid = Some ch" "bc_open ch"
    and "\<not> ends_auction rid i" "i \<noteq> OnRecv rid"
  shows "el_bid_subscribers st' rid = Some (ch\<lparr>bc_queue := bc_queue ch @ bid_of_input C rid i\<rparr>)"
proof (cases i)
  case (OnEvent e event)
  show ?thesis
  proof (cases event)
    case (GossipsubMessage src message)
    then show ?thesis using assms(1-3) OnEvent gossip_channel by (auto simp: handle_swarm_event_def)
  next
    case (CompletionRequest peer ack)
    then show ?thesis
      using assms(1,2) OnEvent ack_keeps_channels [of C e peer ack st]
      by (auto simp: handle_swarm_event_def bid_of_input_def split: prod.splits)
  qed (use assms(1,2) OnEvent in \<open>auto simp: handle_swarm_event_def finish_inference_def bid_of_input_def split: option.splits\<close>)
next
  case (OnCommand e cmd)
  then show ?thesis
    using assms
    by (cases cmd) (auto simp: handle_command_def publish_request_def bid_of_input_def ends_auction_def split: option.splits prod.splits)
qed (use assms in \<open>auto simp: bid_of_input_def ends_auction_def split: option.splits list.splits\<close>)

text \<open>First in, first out: what was taken and what is left are what was there and what arrived.\<close>

lemma channel_fifo:
  assumes "run_inputs C is st = Some st'" "el_bid_subscribers st rid = Some ch" "bc_open ch"
    and "list_all (\<lambda>i. \<not> ends_auction rid i) is"
  shows "\<exists>ch'. el_bid_subscribers st' rid = Some ch' \<and> bc_open ch' \<and>
    received C rid is st @ bc_queue ch' = bc_queue ch @ concat (map (bid_of_input C rid) is)"
  using assms
proof (induction "is" arbitrary: st ch)
  case (Cons i "is")
  then obtain st1 where st1: "take_input C i st = Some st1" "run_inputs C is st1 = Some st'" by (auto split: option.splits)
  show ?case
  proof (cases "i = OnRecv rid")
    case True
    then obtain b bs where q: "bc_queue ch = b # bs" "el_bid_subscribers st1 rid = Some (ch\<lparr>bc_queue := bs\<rparr>)"
      using st1(1) Cons.prems(2) by (auto split: list.splits)
    have "channel_recv rid st = Some (b, st1)" using True st1(1) Cons.prems(2) q(1) by simp
    then show ?thesis
      using Cons.IH [OF st1(2) q(2)] Cons.prems(3,4) q(1) st1(1) True by (auto simp: bid_of_input_def simp del: channel_recv.simps)
  next
    case False
    have ch1: "el_bid_subscribers st1 rid = Some (ch\<lparr>bc_queue := bc_queue ch @ bid_of_input C rid i\<rparr>)"
      using take_input_channel [OF st1(1) Cons.prems(2,3) _ False] Cons.prems(4) by simp
    show ?thesis using Cons.IH [OF st1(2) ch1] Cons.prems(3,4) st1(1) False by auto
  qed
qed simp

end
