(* ===== verification/Mesh_Trait.thy ===== *)
theory Mesh_Trait
  imports Mesh_Handle
begin

text \<open>
  The publishing side of the \<^verbatim>\<open>Mesh\<close> trait as a locale, with its three implementations as interpretations:
  the idle mesh, the in-memory mesh of \<^verbatim>\<open>src/coordinator/src/mesh/test_mesh.rs\<close>, modelled here, and the
  libp2p mesh in any state its event loop can reach.
\<close>

section \<open>The in-memory mesh\<close>

record in_memory_mesh =
  im_seeded :: "inference_bid list"

definition in_memory_new :: in_memory_mesh where
  "in_memory_new = \<lparr>im_seeded = []\<rparr>"

definition seed_bids :: "inference_bid list \<Rightarrow> in_memory_mesh \<Rightarrow> in_memory_mesh" where
  "seed_bids bids m = m\<lparr>im_seeded := bids\<rparr>"

text \<open>
  The channel has room for every seeded bid, so no send waits; the sender is dropped on return, so the
  receiver finds the channel closed after the last bid.
\<close>

definition in_memory_capacity :: "in_memory_mesh \<Rightarrow> nat" where
  "in_memory_capacity m = max 64 (length (im_seeded m))"

fun send_seeded :: "nat \<Rightarrow> uuid \<Rightarrow> inference_bid list \<Rightarrow> inference_bid list \<Rightarrow> inference_bid list option" where
  "send_seeded capacity request_id [] queue = Some queue"
| "send_seeded capacity request_id (bid # bids) queue =
     (if length queue < capacity then send_seeded capacity request_id bids (queue @ [bid\<lparr>bid_request_id := request_id\<rparr>])
      else None)"

definition in_memory_publish_request :: "in_memory_mesh \<Rightarrow> inference_request \<Rightarrow> (string + recv_outcome list) option" where
  "in_memory_publish_request m request =
     map_option (\<lambda>queue. Inr (map RecvBid queue @ [SenderClosed]))
       (send_seeded (in_memory_capacity m) (ireq_request_id request) (im_seeded m) [])"

definition in_memory_dispatch_inference ::
  "(peer_id \<Rightarrow> string) \<Rightarrow> peer_id \<Rightarrow> inference_dispatch \<Rightarrow> string + inference_reply" where
  "in_memory_dispatch_inference peer_to_str peer dispatch =
     Inr \<lparr>ir_request_id = dt_request_id (id_dispatch_token dispatch), ir_session_id = dt_session_id (id_dispatch_token dispatch),
       ir_content = ''mock-reply-from-'' @ peer_to_str peer, ir_input_tokens = 10, ir_output_tokens = 20, ir_latency_ms = 5,
       ir_error = None\<rparr>"

lemma send_seeded_room:
  "length queue + length bids \<le> capacity \<Longrightarrow>
     send_seeded capacity rid bids queue = Some (queue @ map (\<lambda>b. b\<lparr>bid_request_id := rid\<rparr>) bids)"
  by (induction capacity rid bids queue rule: send_seeded.induct) simp_all

text \<open>Publishing never waits, and delivers every seeded bid, readdressed, before the channel closes.\<close>

lemma in_memory_publish:
  "in_memory_publish_request m request =
     Some (Inr (map (\<lambda>b. RecvBid (b\<lparr>bid_request_id := ireq_request_id request\<rparr>)) (im_seeded m) @ [SenderClosed]))"
  by (simp add: in_memory_publish_request_def send_seeded_room in_memory_capacity_def)

section \<open>The contract\<close>

lemma collected:
  assumes "collect_bids rs = Some bids" "b \<in> set bids"
  shows "RecvBid b \<in> set rs"
proof -
  have "collect_bids_loop acc rs = Some bids \<Longrightarrow> set bids \<subseteq> set acc \<union> {b. RecvBid b \<in> set rs}" for acc
    by (induction acc rs rule: collect_bids_loop.induct) auto
  from this [of "[]"] show ?thesis using assms by (auto simp: collect_bids_def)
qed

text \<open>\<open>publish\<close>: what the receiver of the bid channel yields for a request, in a state of the mesh.\<close>

locale bid_source =
  fixes publish :: "'m \<Rightarrow> inference_request \<Rightarrow> string + recv_outcome list"
    and ok :: "'m \<Rightarrow> bool"
  assumes own_bids:
    "ok m \<Longrightarrow> publish m request = Inr rs \<Longrightarrow> RecvBid b \<in> set rs \<Longrightarrow> bid_request_id b = ireq_request_id request"
begin

theorem winner_bid_for_request:
  assumes "ok m" "publish m request = Inr rs" "collect_bids rs = Some bids" "pick_winner_with_warmth bids wm = Some w"
  shows "bid_request_id w = ireq_request_id request \<and> RecvBid w \<in> set rs"
proof -
  have "w \<in> set bids" using assms(4) max_by_in by (auto simp: pick_winner_with_warmth_def)
  then show ?thesis using collected [OF assms(3)] own_bids [OF assms(1,2)] by blast
qed

end

interpretation noop: bid_source "\<lambda>_ :: unit. noop_publish_request" "\<lambda>_. True"
  by unfold_locales (auto simp: noop_publish_request_def)

interpretation in_memory: bid_source "\<lambda>m request. the (in_memory_publish_request m request)" "\<lambda>_. True"
  by unfold_locales (auto simp: in_memory_publish)

text \<open>The libp2p mesh: the bids waiting in the channel of the request, then the deadline.\<close>

definition libp2p_received :: "event_loop \<Rightarrow> inference_request \<Rightarrow> string + recv_outcome list" where
  "libp2p_received st request =
     (case el_bid_subscribers st (ireq_request_id request) of
        None \<Rightarrow> Inl ''publish reply''
      | Some ch \<Rightarrow> Inr (map RecvBid (bc_queue ch) @ [DeadlineReached]))"

interpretation libp2p: bid_source libp2p_received "loop_inv C" for C
proof unfold_locales
  fix st request rs b
  assume "loop_inv C st" "libp2p_received st request = Inr rs" "RecvBid b \<in> set rs"
  then show "bid_request_id b = ireq_request_id request"
    by (fastforce simp: libp2p_received_def loop_inv_def channel_ok_def list_all_iff split: option.splits)
qed

text \<open>
  In every reachable state of the event loop, the winner of an auction over the bids received for
  a request is a bid that was made for that request, whatever bids other peers sent for others.
\<close>

theorem libp2p_winner_bid_for_request:
  assumes "codec_ok C" "\<forall>d. pool = Some d \<longrightarrow> db_wf d" "(loop_step C)\<^sup>*\<^sup>* (initial_loop ttl mem pool worker) st"
    and "libp2p_received st request = Inr rs" "collect_bids rs = Some bids" "pick_winner_with_warmth bids wm = Some w"
  shows "bid_request_id w = ireq_request_id request"
  using libp2p.winner_bid_for_request [OF reachable_loop_inv [OF assms(1-3)] assms(4-6)] by blast

end
