(* ===== verification/Ledger_History.thy ===== *)
theory Ledger_History
  imports Jobs Auction Event_Loop_Invariants
begin

text \<open>
  The database over the life of a deployment: every write the coordinator performs, in any order and
  with any failures, as steps on the tables, and what each row then satisfies. The writers are the job
  store and the deadline watcher, the receipt archive, the completion handler of the event loop, the
  settlement worker and the confirmation of a payment.
\<close>

section \<open>Steps\<close>

inductive db_step :: "db \<Rightarrow> db \<Rightarrow> bool" where
  job: "jobs_step d d' \<Longrightarrow> db_step d d'"
| receipt: "db_step d (d\<lparr>db_routing_receipts := snd (pg_put R env r (db_routing_receipts d))\<rparr>)"
| ack: "el_pg_pool st = Some d \<Longrightarrow> handle_completion_ack C e sender ack st = (resp, st') \<Longrightarrow>
    el_pg_pool st' = Some d' \<Longrightarrow> db_step d d'"
| settlement: "db_step d (snd (snd (handle_settlement w j d)))"
| confirmed: "db_step d (snd (mark_confirmed env pid d))"

section \<open>Well-typed rows\<close>

text \<open>
  The status is one of the four the column documents, and the columns that go with it are filled:
  a pending row has no digest and no times, a submitted one has its digest and submission time, a
  confirmed one its confirmation time.
\<close>

definition payment_typed :: "payment_row \<Rightarrow> bool" where
  "payment_typed r \<longleftrightarrow>
     pr_status r = ''pending'' \<and> pr_tx_digest r = None \<and> pr_submitted_at r = None \<and> pr_confirmed_at r = None \<or>
     pr_status r = ''submitted'' \<and> pr_tx_digest r \<noteq> None \<and> pr_submitted_at r \<noteq> None \<or>
     pr_status r = ''confirmed'' \<and> pr_confirmed_at r \<noteq> None \<or>
     pr_status r = ''failed''"

text \<open>No operation writes a session, so the foreign key keeps the tables that refer to one empty.\<close>

definition db_typed :: "db \<Rightarrow> bool" where
  "db_typed d \<longleftrightarrow>
     jobs_inv d \<and> list_all payment_typed (db_payments d) \<and>
     db_sessions d = [] \<and> db_turns d = [] \<and> db_node_session_cache d = []"

lemma db_typed_wf: "db_typed d \<Longrightarrow> db_wf d"
  by (simp add: db_typed_def jobs_inv_def)

lemma jobs_step_frame:
  "jobs_step d d' \<Longrightarrow> db_payments d' = db_payments d \<and> db_sessions d' = db_sessions d \<and>
    db_turns d' = db_turns d \<and> db_node_session_cache d' = db_node_session_cache d"
  by (induction rule: jobs_step.induct)
    (auto simp: job_push_def mark_completed_def set_job_status_def handle_dispatch_timeout_def Let_def
      split: option.splits sum.splits prod.splits)

lemma pg_put_distinct:
  "distinct (map rcr_request_id rows) \<Longrightarrow> distinct (map rcr_request_id (snd (pg_put R env r rows)))"
  by (auto simp: pg_put_def intro: upsert_by_distinct split: option.splits)

lemma update_payment_typed:
  assumes "db_typed d" "\<And>r. pr_id (f r) = pr_id r" "\<And>r. payment_typed (f r)"
  shows "db_typed (snd (update_payment env pid f d))"
  using assms
  by (auto simp: db_typed_def jobs_inv_def db_wf_def update_payment_def update_where_keys list_all_iff set_update_where
      split: option.split)

lemma mark_typed:
  assumes "db_typed d"
  shows "db_typed (snd (mark_submitted env pid digest d))" "db_typed (snd (mark_failed env pid d))"
    "db_typed (snd (mark_confirmed env pid d))"
  unfolding mark_submitted_def mark_failed_def mark_confirmed_def
  by (intro update_payment_typed [OF assms]; simp add: payment_typed_def)+

lemma insert_pending_from_typed:
  "db_typed d \<Longrightarrow> db_typed (snd (insert_pending_from env i rid lines d))"
proof (induction env i rid lines d rule: insert_pending_from.induct)
  case (2 env i rid line lines d)
  have "db_typed (d\<lparr>db_payments := insert_payment (pending_row (env i) rid line) (db_payments d)\<rparr>)"
    using "2.prems"
    by (auto simp: db_typed_def jobs_inv_def db_wf_def insert_payment_def list_ex_iff payment_typed_def pending_row_def)
  then show ?case using 2 by (simp split: option.split)
qed simp

lemma warm_peers_typed: "db_typed d \<Longrightarrow> warm_peers env i sid peers d = d"
proof (induction env i sid peers d rule: warm_peers.induct)
  case (2 env i sid peer peers d)
  have "snd (upsert_warm (env i) peer sid d) = d"
    using "2.prems" by (simp add: upsert_warm_def db_typed_def split: option.split)
  then show ?case using 2 by simp
qed simp

lemma ack_typed:
  assumes "db_typed d" "el_pg_pool st = Some d" "handle_completion_ack C e sender ack st = (resp, st')"
    "el_pg_pool st' = Some d'"
  shows "db_typed d'"
proof (cases "ack_valid C ack")
  case False
  then show ?thesis using handle_completion_ack_invalid [of C ack e sender st] assms by auto
next
  case True
  let ?rid = "ca_request_id ack" and ?meta = "el_in_flight st (ca_request_id ack)"
  let ?lines = "compute_payouts ack (meta_addresses ?meta)" and ?r = "receipt_of_ack C (ae_now_ms e) sender ack ?meta"
  have warm: "el_pg_pool (mark_warm e ?r ?meta ((consumed ?rid st)\<lparr>el_archive := a\<rparr>)) = Some d" for a
    using assms(1,2) by (auto simp: mark_warm_def consumed_def warm_peers_typed simp del: warm_peers.simps split: option.split)
  have "d' = d \<or> d' = snd (insert_pending (ae_insert e) ?rid ?lines d)"
    using handle_completion_ack_valid [OF True refl refl, of e sender st] assms(2-4) warm
    by (cases "archive_put (lc_receipt C) (ae_archive e) ?r (el_archive st)")
      (auto simp: persist_payments_def consumed_def simp del: receipt_of_ack_simps split: sum.splits if_splits prod.splits)
  then show ?thesis using assms(1) insert_pending_from_typed [OF assms(1)] by (auto simp: insert_pending_def)
qed

lemma settle_rows_typed: "db_typed d \<Longrightarrow> db_typed (snd (snd (settle_rows w r i rows d)))"
proof (induction w r i rows d rule: settle_rows.induct)
  case (2 w r i row rows d)
  obtain call outcome where o: "settle_row w r i row = (call, outcome)" by fastforce
  obtain x d1 where m: "(case outcome of Inr digest \<Rightarrow> mark_submitted (we_mark w i) (pp_id row) digest d
      | Inl _ \<Rightarrow> mark_failed (we_mark w i) (pp_id row) d) = (x, d1)" by fastforce
  then have d1: "db_typed d1"
    using mark_typed [OF "2.prems", of "we_mark w i" "pp_id row"] by (cases outcome) (auto simp: prod_eq_iff)
  show ?case
  proof (cases x)
    case (Inl err)
    then show ?thesis using o m d1 by simp
  next
    case (Inr u)
    then show ?thesis
      using o m "2.IH" [OF o [symmetric] m [symmetric] _ d1] by (auto split: prod.split)
  qed
qed simp

lemma db_step_typed: "db_step d d' \<Longrightarrow> db_typed d \<Longrightarrow> db_typed d'"
proof (induction rule: db_step.induct)
  case (job d d')
  then show ?case using jobs_step_frame jobs_step_inv by (auto simp: db_typed_def)
next
  case (receipt d R env r)
  then show ?case using pg_put_distinct by (auto simp: db_typed_def jobs_inv_def db_wf_def)
next
  case (ack st d C e sender ack resp st' d')
  then show ?case by (auto intro: ack_typed)
next
  case (settlement d w j)
  then show ?case
    using settle_rows_typed by (auto simp: handle_settlement_def split: sum.split option.split)
next
  case (confirmed d env pid)
  then show ?case by (auto intro: mark_typed)
qed

interpretation ledger: step_invariant db_step db_typed
  by unfold_locales (rule db_step_typed)

lemma db_typed_empty: "db_typed db_empty"
  by (simp add: db_typed_def jobs_inv_def) (simp add: db_empty_def)

text \<open>
  C21: Every row a deployment stores is well typed. From the empty tables, whatever sequence of job,
  receipt, completion, settlement and confirmation writes runs and whichever statements fail, the
  declared keys and references hold, every dispatch status parses, and every payment row has one of
  the four documented statuses with the columns that go with it.
\<close>

theorem stored_rows_are_typed:
  assumes "db_step\<^sup>*\<^sup>* db_empty d"
  shows "db_wf d \<and> list_all payment_typed (db_payments d) \<and>
    list_all (\<lambda>r. parse_job_status (dr_status r) \<noteq> None) (db_dispatch_jobs d)"
  using ledger.reachable_inv [OF assms db_typed_empty]
  by (auto simp: db_typed_def jobs_inv_def written_statuses_def parse_job_status_def list_all_iff)

definition paid_db :: db where
  "paid_db = snd (snd (handle_settlement sample_worker
     \<lparr>sj_request_id = ca_request_id signed_ack, sj_receipt_json = []\<rparr>
     (the (el_pg_pool (snd (handle_completion_ack sample_codec sample_ack_env (PeerId [1]) signed_ack sample_loop))))))"

lemma ack_pool_present:
  "el_pg_pool st = Some d \<Longrightarrow> \<exists>d'. el_pg_pool (snd (handle_completion_ack C e sender ack st)) = Some d'"
  using ack_typed
  by (cases "ack_valid C ack")
    (use handle_completion_ack_invalid [of C ack e sender st] in \<open>auto simp: handle_completion_ack_valid persist_payments_def
      mark_warm_def consumed_def simp del: warm_peers.simps receipt_of_ack_simps split: prod.split sum.split option.split\<close>)

lemma paid_db_reachable: "db_step\<^sup>*\<^sup>* db_empty paid_db"
proof -
  obtain d1 where d1: "el_pg_pool (snd (handle_completion_ack sample_codec sample_ack_env (PeerId [1]) signed_ack sample_loop)) = Some d1"
    using ack_pool_present [OF sample_loop_simps(2)] by blast
  then have "db_step db_empty d1" by (intro db_step.ack [OF sample_loop_simps(2) surjective_pairing])
  moreover have "db_step d1 paid_db" unfolding paid_db_def d1 option.sel by (rule db_step.settlement)
  ultimately show ?thesis by (meson r_into_rtranclp rtranclp.rtrancl_into_rtrancl)
qed

lemma stored_rows_are_typed_witness: "db_wf paid_db \<and> list_all payment_typed (db_payments paid_db)"
  using stored_rows_are_typed [OF paid_db_reachable] by blast

section \<open>The warm-node table\<close>

text \<open>
  Other programs may share the database. A step of the shared database is one of the coordinator's writes,
  or any write of another program within the declared constraints that does not register the session \<open>sid\<close>.
\<close>

inductive shared_step :: "uuid \<Rightarrow> db \<Rightarrow> db \<Rightarrow> bool" for sid where
  own: "db_step d d' \<Longrightarrow> shared_step sid d d'"
| other: "db_wf d' \<Longrightarrow> sid \<notin> sr_session_id ` set (db_sessions d') \<Longrightarrow> shared_step sid d d'"

text \<open>No row registers the session, and none refers to it.\<close>

definition unregistered :: "uuid \<Rightarrow> db \<Rightarrow> bool" where
  "unregistered sid d \<longleftrightarrow>
     sid \<notin> sr_session_id ` set (db_sessions d) \<and> list_all (\<lambda>w. wr_session_id w \<noteq> sid) (db_node_session_cache d)"

lemma warm_peers_sessions [simp]: "db_sessions (warm_peers env i sid peers d) = db_sessions d"
  by (induction env i sid peers d rule: warm_peers.induct) simp_all

lemma warm_peers_unregistered: "unregistered sid d \<Longrightarrow> unregistered sid (warm_peers env i s peers d)"
proof (induction env i s peers d rule: warm_peers.induct)
  case (2 env i s peer peers d)
  have "unregistered sid (snd (upsert_warm (env i) peer s d))"
    using "2.prems"
    by (auto simp: unregistered_def upsert_warm_def upsert_by_def list_all_iff set_update_where split: option.split)
  then show ?case using "2.IH" by simp
qed simp

lemma insert_pending_from_tables:
  "db_sessions (snd (insert_pending_from env i rid lines d)) = db_sessions d \<and>
   db_node_session_cache (snd (insert_pending_from env i rid lines d)) = db_node_session_cache d"
  by (induction env i rid lines d rule: insert_pending_from.induct) (auto split: option.split)

lemma settle_rows_tables:
  "db_sessions (snd (snd (settle_rows w r i rows d))) = db_sessions d \<and>
   db_node_session_cache (snd (snd (settle_rows w r i rows d))) = db_node_session_cache d"
proof (induction w r i rows d rule: settle_rows.induct)
  case (2 w r i row rows d)
  obtain call outcome where o: "settle_row w r i row = (call, outcome)" by fastforce
  obtain x d1 where m: "(case outcome of Inr digest \<Rightarrow> mark_submitted (we_mark w i) (pp_id row) digest d
      | Inl _ \<Rightarrow> mark_failed (we_mark w i) (pp_id row) d) = (x, d1)" by fastforce
  have d1: "db_sessions d1 = db_sessions d \<and> db_node_session_cache d1 = db_node_session_cache d"
    using m by (cases outcome) (auto simp: mark_submitted_def mark_failed_def update_payment_def split: option.splits)
  show ?case
    using o m d1 "2.IH" [OF o [symmetric] m [symmetric]] by (cases x) (auto split: prod.split)
qed simp

lemma ack_tables:
  assumes "el_pg_pool st = Some d" "handle_completion_ack C e sender ack st = (resp, st')" "el_pg_pool st' = Some d'"
  shows "db_sessions d' = db_sessions d" "unregistered sid d \<Longrightarrow> unregistered sid d'"
proof -
  let ?warm = "\<lambda>d1. d1 = d \<or> (\<exists>env s peers. d1 = warm_peers env 0 s peers d)"
  have "\<exists>d1. ?warm d1 \<and> db_sessions d' = db_sessions d1 \<and> db_node_session_cache d' = db_node_session_cache d1"
  proof (cases "ack_valid C ack")
    case False
    then show ?thesis using handle_completion_ack_invalid [of C ack e sender st] assms by auto
  next
    case True
    let ?rid = "ca_request_id ack" and ?meta = "el_in_flight st (ca_request_id ack)"
    let ?lines = "compute_payouts ack (meta_addresses ?meta)" and ?r = "receipt_of_ack C (ae_now_ms e) sender ack ?meta"
    have warm: "\<exists>d1. el_pg_pool (mark_warm e ?r ?meta ((consumed ?rid st)\<lparr>el_archive := a\<rparr>)) = Some d1 \<and> ?warm d1" for a
      using assms(1) by (auto simp: mark_warm_def consumed_def simp del: warm_peers.simps split: option.split)
    have ins: "db_sessions (snd (insert_pending env ?rid ?lines d1)) = db_sessions d1 \<and>
        db_node_session_cache (snd (insert_pending env ?rid ?lines d1)) = db_node_session_cache d1" for env d1
      using insert_pending_from_tables by (simp add: insert_pending_def)
    show ?thesis
    proof (cases "archive_put (lc_receipt C) (ae_archive e) ?r (el_archive st)")
      case (Pair res a)
      obtain d1 where d1: "el_pg_pool (mark_warm e ?r ?meta ((consumed ?rid st)\<lparr>el_archive := a\<rparr>)) = Some d1" "?warm d1"
        using warm by blast
      show ?thesis
      proof (cases res)
        case (Inl err)
        then show ?thesis
          using handle_completion_ack_valid [OF True refl refl, of e sender st] Pair assms by (auto simp: consumed_def)
      next
        case (Inr u)
        then have "d' = d1 \<or> d' = snd (insert_pending (ae_insert e) ?rid ?lines d1)"
          using handle_completion_ack_valid [OF True refl refl, of e sender st] Pair assms(2,3) d1(1)
          by (auto simp: persist_payments_def simp del: receipt_of_ack_simps split: sum.splits if_splits prod.splits)
        then show ?thesis using d1(2) ins by metis
      qed
    qed
  qed
  then show "db_sessions d' = db_sessions d" "unregistered sid d \<Longrightarrow> unregistered sid d'"
    using warm_peers_unregistered by (auto simp: unregistered_def simp del: warm_peers.simps)
qed

lemma db_step_sessions: "db_step d d' \<Longrightarrow> db_sessions d' = db_sessions d \<and> (unregistered sid d \<longrightarrow> unregistered sid d')"
proof (induction rule: db_step.induct)
  case (job d d')
  then show ?case using jobs_step_frame by (simp add: unregistered_def)
next
  case (ack st d C e sender ack resp st' d')
  then show ?case using ack_tables by blast
next
  case (settlement d w j)
  then show ?case
    using settle_rows_tables by (auto simp: handle_settlement_def unregistered_def split: sum.split option.split)
next
  case (confirmed d env pid)
  then show ?case by (auto simp: mark_confirmed_def update_payment_def unregistered_def split: option.split)
qed (simp add: unregistered_def)

lemma shared_step_unregistered: "shared_step sid d d' \<Longrightarrow> unregistered sid d \<Longrightarrow> unregistered sid d'"
proof (induction rule: shared_step.induct)
  case (own d d')
  then show ?case using db_step_sessions by blast
next
  case (other d' d)
  then show ?case by (auto simp: unregistered_def db_wf_def list_all_iff)
qed

interpretation shared: step_invariant "shared_step sid" "unregistered sid" for sid
  by unfold_locales (rule shared_step_unregistered)

text \<open>
  C30: Warmth counts only for sessions that some other program registered. No write of the coordinator,
  with whatever statements failing, adds, removes or changes a session row. So, from empty tables, through any
  writes of the coordinator and any writes of other programs within the constraints that do not
  register a given session, the query for its warm nodes yields nothing, and the auction of a request in it
  picks the winner it would pick without the table, for every set of bids.
\<close>

theorem warmth_needs_registered_session:
  assumes "(shared_step sid)\<^sup>*\<^sup>* db_empty d"
  shows "(\<forall>d d'. db_step d d' \<longrightarrow> db_sessions d' = db_sessions d) \<and>
    fetch_warmth_map env (Some d) sid = Map.empty \<and>
    pick_winner_with_warmth bids (fetch_warmth_map env (Some d) sid) = pick_winner bids"
proof -
  have "unregistered sid d"
    by (rule shared.reachable_inv [OF assms]) (simp add: unregistered_def db_empty_def)
  then have "select_warmth sid d = []"
    by (auto simp: select_warmth_def unregistered_def list_all_iff filter_empty_conv)
  then have "fetch_warmth_map env (Some d) sid = Map.empty"
    by (simp add: fetch_warmth_map_def split: option.split)
  then show ?thesis using db_step_sessions by (simp add: pick_winner_def)
qed

text \<open>Another program registers session \<open>[2]\<close> and finds a warm node for it; the coordinator then works on session \<open>[1]\<close>.\<close>

definition shared_db :: db where
  "shared_db = paid_db\<lparr>db_sessions := [\<lparr>sr_session_id = Uuid [2], sr_user_address = [], sr_model_id = [], sr_title = None,
       sr_created_at = 0, sr_last_updated = 0, sr_turn_count = 0, sr_total_tokens = 0, sr_total_cost_nanox = 0,
       sr_walrus_blob_id = None, sr_prev_blob_id = None, sr_status = []\<rparr>],
     db_node_session_cache := [\<lparr>wr_node_peer_id = ''A'', wr_session_id = Uuid [2], wr_last_served_at = 0, wr_cache_tier = ''gpu''\<rparr>]\<rparr>"

lemma warmth_needs_registered_session_witness:
  "pick_winner_with_warmth [sample_bid ''A'' 50 300 (Fin (1 / 2))] (fetch_warmth_map (sample_env 0) (Some shared_db) (Uuid [1])) =
     pick_winner [sample_bid ''A'' 50 300 (Fin (1 / 2))]"
proof -
  have paid: "db_typed paid_db" by (rule ledger.reachable_inv [OF paid_db_reachable db_typed_empty])
  then have "db_wf paid_db" "db_turns paid_db = []" by (auto simp: db_typed_def jobs_inv_def)
  then have "db_wf shared_db" by (simp add: shared_db_def db_wf_def)
  then have "shared_step (Uuid [1]) db_empty shared_db" by (rule shared_step.other) (simp add: shared_db_def)
  then have "(shared_step (Uuid [1]))\<^sup>*\<^sup>* db_empty shared_db" by blast
  then show ?thesis using warmth_needs_registered_session by blast
qed

end
