(* ===== verification/Boot.thy ===== *)
theory Boot
  imports Coord_Prelude
begin

text \<open>
  Configuration and start-up: the init process's reading of the pushed configuration and the environment
  it prepares (\<^verbatim>\<open>src/init/src/config.rs\<close>, \<^verbatim>\<open>main.rs\<close>), the coordinator's own configuration
  (\<^verbatim>\<open>src/coordinator/src/app/config.rs\<close>), the connection retries of Postgres and Redis, and the
  replay-nonce store (\<^verbatim>\<open>src/coordinator/src/persistence\<close>). Mounting, sockets and process spawning are
  not modelled.
\<close>

section \<open>Configuration lines\<close>

definition split_once :: "char \<Rightarrow> string \<Rightarrow> (string \<times> string) option" where
  "split_once c s =
     (if c \<in> set s then Some (takeWhile (\<lambda>x. x \<noteq> c) s, tl (dropWhile (\<lambda>x. x \<noteq> c) s)) else None)"

definition str_trim_matches :: "char \<Rightarrow> string \<Rightarrow> string" where
  "str_trim_matches c s = rev (dropWhile (\<lambda>x. x = c) (rev (dropWhile (\<lambda>x. x = c) s)))"

definition config_line :: "string \<Rightarrow> (string \<times> string) option" where
  "config_line line =
     (let trimmed = str_trim line
      in if trimmed = [] \<or> hd trimmed = CHR ''#'' then None
         else case split_once CHR ''='' trimmed of
                None \<Rightarrow> None
              | Some (k, v) \<Rightarrow>
                  (let key = str_trim k; val = str_trim_matches (CHR 0x22) (str_trim v)
                   in if key \<noteq> [] then Some (key, val) else None))"

text \<open>
  \<^verbatim>\<open>BufRead::lines\<close> on a text: cut at line feeds, with a carriage return before one removed; a value
  with a line feed is several lines.
\<close>

fun lines_from :: "string \<Rightarrow> string \<Rightarrow> string list" where
  "lines_from acc [] = (if acc = [] then [] else [acc])"
| "lines_from acc (c # s) =
     (if c = CHR 0x0A
      then (if acc \<noteq> [] \<and> last acc = CHR 0x0D then butlast acc else acc) # lines_from [] s
      else lines_from (acc @ [c]) s)"

definition buf_lines :: "string \<Rightarrow> string list" where
  "buf_lines txt = lines_from [] txt"

text \<open>The lines as the reader yields them; an unreadable one (\<open>None\<close>) ends the loop.\<close>

fun read_config :: "string option list \<Rightarrow> (string \<times> string) list" where
  "read_config [] = []"
| "read_config (None # _) = []"
| "read_config (Some line # ls) =
     (case config_line line of None \<Rightarrow> read_config ls | Some kv \<Rightarrow> kv # read_config ls)"

section \<open>The environment of the coordinator process\<close>

type_synonym env_vars = "string \<rightharpoonup> string"

definition set_default :: "string \<Rightarrow> string \<Rightarrow> env_vars \<Rightarrow> env_vars" where
  "set_default k v vars = (if vars k = None then vars(k \<mapsto> v) else vars)"

text \<open>
  \<^verbatim>\<open>std::env::set_var\<close> panics on an empty name, on \<^verbatim>\<open>=\<close> or NUL in the name and on NUL in the value; init then
  ends. \<open>inject\<close> is the environment when no pair makes it panic.
\<close>

definition set_var_panics :: "string \<times> string \<Rightarrow> bool" where
  "set_var_panics kv \<longleftrightarrow>
     fst kv = [] \<or> CHR ''='' \<in> set (fst kv) \<or> CHR 0x00 \<in> set (fst kv) \<or> CHR 0x00 \<in> set (snd kv)"

definition inject_panics :: "string option list option \<Rightarrow> bool" where
  "inject_panics pushed = (case pushed of None \<Rightarrow> False | Some ls \<Rightarrow> list_ex set_var_panics (read_config ls))"

definition inject :: "(string \<times> string) list \<Rightarrow> env_vars \<Rightarrow> env_vars" where
  "inject pairs vars = foldl (\<lambda>e (k, v). e(k \<mapsto> v)) vars pairs"

definition hex_digit :: "nat \<Rightarrow> char" where
  "hex_digit n = (if n < 10 then char_of (48 + n) else char_of (87 + n))"

definition hex_lower :: "bytes \<Rightarrow> string" where
  "hex_lower bs = concat (map (\<lambda>b. [hex_digit (unat b div 16), hex_digit (unat b mod 16)]) bs)"

text \<open>
  \<open>pushed\<close> is what arrived over VSOCK:7000, absent when accepting failed; \<open>entropy\<close> the 32 bytes of the
  security module, absent when it failed.
\<close>

definition init_env :: "string option list option \<Rightarrow> bytes option \<Rightarrow> env_vars \<Rightarrow> env_vars" where
  "init_env pushed entropy vars0 =
     (let vars1 = (case pushed of None \<Rightarrow> vars0 | Some ls \<Rightarrow> inject (read_config ls) vars0);
          vars2 = vars1(''SSL_CERT_FILE'' \<mapsto> ''/etc/ssl/certs/ca-certificates.crt'',
                        ''PATH'' \<mapsto> ''/bin:/sbin:/usr/bin:/usr/sbin:/'');
          vars3 = set_default ''PINAIVU_BIND'' ''127.0.0.1:4000'' vars2;
          vars4 = set_default ''PINAIVU_LIBP2P_LISTEN'' ''/ip4/0.0.0.0/tcp/4001'' vars3;
          vars5 = set_default ''DATABASE_URL'' ''postgresql://coordinator@127.0.0.1:5432/coordinator'' vars4;
          vars6 = set_default ''REDIS_URL'' ''redis://127.0.0.1:6379'' vars5;
          vars7 = set_default ''SIDECAR_URL'' ''http://127.0.0.1:8200'' vars6
      in set_default ''SIDECAR_SECRET'' (hex_lower (case entropy of None \<Rightarrow> [] | Some b \<Rightarrow> b)) vars7)"

definition host_line :: "string \<Rightarrow> string" where
  "host_line h = ''127.0.0.1 '' @ h @ [CHR 0x0A]"

definition bridge_host :: "env_vars \<Rightarrow> string \<Rightarrow> string" where
  "bridge_host vars var =
     (case vars var of
        None \<Rightarrow> []
      | Some h \<Rightarrow> (let h' = str_trim h in if h' = [] then [] else host_line h'))"

definition strip_scheme :: "string \<Rightarrow> string option" where
  "strip_scheme url =
     (if take 8 url = ''https://'' then Some (drop 8 url)
      else if take 7 url = ''http://'' then Some (drop 7 url)
      else None)"

definition rpc_host :: "env_vars \<Rightarrow> string" where
  "rpc_host vars =
     (case vars ''SUI_RPC_URL'' of
        None \<Rightarrow> []
      | Some url \<Rightarrow>
          (case strip_scheme url of
             None \<Rightarrow> []
           | Some rest \<Rightarrow>
               (let host = takeWhile (\<lambda>c. c \<noteq> CHR '':'') (takeWhile (\<lambda>c. c \<noteq> CHR ''/'') rest)
                in if host = [] then [] else host_line host)))"

definition etc_hosts :: "env_vars \<Rightarrow> string" where
  "etc_hosts vars =
     host_line ''localhost'' @ bridge_host vars ''POSTGRES_BRIDGE_HOST'' @ bridge_host vars ''REDIS_BRIDGE_HOST'' @
     rpc_host vars"

section \<open>The coordinator's configuration\<close>

record config =
  cf_bind_addr :: string
  cf_libp2p_listen :: string
  cf_database_url :: string
  cf_redis_url :: string
  cf_tls_cert_pem :: "string option"
  cf_tls_key_pem :: "string option"

definition config_from_env :: "env_vars \<Rightarrow> string + config" where
  "config_from_env vars =
     (let bind_addr = (case vars ''PINAIVU_BIND'' of None \<Rightarrow> ''127.0.0.1:4000'' | Some v \<Rightarrow> v);
          libp2p_listen = (case vars ''PINAIVU_LIBP2P_LISTEN'' of None \<Rightarrow> ''/ip4/0.0.0.0/tcp/0'' | Some v \<Rightarrow> v)
      in case vars ''DATABASE_URL'' of
           None \<Rightarrow> Inl ''DATABASE_URL not set (required for receipts + jobs storage)''
         | Some database_url \<Rightarrow>
             (case vars ''REDIS_URL'' of
                None \<Rightarrow> Inl ''REDIS_URL not set (required for replay-nonce caching)''
              | Some redis_url \<Rightarrow>
                  Inr \<lparr>cf_bind_addr = bind_addr, cf_libp2p_listen = libp2p_listen,
                       cf_database_url = database_url, cf_redis_url = redis_url,
                       cf_tls_cert_pem = vars ''PINAIVU_TLS_CERT'', cf_tls_key_pem = vars ''PINAIVU_TLS_KEY''\<rparr>))"

definition has_tls_certs :: "config \<Rightarrow> bool" where
  "has_tls_certs c \<longleftrightarrow> cf_tls_cert_pem c \<noteq> None \<and> cf_tls_key_pem c \<noteq> None"

section \<open>Connecting\<close>

text \<open>The attempts from number \<open>attempt\<close> on; the error kept is the last attempt's.\<close>

fun connect_from :: "(nat \<Rightarrow> 'e + 'p) \<Rightarrow> ('p \<Rightarrow> 'e + 'q) \<Rightarrow> nat \<Rightarrow> nat \<Rightarrow> 'e \<Rightarrow> 'e + 'q" where
  "connect_from conn setup attempt 0 last_err = Inl last_err"
| "connect_from conn setup attempt (Suc left) last_err =
     (case conn attempt of
        Inr p \<Rightarrow> setup p
      | Inl e \<Rightarrow> connect_from conn setup (Suc attempt) left e)"

definition pg_connect :: "(nat \<Rightarrow> string + 'p) \<Rightarrow> ('p \<Rightarrow> string + unit) \<Rightarrow> string + 'p" where
  "pg_connect conn run_migrations =
     connect_from conn (\<lambda>pool. case run_migrations pool of Inl e \<Rightarrow> Inl e | Inr _ \<Rightarrow> Inr pool)
       1 10 ''postgres connect: no attempts made''"

definition redis_connect :: "string + unit \<Rightarrow> (nat \<Rightarrow> string + 'm) \<Rightarrow> ('m \<Rightarrow> string + string) \<Rightarrow> string + 'm" where
  "redis_connect opened conn ping =
     (case opened of
        Inl e \<Rightarrow> Inl ''redis::Client::open''
      | Inr _ \<Rightarrow>
          connect_from conn
            (\<lambda>m. case ping m of
                   Inl e \<Rightarrow> Inl ''redis PING''
                 | Inr pong \<Rightarrow> if pong = ''PONG'' then Inr m else Inl (''unexpected PING reply: '' @ pong))
            1 10 ''redis connect: no attempts made'')"

section \<open>Replay nonces\<close>

text \<open>
  The keys present, each with its remaining time to live if it has one. \<^verbatim>\<open>EXPIRE\<close> with a time that
  is not positive deletes the key. The outcomes of the two commands are the connection errors, if any.
\<close>

type_synonym nonce_store = "string \<rightharpoonup> int option"

definition check_and_set_nonce ::
  "(uuid \<Rightarrow> string) \<Rightarrow> string option \<Rightarrow> string option \<Rightarrow> uuid \<Rightarrow> u64 \<Rightarrow> nonce_store \<Rightarrow> (string + bool) \<times> nonce_store" where
  "check_and_set_nonce uuid_str setnx_err expire_err request_id ttl_secs store =
     (let key = ''nonce:'' @ uuid_str request_id
      in case setnx_err of
           Some e \<Rightarrow> (Inl e, store)
         | None \<Rightarrow>
             if store key \<noteq> None then (Inr False, store)
             else case expire_err of
                    Some e \<Rightarrow> (Inl e, store(key \<mapsto> None))
                  | None \<Rightarrow>
                      (Inr True,
                       if sint ttl_secs \<le> 0 then store(key := None) else store(key \<mapsto> Some (sint ttl_secs))))"

section \<open>Properties\<close>

lemma connect_from_fails:
  "\<forall>i. attempt \<le> i \<and> i < attempt + left \<longrightarrow> (\<exists>e. conn i = Inl e) \<Longrightarrow>
   connect_from conn setup attempt left e0 =
     (if left = 0 then Inl e0 else Inl (projl (conn (attempt + left - 1))))"
proof (induction left arbitrary: attempt e0)
  case (Suc left)
  obtain e where e: "conn attempt = Inl e" using Suc.prems by force
  have "connect_from conn setup (Suc attempt) left e =
      (if left = 0 then Inl e else Inl (projl (conn (Suc attempt + left - 1))))"
    using Suc.prems by (intro Suc.IH) auto
  with e show ?case by (cases left) auto
qed simp

lemma connect_from_first:
  "i < left \<Longrightarrow> conn (attempt + i) = Inr p \<Longrightarrow> \<forall>j<i. \<exists>e. conn (attempt + j) = Inl e \<Longrightarrow>
   connect_from conn setup attempt left e0 = setup p"
proof (induction left arbitrary: attempt i e0)
  case (Suc left)
  show ?case
  proof (cases i)
    case 0
    with Suc.prems show ?thesis by simp
  next
    case (Suc k)
    then obtain e where "conn attempt = Inl e" using Suc.prems(3) by force
    moreover have "connect_from conn setup (Suc attempt) left e = setup p"
      using Suc.prems Suc by (intro Suc.IH [of k]) auto
    ultimately show ?thesis by simp
  qed
qed simp

text \<open>
  Connecting to Postgres tries at most ten times: the first attempt that succeeds is the connection
  used, and its migrations decide the result without a further attempt; when all ten fail the error
  returned is the tenth's.
\<close>

theorem pg_connect_spec:
  "(\<forall>i. 1 \<le> i \<and> i \<le> 10 \<and> conn i = Inr p \<and> (\<forall>j. 1 \<le> j \<and> j < i \<longrightarrow> (\<exists>e. conn j = Inl e)) \<longrightarrow>
      pg_connect conn mig = (case mig p of Inl e \<Rightarrow> Inl e | Inr _ \<Rightarrow> Inr p)) \<and>
   ((\<forall>i. 1 \<le> i \<and> i \<le> 10 \<longrightarrow> (\<exists>e. conn i = Inl e)) \<longrightarrow> pg_connect conn mig = Inl (projl (conn 10)))"
proof (intro conjI allI impI)
  fix i
  assume a: "1 \<le> i \<and> i \<le> 10 \<and> conn i = Inr p \<and> (\<forall>j. 1 \<le> j \<and> j < i \<longrightarrow> (\<exists>e. conn j = Inl e))"
  then show "pg_connect conn mig = (case mig p of Inl e \<Rightarrow> Inl e | Inr _ \<Rightarrow> Inr p)"
    unfolding pg_connect_def by (subst connect_from_first [of "i - 1" 10 conn 1 p]) auto
next
  assume "\<forall>i. 1 \<le> i \<and> i \<le> 10 \<longrightarrow> (\<exists>e. conn i = Inl e)"
  then show "pg_connect conn mig = Inl (projl (conn 10))"
    unfolding pg_connect_def by (subst connect_from_fails) auto
qed

text \<open>
  A nonce is accepted once: with a positive time to live and both commands executed, the first check of
  a request id succeeds and records it, and until it expires every further check of the same id
  reports a replay and changes nothing, while the checks of other ids are not affected.
\<close>

theorem nonce_accepted_once:
  assumes "0 < sint ttl" and "store (''nonce:'' @ uuid_str rid) = None"
    and "check_and_set_nonce uuid_str None None rid ttl store = (r, store')"
  shows "r = Inr True \<and>
    check_and_set_nonce uuid_str None None rid ttl' store' = (Inr False, store') \<and>
    (\<forall>k. k \<noteq> ''nonce:'' @ uuid_str rid \<longrightarrow> store' k = store k)"
  using assms by (auto simp: check_and_set_nonce_def)

lemma nonce_accepted_once_witness:
  "check_and_set_nonce (\<lambda>_. ''id'') None None (Uuid []) 60
     (snd (check_and_set_nonce (\<lambda>_. ''id'') None None (Uuid []) 60 Map.empty)) =
   (Inr False, snd (check_and_set_nonce (\<lambda>_. ''id'') None None (Uuid []) 60 Map.empty))"
  using nonce_accepted_once [of 60 Map.empty "\<lambda>_. ''id''" "Uuid []", OF _ _ surjective_pairing] by simp

section \<open>What the parent pushes reaches the coordinator\<close>

text \<open>The printable ASCII characters other than the space; none of them begins or ends a whitespace character.\<close>

definition graphic :: "char \<Rightarrow> bool" where
  "graphic c \<longleftrightarrow> 33 \<le> (of_char c :: nat) \<and> (of_char c :: nat) \<le> 126"

lemma whitespace_not_graphic:
  "list_all (\<lambda>p. \<not> graphic (hd p)) whitespace" "list_all (\<lambda>p. \<not> graphic (hd p)) (map rev whitespace)"
  by code_simp+

lemma match_prefix_graphic:
  assumes "list_all (\<lambda>p. \<not> graphic (hd p)) ps" "s = [] \<or> graphic (hd s)"
  shows "match_prefix ps s = None"
proof -
  have "take (length p) s \<noteq> p" if "p \<in> set ps" "p \<noteq> []" for p
  proof
    assume "take (length p) s = p"
    moreover from this that(2) have "s \<noteq> []" by auto
    ultimately have "hd s = hd p" by (metis hd_take length_greater_0_conv that(2))
    then show False using assms that(1) \<open>s \<noteq> []\<close> by (auto simp: list_all_iff)
  qed
  then show ?thesis by (auto simp: match_prefix_def find_None_iff)
qed

lemma str_trim_fixed: "s = [] \<or> graphic (hd s) \<and> graphic (last s) \<Longrightarrow> str_trim s = s"
  using match_prefix_graphic [OF whitespace_not_graphic(1), of s] match_prefix_graphic [OF whitespace_not_graphic(2), of "rev s"]
  by (auto simp: str_trim_def str_trim_start_def str_trim_end_def strip_prefixes_fixed hd_rev)

text \<open>
  An environment file as the deploy host writes it: a name of graphic characters without \<^verbatim>\<open>=\<close> that is no
  comment, and a quoted value that does not itself begin or end with a quote.
\<close>

definition config_pair :: "string \<times> string \<Rightarrow> bool" where
  "config_pair kv \<longleftrightarrow> fst kv \<noteq> [] \<and> list_all graphic (fst kv) \<and> CHR ''='' \<notin> set (fst kv) \<and> hd (fst kv) \<noteq> CHR ''#'' \<and>
     (snd kv = [] \<or> hd (snd kv) \<noteq> CHR 0x22 \<and> last (snd kv) \<noteq> CHR 0x22)"

definition print_pair :: "string \<times> string \<Rightarrow> string" where
  "print_pair kv = fst kv @ [CHR ''='', CHR 0x22] @ snd kv @ [CHR 0x22]"

lemma str_trim_matches_quoted:
  assumes "v = [] \<or> hd v \<noteq> c \<and> last v \<noteq> c"
  shows "str_trim_matches c ([c] @ v @ [c]) = v"
proof (cases "v = []")
  case False
  then have "dropWhile (\<lambda>x. x = c) (v @ [c]) = v @ [c]" using assms by (cases v) auto
  moreover have "dropWhile (\<lambda>x. x = c) (rev v) = rev v"
    using False assms by (cases v rule: rev_cases) auto
  ultimately show ?thesis by (simp add: str_trim_matches_def)
qed (simp add: str_trim_matches_def)

lemma split_once_first: "c \<notin> set k \<Longrightarrow> split_once c (k @ c # v) = Some (k, v)"
  by (induction k) (auto simp: split_once_def)

lemma config_line_print: "config_pair kv \<Longrightarrow> config_line (print_pair kv) = Some kv"
proof -
  assume kv: "config_pair kv"
  obtain k v where [simp]: "kv = (k, v)" by (cases kv)
  have q: "graphic CHR 0x22" by code_simp
  have k: "k \<noteq> []" "graphic (hd k)" "graphic (last k)"
    using kv by (auto simp: config_pair_def list_all_iff)
  have "str_trim (print_pair kv) = print_pair kv"
    using k q by (intro str_trim_fixed) (auto simp: print_pair_def)
  moreover have "str_trim k = k" using k by (intro str_trim_fixed) simp
  moreover have "str_trim ([CHR 0x22] @ v @ [CHR 0x22]) = [CHR 0x22] @ v @ [CHR 0x22]"
    using q by (intro str_trim_fixed) simp
  moreover have "hd (print_pair kv) \<noteq> CHR ''#''" "print_pair kv \<noteq> []"
    using kv k by (auto simp: print_pair_def config_pair_def)
  moreover have "split_once CHR ''='' (print_pair kv) = Some (k, [CHR 0x22] @ v @ [CHR 0x22])"
    using kv split_once_first [of "CHR ''=''" k "[CHR 0x22] @ v @ [CHR 0x22]"]
    by (simp add: print_pair_def config_pair_def)
  moreover have "str_trim_matches CHR 0x22 ([CHR 0x22] @ v @ [CHR 0x22]) = v"
    using kv by (intro str_trim_matches_quoted) (simp add: config_pair_def)
  ultimately show ?thesis using k(1) by (simp add: config_line_def)
qed

text \<open>The file: one pair to a line.\<close>

definition print_config :: "(string \<times> string) list \<Rightarrow> string" where
  "print_config kvs = concat (map (\<lambda>kv. print_pair kv @ [CHR 0x0A]) kvs)"

lemma lines_from_line:
  "CHR 0x0A \<notin> set l \<Longrightarrow> l \<noteq> [] \<Longrightarrow> last l \<noteq> CHR 0x0D \<Longrightarrow> lines_from acc (l @ CHR 0x0A # s) = (acc @ l) # lines_from [] s"
proof (induction l arbitrary: acc)
  case (Cons c l)
  then show ?case by (cases "l = []") auto
qed simp

lemma graphic_not_control: "list_all graphic s \<Longrightarrow> CHR 0x0A \<notin> set s \<and> CHR 0x00 \<notin> set s"
proof -
  have "\<not> graphic CHR 0x0A" "\<not> graphic CHR 0x00" by code_simp+
  then show "list_all graphic s \<Longrightarrow> CHR 0x0A \<notin> set s \<and> CHR 0x00 \<notin> set s" by (auto simp: list_all_iff)
qed

lemma buf_lines_print:
  assumes "list_all config_pair kvs" "list_all (\<lambda>kv. CHR 0x0A \<notin> set (snd kv)) kvs"
  shows "buf_lines (print_config kvs) = map print_pair kvs"
  using assms
proof (induction kvs)
  case (Cons kv kvs)
  have "CHR 0x0A \<notin> set (print_pair kv)"
    using Cons.prems graphic_not_control [of "fst kv"] by (simp add: print_pair_def config_pair_def)
  moreover have "print_pair kv \<noteq> []" "last (print_pair kv) \<noteq> CHR 0x0D" by (simp_all add: print_pair_def)
  ultimately have "buf_lines (print_config (kv # kvs)) = print_pair kv # buf_lines (print_config kvs)"
    using lines_from_line [of "print_pair kv" "[]"] by (simp add: buf_lines_def print_config_def)
  then show ?case using Cons by simp
qed (simp add: buf_lines_def print_config_def)

lemma config_pair_no_panic: "config_pair kv \<Longrightarrow> CHR 0x00 \<notin> set (snd kv) \<Longrightarrow> \<not> set_var_panics kv"
  using graphic_not_control [of "fst kv"] by (simp add: config_pair_def set_var_panics_def)

lemma read_config_print:
  "list_all config_pair kvs \<Longrightarrow> read_config (map (\<lambda>kv. Some (print_pair kv)) kvs) = kvs"
  by (induction kvs) (simp_all add: config_line_print)

lemma inject_map_of: "inject kvs vars k = (case map_of (rev kvs) k of None \<Rightarrow> vars k | Some v \<Rightarrow> Some v)"
proof (induction kvs arbitrary: vars)
  case (Cons kv kvs)
  have "inject (kv # kvs) vars = inject kvs (vars(fst kv \<mapsto> snd kv))" by (cases kv) (simp add: inject_def)
  with Cons show ?case by (auto simp: map_add_Some_iff split: option.split)
qed (simp add: inject_def)

lemma set_default_keeps: "vars k = Some v \<Longrightarrow> set_default k' v' vars k = Some v"
  by (auto simp: set_default_def)

lemma set_default_dom: "set_default k' v' vars k \<noteq> None \<longleftrightarrow> k = k' \<or> vars k \<noteq> None"
  by (auto simp: set_default_def)

lemma init_env_pushed:
  assumes "k \<notin> {''SSL_CERT_FILE'', ''PATH''}" "inject (read_config ls) vars0 k = Some v"
  shows "init_env (Some ls) entropy vars0 k = Some v"
  unfolding init_env_def Let_def using assms by (intro set_default_keeps) simp

lemma init_env_urls:
  "init_env pushed entropy vars0 ''DATABASE_URL'' \<noteq> None" "init_env pushed entropy vars0 ''REDIS_URL'' \<noteq> None"
  unfolding init_env_def Let_def by (simp_all only: set_default_dom simp_thms)

lemma config_from_init_env: "\<exists>c. config_from_env (init_env pushed entropy vars0) = Inr c"
  using init_env_urls [of pushed entropy vars0] by (auto simp: config_from_env_def Let_def)

text \<open>
  C25: The configuration survives its way into the coordinator. The pairs the deploy host writes as quoted
  lines are read back exactly, in order; the coordinator's environment holds for each name the last
  value pushed, except for the two fixed paths; and the coordinator's own configuration is always
  complete, with the pushed database URL if there was one. The reader cuts the file into these lines if no
  value contains a line feed, and injecting the pairs does not panic if none contains a NUL.
\<close>

theorem pushed_config_reaches_coordinator:
  assumes "list_all config_pair kvs" and "ls = map (\<lambda>kv. Some (print_pair kv)) kvs"
    and "vars = init_env (Some ls) entropy vars0"
  shows "read_config ls = kvs \<and>
    (\<forall>k v. k \<notin> {''SSL_CERT_FILE'', ''PATH''} \<and> map_of (rev kvs) k = Some v \<longrightarrow> vars k = Some v) \<and>
    (\<exists>c. config_from_env vars = Inr c \<and>
       (\<forall>v. map_of (rev kvs) ''DATABASE_URL'' = Some v \<longrightarrow> cf_database_url c = v)) \<and>
    (list_all (\<lambda>kv. CHR 0x0A \<notin> set (snd kv)) kvs \<longrightarrow> map Some (buf_lines (print_config kvs)) = ls) \<and>
    (list_all (\<lambda>kv. CHR 0x00 \<notin> set (snd kv)) kvs \<longrightarrow> \<not> inject_panics (Some ls))"
proof -
  have r: "read_config ls = kvs" using read_config_print [OF assms(1)] by (simp add: assms(2))
  have vars: "vars k = Some v" if "k \<notin> {''SSL_CERT_FILE'', ''PATH''}" "map_of (rev kvs) k = Some v" for k v
    using that inject_map_of [of kvs vars0 k] unfolding assms(3) by (intro init_env_pushed) (simp_all add: r)
  obtain c where c: "config_from_env vars = Inr c"
    using config_from_init_env [of "Some ls" entropy vars0] assms(3) by auto
  have "cf_database_url c = v" if "map_of (rev kvs) ''DATABASE_URL'' = Some v" for v
    using vars [OF _ that] c by (auto simp: config_from_env_def Let_def split: option.splits)
  moreover have "list_all (\<lambda>kv. CHR 0x0A \<notin> set (snd kv)) kvs \<longrightarrow> map Some (buf_lines (print_config kvs)) = ls"
    using buf_lines_print [OF assms(1)] by (simp add: assms(2))
  moreover have "list_all (\<lambda>kv. CHR 0x00 \<notin> set (snd kv)) kvs \<longrightarrow> \<not> inject_panics (Some ls)"
    using assms(1) config_pair_no_panic by (auto simp: inject_panics_def r list_ex_iff list_all_iff)
  ultimately show ?thesis using r vars c by blast
qed

lemma pushed_config_reaches_coordinator_witness:
  "\<exists>c. config_from_env (init_env (Some [Some (print_pair (''DATABASE_URL'', ''postgres://db''))]) None Map.empty) = Inr c \<and>
     cf_database_url c = ''postgres://db''"
proof -
  have "config_pair (''DATABASE_URL'', ''postgres://db'')" by code_simp
  then show ?thesis
    using pushed_config_reaches_coordinator [of "[(''DATABASE_URL'', ''postgres://db'')]", OF _ refl refl, of None Map.empty]
    by auto
qed

end
