(* ===== verification/System_Calls.thy ===== *)
theory System_Calls
  imports Coord_Prelude
begin

text \<open>
  The wrappers of system calls used at boot (\<^verbatim>\<open>src/system/src/lib.rs\<close>, \<^verbatim>\<open>src/aws/src/lib.rs\<close>, and
  \<^verbatim>\<open>vsock_connect\<close> of \<^verbatim>\<open>src/init/src/main.rs\<close>). The results of the calls are arguments, as the
  C integers they return; each socket wrapper also yields the descriptors it opened and closed.
\<close>

section \<open>Messages\<close>

text \<open>
  The time since boot as the kernel log shows it: the seconds right-aligned in four columns, then the
  microseconds, which are not padded with zeros.
\<close>

definition boot_time :: "nat \<Rightarrow> nat \<Rightarrow> string" where
  "boot_time tv_sec tv_nsec =
     ''[ '' @ replicate (4 - length (dec tv_sec)) (CHR '' '') @ dec tv_sec @ ''.'' @ dec (tv_nsec div 1000) @ '']''"

definition system_error_fmt :: "nat \<Rightarrow> nat \<Rightarrow> string \<Rightarrow> string" where
  "system_error_fmt tv_sec tv_nsec message = boot_time tv_sec tv_nsec @ '' '' @ message"

definition dmesg :: "nat \<Rightarrow> nat \<Rightarrow> string \<Rightarrow> string" where
  "dmesg tv_sec tv_nsec message = boot_time tv_sec tv_nsec @ '' '' @ message @ [CHR 0x0A]"

text \<open>An instant seven microseconds after second five is printed like one 0.7 seconds after it would be read.\<close>

lemma boot_time_unpadded: "boot_time 5 7000 = ''[    5.7]'' \<and> boot_time 5 70000 = ''[    5.70]''"
  by (simp add: boot_time_def dec.simps) code_simp

section \<open>Simple wrappers\<close>

definition mount :: "int \<Rightarrow> string \<Rightarrow> string + unit" where
  "mount ret target = (if ret \<noteq> 0 then Inl (''mount '' @ target @ '' failed'') else Inr ())"

definition freopen :: "bool \<Rightarrow> string \<Rightarrow> string + unit" where
  "freopen is_null filename = (if is_null then Inl (''freopen '' @ filename @ '' failed'') else Inr ())"

text \<open>\<open>opened\<close> is the error of opening the module file, if any; \<open>ret\<close> the result of \<^verbatim>\<open>finit_module\<close>.\<close>

definition insmod :: "string option \<Rightarrow> int \<Rightarrow> string \<Rightarrow> string + unit" where
  "insmod opened ret path =
     (case opened of
        Some e \<Rightarrow> Inl (''open '' @ path @ '': '' @ e)
      | None \<Rightarrow> if ret < 0 then Inl (''insmod '' @ path @ '' failed'') else Inr ())"

section \<open>Sockets\<close>

datatype fd_event = FdOpen int | FdClose int

text \<open>The descriptors still open after a sequence of events, oldest first.\<close>

fun open_fds :: "int list \<Rightarrow> fd_event list \<Rightarrow> int list" where
  "open_fds fds [] = fds"
| "open_fds fds (FdOpen fd # evs) = open_fds (fds @ [fd]) evs"
| "open_fds fds (FdClose fd # evs) = open_fds (remove1 fd fds) evs"

definition socket_connect :: "int \<Rightarrow> int \<Rightarrow> nat \<Rightarrow> nat \<Rightarrow> fd_event list \<times> (string + int)" where
  "socket_connect fd ret port cid =
     (let evs = (if fd < 0 then [] else [FdOpen fd])
      in if ret < 0 then (evs, Inl (''connect port '' @ dec port @ '' cid '' @ dec cid @ '' failed''))
         else (evs, Inr fd))"

record accept_env =
  ac_socket :: int
  ac_bind :: int
  ac_listen :: int
  ac_accept :: int

definition vsock_accept :: "accept_env \<Rightarrow> nat \<Rightarrow> fd_event list \<times> (string + int)" where
  "vsock_accept e port =
     (let listener = ac_socket e
      in if listener < 0 then ([], Inl (''vsock socket port '' @ dec port @ '' failed''))
         else if ac_bind e < 0 then ([FdOpen listener], Inl (''vsock bind port '' @ dec port @ '' failed''))
         else if ac_listen e < 0 then ([FdOpen listener], Inl (''vsock listen port '' @ dec port @ '' failed''))
         else if ac_accept e < 0
         then ([FdOpen listener, FdClose listener], Inl (''vsock accept port '' @ dec port @ '' failed''))
         else ([FdOpen listener, FdOpen (ac_accept e), FdClose listener], Inr (ac_accept e)))"

definition vsock_connect :: "int \<Rightarrow> int \<Rightarrow> nat \<Rightarrow> nat \<Rightarrow> fd_event list \<times> (string + int)" where
  "vsock_connect fd ret cid port =
     (if fd < 0 then ([], Inl ''vsock socket() failed'')
      else if ret < 0
      then ([FdOpen fd, FdClose fd], Inl (''vsock connect('' @ dec cid @ '', '' @ dec port @ '') failed''))
      else ([FdOpen fd], Inr fd))"

section \<open>Entropy\<close>

text \<open>
  The loop of \<^verbatim>\<open>get_entropy\<close> with the security module: the answer to call \<open>i\<close> is the slice of the
  256-byte buffer the driver filled, \<open>None\<close> when it reports an error. Nothing in the code bounds the
  number of calls.
\<close>

partial_function (option) nsm_loop :: "(nat \<Rightarrow> bytes option) \<Rightarrow> nat \<Rightarrow> nat \<Rightarrow> bytes \<Rightarrow> (string + bytes) option" where
  "nsm_loop random wanted i out =
     (if length out < wanted
      then (case random i of
              None \<Rightarrow> Some (Inl ''NSM get_random failed'')
            | Some buf \<Rightarrow> nsm_loop random wanted (Suc i) (out @ buf))
      else Some (Inr out))"

declare nsm_loop.simps [code]

definition get_entropy_nsm :: "int \<Rightarrow> (nat \<Rightarrow> bytes option) \<Rightarrow> nat \<Rightarrow> (string + bytes) option" where
  "get_entropy_nsm nsm_fd random wanted =
     (if nsm_fd < 0 then Some (Inl ''NSM init failed'') else nsm_loop random wanted 0 [])"

text \<open>Without the module: \<^verbatim>\<open>read_exact\<close> on \<^verbatim>\<open>/dev/urandom\<close> fills the buffer or fails.\<close>

definition get_entropy_urandom :: "(nat \<Rightarrow> string + bytes) \<Rightarrow> nat \<Rightarrow> string + bytes" where
  "get_entropy_urandom read_exact wanted =
     (case read_exact wanted of Inl e \<Rightarrow> Inl (''read /dev/urandom: '' @ e) | Inr buf \<Rightarrow> Inr buf)"

definition seed_entropy :: "string option \<Rightarrow> string option \<Rightarrow> (nat \<Rightarrow> string + bytes) \<Rightarrow> nat \<Rightarrow> string + nat" where
  "seed_entropy open_err write_err source wanted =
     (case source wanted of
        Inl e \<Rightarrow> Inl e
      | Inr entropy \<Rightarrow>
          (case open_err of
             Some e \<Rightarrow> Inl (''open /dev/urandom: '' @ e)
           | None \<Rightarrow>
               (case write_err of
                  Some e \<Rightarrow> Inl (''write entropy: '' @ e)
                | None \<Rightarrow> Inr (length entropy))))"

text \<open>
  \<^verbatim>\<open>init_platform\<close>: the heartbeat on VSOCK:9000 when the socket connects, then the module. Its
  result is the descriptor events and the lines it reports; it cannot fail.
\<close>

definition init_platform :: "int \<Rightarrow> int \<Rightarrow> string option \<Rightarrow> int \<Rightarrow> fd_event list \<times> string list" where
  "init_platform fd ret opened insmod_ret =
     (let (evs, conn) = socket_connect fd ret 9000 3;
          (evs', beat) = (case conn of Inr s \<Rightarrow> ([FdClose s], [''NSM heartbeat sent'']) | Inl _ \<Rightarrow> ([], []));
          loaded = (case insmod opened insmod_ret ''/nsm.ko'' of
                      Inr _ \<Rightarrow> ''nsm.ko loaded''
                    | Inl e \<Rightarrow> ''insmod nsm.ko: '' @ e)
      in (evs @ evs', beat @ [loaded]))"

section \<open>Descriptors\<close>

text \<open>
  What a socket wrapper should leave open: the descriptor it returns and no other.
\<close>

definition no_leak :: "fd_event list \<times> (string + int) \<Rightarrow> bool" where
  "no_leak r \<longleftrightarrow> open_fds [] (fst r) = (case snd r of Inl _ \<Rightarrow> [] | Inr fd \<Rightarrow> [fd])"

lemma vsock_connect_no_leak: "no_leak (vsock_connect fd ret cid port)"
  by (simp add: no_leak_def vsock_connect_def)

text \<open>
  Accepting the configuration connection leaves exactly the client descriptor open when it succeeds
  and nothing open when creating the socket or accepting fails; but a failing \<^verbatim>\<open>bind\<close> or
  \<^verbatim>\<open>listen\<close> leaves the listening socket open, and so does a failing \<^verbatim>\<open>connect\<close> of the
  heartbeat with its socket, unlike \<^verbatim>\<open>vsock_connect\<close>, which closes it.
\<close>

theorem socket_wrappers_leak:
  assumes "ac_accept e \<noteq> ac_socket e" and "0 \<le> fd"
  shows "(no_leak (vsock_accept e port) \<longleftrightarrow> ac_socket e < 0 \<or> 0 \<le> ac_bind e \<and> 0 \<le> ac_listen e) \<and>
         (no_leak (socket_connect fd ret port' cid) \<longleftrightarrow> 0 \<le> ret) \<and>
         no_leak (vsock_connect fd ret cid port')"
  using assms vsock_connect_no_leak
  by (auto simp: no_leak_def vsock_accept_def socket_connect_def Let_def)

lemma socket_wrappers_leak_witness:
  "\<not> no_leak (vsock_accept \<lparr>ac_socket = 3, ac_bind = -1, ac_listen = 0, ac_accept = 4\<rparr> 7000) \<and>
   no_leak (vsock_accept \<lparr>ac_socket = 3, ac_bind = 0, ac_listen = 0, ac_accept = 4\<rparr> 7000)"
  using socket_wrappers_leak [of "\<lparr>ac_socket = 3, ac_bind = -1, ac_listen = 0, ac_accept = 4\<rparr>" 3 7000 0 9000 3]
    socket_wrappers_leak [of "\<lparr>ac_socket = 3, ac_bind = 0, ac_listen = 0, ac_accept = 4\<rparr>" 3 7000 0 9000 3]
  by simp

section \<open>Termination of the entropy loop\<close>

text \<open>What the driver documents: a successful call yields between one and 256 bytes.\<close>

definition fills_buffer :: "(nat \<Rightarrow> bytes option) \<Rightarrow> bool" where
  "fills_buffer random \<longleftrightarrow> (\<forall>i buf. random i = Some buf \<longrightarrow> 0 < length buf \<and> length buf \<le> 256)"

text \<open>The answers of the calls from number \<open>i\<close> to before number \<open>j\<close>.\<close>

definition answers :: "(nat \<Rightarrow> bytes option) \<Rightarrow> nat \<Rightarrow> nat \<Rightarrow> bytes" where
  "answers random i j = concat (map (\<lambda>k. the (random k)) [i..<j])"

lemma answers_step: "i < j \<Longrightarrow> answers random i j = the (random i) @ answers random (Suc i) j"
  by (simp add: answers_def upt_conv_Cons del: upt_Suc)

lemma nsm_loop_total:
  assumes "fills_buffer random" "length out < wanted + 256"
  shows "(\<exists>j\<ge>i. (\<forall>k. i \<le> k \<and> k < j \<longrightarrow> random k \<noteq> None) \<and> random j = None \<and>
            nsm_loop random wanted i out = Some (Inl ''NSM get_random failed'')) \<or>
         (\<exists>j\<ge>i. (\<forall>k. i \<le> k \<and> k < j \<longrightarrow> random k \<noteq> None) \<and>
            nsm_loop random wanted i out = Some (Inr (out @ answers random i j)) \<and>
            wanted \<le> length (out @ answers random i j) \<and> length (out @ answers random i j) < wanted + 256)"
  using assms
proof (induction "wanted - length out" arbitrary: i out rule: less_induct)
  case less
  show ?case
  proof (cases "length out < wanted")
    case False
    with less.prems have "nsm_loop random wanted i out = Some (Inr (out @ answers random i i))"
      by (subst nsm_loop.simps) (simp add: answers_def)
    with False less.prems show ?thesis by (intro disjI2 exI [of _ i]) (auto simp: answers_def)
  next
    case True
    show ?thesis
    proof (cases "random i")
      case None
      with True show ?thesis by (intro disjI1 exI [of _ i]) (auto simp: nsm_loop.simps)
    next
      case (Some buf)
      have len: "0 < length buf" "length buf \<le> 256" using less.prems(1) Some by (auto simp: fills_buffer_def)
      have step: "nsm_loop random wanted i out = nsm_loop random wanted (Suc i) (out @ buf)"
        using True Some by (subst nsm_loop.simps) simp
      have dec: "wanted - length (out @ buf) < wanted - length out" "length (out @ buf) < wanted + 256"
        using True len by (simp_all add: diff_less_mono2)
      have ok: "(\<forall>k. i \<le> k \<and> k < j \<longrightarrow> random k \<noteq> None)"
        if "\<forall>k. Suc i \<le> k \<and> k < j \<longrightarrow> random k \<noteq> None" for j
        using that Some by (metis Suc_leI le_neq_implies_less option.distinct(1))
      from less.hyps [OF dec(1) less.prems(1) dec(2), of "Suc i"] show ?thesis
      proof (elim disjE exE conjE)
        fix j
        assume j: "Suc i \<le> j" "\<forall>k. Suc i \<le> k \<and> k < j \<longrightarrow> random k \<noteq> None" "random j = None"
          "nsm_loop random wanted (Suc i) (out @ buf) = Some (Inl ''NSM get_random failed'')"
        with ok step show ?thesis by (intro disjI1 exI [of _ j]) simp
      next
        fix j
        assume j: "Suc i \<le> j" "\<forall>k. Suc i \<le> k \<and> k < j \<longrightarrow> random k \<noteq> None"
          "nsm_loop random wanted (Suc i) (out @ buf) = Some (Inr ((out @ buf) @ answers random (Suc i) j))"
          "wanted \<le> length ((out @ buf) @ answers random (Suc i) j)"
          "length ((out @ buf) @ answers random (Suc i) j) < wanted + 256"
        moreover have "answers random i j = buf @ answers random (Suc i) j"
          using answers_step [of i j random] j(1) Some by simp
        ultimately show ?thesis using ok step by (intro disjI2 exI [of _ j]) simp
      qed
    qed
  qed
qed

text \<open>
  C28: Reading entropy from the security module terminates as long as every successful driver call
  yields at least one byte of the 256-byte buffer. It fails only if a driver call fails, and otherwise
  returns the bytes of the calls in order, at least as many as asked for but up to 255 more: the result
  is not cut to the requested size.
\<close>

theorem get_entropy_terminates:
  assumes "fills_buffer random" and "0 \<le> nsm_fd"
  shows "\<exists>r. get_entropy_nsm nsm_fd random wanted = Some r \<and>
    (case r of
       Inl e \<Rightarrow> \<exists>j. random j = None
     | Inr out \<Rightarrow> wanted \<le> length out \<and> length out < wanted + 256 \<and> (\<exists>j. out = answers random 0 j))"
  using nsm_loop_total [OF assms(1), of "[]" wanted 0] assms(2)
  by (auto simp: get_entropy_nsm_def)

lemma get_entropy_terminates_witness:
  "\<exists>r. get_entropy_nsm 3 (\<lambda>i. Some (replicate 256 7)) 32 = Some r \<and>
     (case r of Inl e \<Rightarrow> False | Inr out \<Rightarrow> 32 \<le> length out)"
  using get_entropy_terminates [of "\<lambda>i. Some (replicate 256 7)" 3 32]
  by (auto simp: fills_buffer_def split: sum.splits)

text \<open>With empty answers the loop never returns.\<close>

lemma nsm_loop_diverges:
  assumes "length out < wanted"
  shows "nsm_loop (\<lambda>_. Some []) wanted i out = None"
proof (rule ccontr)
  assume "nsm_loop (\<lambda>_. Some []) wanted i out \<noteq> None"
  then obtain r where r: "nsm_loop (\<lambda>_. Some []) wanted i out = Some r" by auto
  have "(\<lambda>_. Some []) = (\<lambda>_::nat. Some ([] :: bytes)) \<longrightarrow> \<not> length out < wanted"
    by (rule nsm_loop.raw_induct [where P = "\<lambda>random wanted i out r. random = (\<lambda>_. Some []) \<longrightarrow> \<not> length out < wanted", OF _ r])
      (auto split: if_splits)
  with assms show False by simp
qed

end
