(* ===== verification/Log_Forwarder.thy ===== *)
theory Log_Forwarder
  imports System_Calls
begin

text \<open>
  The log forwarder of the init process (\<^verbatim>\<open>log_forwarder\<close> in \<^verbatim>\<open>src/init/src/main.rs\<close>): it tails
  the shared log file and streams its bytes over a VSOCK connection, reconnecting when a send fails.
  Its two nested infinite loops are modelled by their iterations; the results of the system calls are
  arguments. A position never exceeds the file's length, so it is a natural number.
\<close>

section \<open>One chunk\<close>

text \<open>
  \<^verbatim>\<open>while sent < n\<close>: \<open>rcs i m\<close> is the result of send number \<open>i\<close> when \<open>m\<close> bytes are offered. The result is the number of bytes the
  peer took and whether the whole buffer went out; \<open>None\<close> when the loop never ends.
\<close>

partial_function (option) send_loop :: "(nat \<Rightarrow> nat \<Rightarrow> int) \<Rightarrow> nat \<Rightarrow> nat \<Rightarrow> nat \<Rightarrow> (nat \<times> bool) option" where
  "send_loop rcs n i sent =
     (if sent < n
      then (let rc = rcs i (n - sent)
            in if rc < 0 then Some (sent, False) else send_loop rcs n (Suc i) (sent + nat rc))
      else Some (sent, True))"

declare send_loop.simps [code]

section \<open>State and iterations\<close>

text \<open>
  The file with the position reached in it, and the bytes the peer has taken on the current
  connection.
\<close>

record forwarder =
  fw_file :: bytes
  fw_pos :: nat
  fw_stream :: bytes

text \<open>
  What the calls of one iteration return: whether the file opens, its metadata is readable and the
  seek succeeds; how many bytes the read may deliver (\<open>None\<close>: it fails); the results of the sends.
\<close>

record tail_env =
  te_open :: bool
  te_metadata :: bool
  te_seek :: bool
  te_read :: "nat option"
  te_send :: "nat \<Rightarrow> nat \<Rightarrow> int"

definition BUF_SIZE :: nat where
  "BUF_SIZE = 4096"

text \<open>
  One iteration of the inner loop, with whether the connection is kept. The bytes \<^verbatim>\<open>send\<close> accepts are those the peer gets:
  what the kernel still holds when a connection breaks is not modelled.
\<close>

definition tail_iteration :: "tail_env \<Rightarrow> forwarder \<Rightarrow> (forwarder \<times> bool) option" where
  "tail_iteration e fw =
     (if \<not> te_open e then Some (fw, True)
      else
        (let fsize = (if te_metadata e then length (fw_file fw) else 0);
             pos = (if fsize < fw_pos fw then 0 else fw_pos fw);
             fw1 = fw\<lparr>fw_pos := pos\<rparr>
         in if fsize \<le> pos then Some (fw1, True)
            else if \<not> te_seek e then Some (fw1\<lparr>fw_pos := 0\<rparr>, True)
            else case te_read e of
                   None \<Rightarrow> Some (fw1, True)
                 | Some k \<Rightarrow>
                     (let buf = take (min k BUF_SIZE) (drop pos (fw_file fw)); n = length buf
                      in if n = 0 then Some (fw1, True)
                         else case send_loop (te_send e) n 0 0 of
                                None \<Rightarrow> None
                              | Some (sent, ok) \<Rightarrow>
                                  (let fw2 = fw1\<lparr>fw_stream := fw_stream fw @ take sent buf\<rparr>
                                   in if ok then Some (fw2\<lparr>fw_pos := pos + n\<rparr>, True) else Some (fw2, False)))))"

text \<open>The outer loop's iteration: a new connection starts with an empty stream, at the position reached.\<close>

definition reconnect :: "forwarder \<Rightarrow> forwarder" where
  "reconnect fw = fw\<lparr>fw_stream := []\<rparr>"

text \<open>
  The iterations on one connection; before each of them the writers may have appended bytes to the log.
\<close>

fun run_tail :: "(bytes \<times> tail_env) list \<Rightarrow> forwarder \<Rightarrow> (forwarder \<times> bool) option" where
  "run_tail [] fw = Some (fw, True)"
| "run_tail ((new, e) # steps) fw =
     (case tail_iteration e (fw\<lparr>fw_file := fw_file fw @ new\<rparr>) of
        None \<Rightarrow> None
      | Some (fw1, kept) \<Rightarrow> if kept then run_tail steps fw1 else Some (fw1, False))"

section \<open>The send loop\<close>

text \<open>What \<^verbatim>\<open>send\<close> documents: an error, or some of the bytes offered, at least one.\<close>

definition send_contract :: "(nat \<Rightarrow> nat \<Rightarrow> int) \<Rightarrow> bool" where
  "send_contract rcs \<longleftrightarrow> (\<forall>i m. 0 < m \<longrightarrow> rcs i m < 0 \<or> 0 < rcs i m \<and> rcs i m \<le> int m)"

lemma send_contractD: "send_contract rcs \<Longrightarrow> 0 < m \<Longrightarrow> 0 \<le> rcs i m \<Longrightarrow> 0 < rcs i m \<and> rcs i m \<le> int m"
  unfolding send_contract_def by (metis leD)

lemma send_loop_total:
  assumes "send_contract rcs" "sent \<le> n"
  shows "\<exists>s ok. send_loop rcs n i sent = Some (s, ok) \<and> sent \<le> s \<and> s \<le> n \<and> (ok \<longleftrightarrow> s = n)"
  using assms(2)
proof (induction "n - sent" arbitrary: i sent rule: less_induct)
  case less
  show ?case
  proof (cases "sent < n")
    case False
    with less.prems show ?thesis by (subst send_loop.simps) simp
  next
    case True
    let ?rc = "rcs i (n - sent)"
    show ?thesis
    proof (cases "?rc < 0")
      case rc: True
      with True show ?thesis by (subst send_loop.simps) (simp add: Let_def)
    next
      case False
      then have rc: "0 < ?rc" "?rc \<le> int (n - sent)"
        using send_contractD [OF assms(1), of "n - sent" i] True by simp_all
      then have "n - (sent + nat ?rc) < n - sent" "sent + nat ?rc \<le> n" using True by linarith+
      from less.hyps [OF this, of "Suc i"] show ?thesis
        using True False by (subst send_loop.simps) (auto simp: Let_def)
    qed
  qed
qed

lemma send_loop_complete:
  assumes "send_contract rcs" "\<And>i m. 0 < m \<Longrightarrow> 0 \<le> rcs i m" "sent \<le> n"
  shows "send_loop rcs n i sent = Some (n, True)"
  using assms(3)
proof (induction "n - sent" arbitrary: i sent rule: less_induct)
  case less
  show ?case
  proof (cases "sent < n")
    case True
    have rc: "0 < rcs i (n - sent)" "rcs i (n - sent) \<le> int (n - sent)"
      using send_contractD [OF assms(1), of "n - sent" i] assms(2) [of "n - sent" i] True by simp_all
    then have "n - (sent + nat (rcs i (n - sent))) < n - sent" "sent + nat (rcs i (n - sent)) \<le> n"
      using True by linarith+
    from less.hyps [OF this, of "Suc i"] show ?thesis
      using True rc by (subst send_loop.simps) (simp add: Let_def)
  qed (use less.prems in \<open>simp add: send_loop.simps\<close>)
qed

text \<open>
  The send loop of the log forwarder terminates: as long as each send takes at least one byte or
  fails, it ends, with the whole chunk sent or, after a failure, with a proper part of it.
\<close>

theorem send_loop_terminates:
  assumes "send_contract rcs"
  shows "\<exists>s ok. send_loop rcs n 0 0 = Some (s, ok) \<and> s \<le> n \<and> (ok \<longleftrightarrow> s = n)"
  using send_loop_total [OF assms, of 0 n 0] by auto

lemma send_loop_terminates_witness:
  "\<exists>s ok. send_loop (\<lambda>i m. if i < 2 then 1 else -1) 4096 0 0 = Some (s, ok) \<and> s \<le> 4096 \<and> (ok \<longleftrightarrow> s = 4096)"
  by (rule send_loop_terminates) (simp add: send_contract_def)

section \<open>The stream\<close>

lemma segment_append:
  assumes "i \<le> j" "j \<le> m" "j \<le> length xs" "prefix xs ys"
  shows "drop i (take j xs) @ drop j (take m ys) = drop i (take m ys)"
proof -
  have "take j xs = take j ys" using assms(3,4) by (auto simp: prefix_def)
  moreover have "take j ys = take j (take m ys)" using assms(2) by (simp add: min_absorb1)
  moreover have "drop i (take j zs) @ drop j zs = drop i zs" for zs :: "'a list"
  proof -
    have "drop j zs = drop (j - i) (drop i zs)" using assms(1) by simp
    then show ?thesis by (metis append_take_drop_id drop_take)
  qed
  ultimately show ?thesis by metis
qed

definition healthy :: "tail_env \<Rightarrow> bool" where
  "healthy e \<longleftrightarrow> te_metadata e \<and> te_seek e \<and> send_contract (te_send e)"

text \<open>After an iteration the stream has grown by the file's bytes up to \<open>k\<close> beyond the new position.\<close>

definition extends_stream :: "forwarder \<Rightarrow> forwarder \<Rightarrow> bool \<Rightarrow> nat \<Rightarrow> bool" where
  "extends_stream fw fw' kept k \<longleftrightarrow>
     fw_pos fw \<le> fw_pos fw' \<and> fw_pos fw' + k \<le> length (fw_file fw') \<and> k < BUF_SIZE \<and> (kept \<longrightarrow> k = 0) \<and>
     prefix (fw_file fw) (fw_file fw') \<and>
     fw_stream fw' = fw_stream fw @ drop (fw_pos fw) (take (fw_pos fw' + k) (fw_file fw'))"

lemma tail_iteration_stream:
  assumes "tail_iteration e fw = Some (fw', kept)" "healthy e" "fw_pos fw \<le> length (fw_file fw)"
  shows "fw_file fw' = fw_file fw \<and> (\<exists>k. extends_stream fw fw' kept k)"
proof -
  have idle: "extends_stream fw fw True 0" using assms(3) by (simp add: extends_stream_def BUF_SIZE_def)
  show ?thesis
  proof (cases "te_open e \<and> fw_pos fw < length (fw_file fw) \<and> te_read e \<noteq> None \<and> te_read e \<noteq> Some 0")
    case False
    then have "fw' = fw \<and> kept" using assms by (auto simp: tail_iteration_def healthy_def Let_def BUF_SIZE_def split: if_splits option.splits)
    then show ?thesis using idle by auto
  next
    case True
    then obtain k where k: "te_read e = Some k" "0 < k" by auto
    define buf where "buf = take (min k BUF_SIZE) (drop (fw_pos fw) (fw_file fw))"
    have buf: "buf \<noteq> []" "length buf \<le> BUF_SIZE" "fw_pos fw + length buf \<le> length (fw_file fw)"
      using True k by (auto simp: buf_def BUF_SIZE_def)
    have seg: "take s buf = drop (fw_pos fw) (take (fw_pos fw + s) (fw_file fw))" if "s \<le> length buf" for s
    proof -
      have "s \<le> min k BUF_SIZE" using that by (simp add: buf_def)
      then show ?thesis by (simp add: buf_def take_drop add.commute min_absorb1)
    qed
    obtain s ok where send: "send_loop (te_send e) (length buf) 0 0 = Some (s, ok)" "s \<le> length buf" "ok \<longleftrightarrow> s = length buf"
      using send_loop_total [of "te_send e" 0 "length buf" 0] assms(2) by (auto simp: healthy_def)
    have res: "fw' = (if ok then fw\<lparr>fw_stream := fw_stream fw @ take s buf, fw_pos := fw_pos fw + length buf\<rparr>
        else fw\<lparr>fw_stream := fw_stream fw @ take s buf\<rparr>)" "kept = ok"
      using assms True k(1) send buf(1)
      by (auto simp: tail_iteration_def healthy_def Let_def simp flip: buf_def split: if_splits)
    have "extends_stream fw fw' kept (if ok then 0 else s)"
      using res buf send(2,3) seg [OF send(2)] by (auto simp: extends_stream_def BUF_SIZE_def)
    then show ?thesis using res by auto
  qed
qed

lemma extends_stream_trans:
  assumes "extends_stream fw fw1 True k1" "extends_stream fw1 fw2 kept k"
  shows "extends_stream fw fw2 kept k"
proof -
  have "drop (fw_pos fw) (take (fw_pos fw1) (fw_file fw1)) @ drop (fw_pos fw1) (take (fw_pos fw2 + k) (fw_file fw2)) =
      drop (fw_pos fw) (take (fw_pos fw2 + k) (fw_file fw2))"
    using assms by (intro segment_append) (auto simp: extends_stream_def)
  then show ?thesis
    using assms prefix_order.trans by (auto simp: extends_stream_def)
qed

lemma run_tail_stream:
  assumes "run_tail steps fw = Some (fw', kept)" "list_all (\<lambda>(new, e). healthy e) steps" "fw_pos fw \<le> length (fw_file fw)"
  shows "\<exists>k. extends_stream fw fw' kept k"
  using assms
proof (induction steps arbitrary: fw)
  case Nil
  then show ?case by (auto simp: extends_stream_def BUF_SIZE_def)
next
  case (Cons step steps)
  obtain new e where step: "step = (new, e)" by (cases step)
  let ?fw = "fw\<lparr>fw_file := fw_file fw @ new\<rparr>"
  obtain fw1 kept1 where it: "tail_iteration e ?fw = Some (fw1, kept1)"
    using Cons.prems(1) step by (auto split: option.splits)
  have "fw_file fw1 = fw_file ?fw \<and> (\<exists>k. extends_stream ?fw fw1 kept1 k)"
    using it Cons.prems(2,3) step by (intro tail_iteration_stream) auto
  moreover have "extends_stream ?fw fw1 kept1 k \<Longrightarrow> extends_stream fw fw1 kept1 k" for k
    by (auto simp: extends_stream_def intro: append_prefixD)
  ultimately obtain k where k: "fw_file fw1 = fw_file fw @ new" "extends_stream fw fw1 kept1 k" by auto
  show ?case
  proof (cases kept1)
    case False
    with Cons.prems(1) step it k(2) show ?thesis by auto
  next
    case True
    then obtain k' where "extends_stream fw1 fw' kept k'"
      using Cons.IH [of fw1] Cons.prems(1,2) step it k(2) by (auto simp: extends_stream_def)
    then have "extends_stream fw fw' kept k'"
      using extends_stream_trans [of fw fw1 k fw' kept k'] k(2) True by simp
    then show ?thesis ..
  qed
qed

text \<open>
  C26: A log connection carries the log without gaps or reordering. Over any number of iterations on one
  connection, with the file only growing and its metadata and seeks available, the bytes the peer took
  are exactly the file's bytes from the position where the connection started to the position
  reached; when a send fails, the peer may hold up to 4095 bytes beyond it, and the next
  connection starts again at the position, so these bytes are repeated and none is skipped.
\<close>

theorem log_stream_is_contiguous:
  assumes "run_tail steps (reconnect fw) = Some (fw', kept)" and "list_all (\<lambda>(new, e). healthy e) steps"
    and "fw_pos fw \<le> length (fw_file fw)"
  shows "\<exists>k. fw_stream fw' = drop (fw_pos fw) (take (fw_pos fw' + k) (fw_file fw')) \<and>
    k < 4096 \<and> (kept \<longrightarrow> k = 0) \<and> fw_pos fw \<le> fw_pos fw' \<and> fw_pos fw' + k \<le> length (fw_file fw') \<and>
    prefix (fw_file fw) (fw_file fw') \<and> fw_pos (reconnect fw') = fw_pos fw'"
  using run_tail_stream [OF assms(1,2)] assms(3)
  by (auto simp: extends_stream_def reconnect_def BUF_SIZE_def)

definition sample_tail :: tail_env where
  "sample_tail = \<lparr>te_open = True, te_metadata = True, te_seek = True, te_read = Some 4096, te_send = (\<lambda>i m. int m)\<rparr>"

definition empty_log :: forwarder where
  "empty_log = \<lparr>fw_file = [], fw_pos = 0, fw_stream = []\<rparr>"

lemma sample_tail_healthy: "healthy sample_tail"
  by (simp add: healthy_def sample_tail_def send_contract_def)

lemma tail_iteration_total:
  assumes "send_contract (te_send e)"
  shows "tail_iteration e fw \<noteq> None"
proof -
  have "send_loop (te_send e) n 0 0 \<noteq> None" for n using send_loop_total [OF assms, of 0 n 0] by auto
  then show ?thesis
    by (simp add: tail_iteration_def Let_def del: not_None_eq split: option.split prod.split)
qed

lemma run_tail_total: "list_all (\<lambda>(new, e). healthy e) steps \<Longrightarrow> \<exists>fw' kept. run_tail steps fw = Some (fw', kept)"
proof (induction steps arbitrary: fw)
  case (Cons step steps)
  obtain new e where step: "step = (new, e)" by (cases step)
  obtain fw1 kept1 where "tail_iteration e (fw\<lparr>fw_file := fw_file fw @ new\<rparr>) = Some (fw1, kept1)"
    using tail_iteration_total [of e "fw\<lparr>fw_file := fw_file fw @ new\<rparr>"] Cons.prems step
    by (auto simp: healthy_def)
  then show ?case using Cons.IH [of fw1] Cons.prems step by (cases kept1) auto
qed auto

lemma log_stream_is_contiguous_witness:
  "\<exists>fw' kept. run_tail [([1, 2], sample_tail), ([3], sample_tail)] (reconnect empty_log) = Some (fw', kept) \<and>
     prefix (fw_stream fw') (fw_file fw')"
proof -
  have h: "list_all (\<lambda>(new, e). healthy e) [([1, 2], sample_tail), ([3], sample_tail)]"
    by (simp add: sample_tail_healthy)
  obtain fw' kept where r: "run_tail [([1, 2], sample_tail), ([3], sample_tail)] (reconnect empty_log) = Some (fw', kept)"
    using run_tail_total [OF h] by blast
  have "prefix (fw_stream fw') (fw_file fw')"
    using log_stream_is_contiguous [OF r h] by (auto simp: empty_log_def take_is_prefix)
  with r show ?thesis by blast
qed

section \<open>Progress\<close>

text \<open>No call of the iteration fails, and the read fills the buffer when the file has the bytes.\<close>

definition unimpeded :: "tail_env \<Rightarrow> bool" where
  "unimpeded e \<longleftrightarrow> te_open e \<and> healthy e \<and> (\<exists>k\<ge>BUF_SIZE. te_read e = Some k) \<and> (\<forall>i m. 0 < m \<longrightarrow> 0 \<le> te_send e i m)"

lemma unimpeded_iteration:
  assumes "unimpeded e" "fw_pos fw \<le> length (fw_file fw)"
  shows "\<exists>fw'. tail_iteration e fw = Some (fw', True) \<and> fw_file fw' = fw_file fw \<and>
    fw_pos fw' = min (length (fw_file fw)) (fw_pos fw + BUF_SIZE)"
proof (cases "fw_pos fw = length (fw_file fw)")
  case True
  with assms show ?thesis by (auto simp: tail_iteration_def unimpeded_def healthy_def Let_def)
next
  case False
  obtain k where k: "te_read e = Some k" "BUF_SIZE \<le> k" using assms(1) by (auto simp: unimpeded_def)
  let ?n = "min (length (fw_file fw) - fw_pos fw) BUF_SIZE"
  have "send_loop (te_send e) ?n 0 0 = Some (?n, True)"
    using assms(1) by (intro send_loop_complete) (auto simp: unimpeded_def healthy_def)
  then show ?thesis
    using False assms k by (auto simp: tail_iteration_def unimpeded_def healthy_def Let_def min_def BUF_SIZE_def)
qed

lemma run_tail_progress:
  assumes "list_all unimpeded es" "fw_pos fw \<le> length (fw_file fw)"
  shows "\<exists>fw'. run_tail (map (\<lambda>e. ([], e)) es) fw = Some (fw', True) \<and> fw_file fw' = fw_file fw \<and>
    fw_pos fw' = min (length (fw_file fw)) (fw_pos fw + BUF_SIZE * length es)"
  using assms
proof (induction es arbitrary: fw)
  case (Cons e es)
  then obtain fw1 where fw1: "tail_iteration e fw = Some (fw1, True)" "fw_file fw1 = fw_file fw"
      "fw_pos fw1 = min (length (fw_file fw)) (fw_pos fw + BUF_SIZE)"
    using unimpeded_iteration [of e fw] by auto
  obtain fw' where "run_tail (map (\<lambda>e. ([], e)) es) fw1 = Some (fw', True)" "fw_file fw' = fw_file fw1"
      "fw_pos fw' = min (length (fw_file fw1)) (fw_pos fw1 + BUF_SIZE * length es)"
    using Cons.IH [of fw1] Cons.prems(1) fw1(2,3) by auto
  then show ?case using fw1 by (auto simp: min_def)
qed (auto simp: min_def)

text \<open>
  C27: An unimpeded forwarder drains the log: if the file stops growing, no call fails and every read fills its buffer as far
  as the file goes, then after as
  many iterations as there are 4096-byte chunks left, every byte of the file from the position where
  the connection started has been delivered on it.
\<close>

theorem log_is_drained:
  assumes "list_all unimpeded es" and "fw_pos fw \<le> length (fw_file fw)"
    and "length (fw_file fw) \<le> fw_pos fw + 4096 * length es"
  shows "\<exists>fw'. run_tail (map (\<lambda>e. ([], e)) es) (reconnect fw) = Some (fw', True) \<and>
    fw_pos fw' = length (fw_file fw) \<and> fw_stream fw' = drop (fw_pos fw) (fw_file fw)"
proof -
  obtain fw' where run: "run_tail (map (\<lambda>e. ([], e)) es) (reconnect fw) = Some (fw', True)"
      "fw_file fw' = fw_file fw" "fw_pos fw' = length (fw_file fw)"
    using run_tail_progress [OF assms(1), of "reconnect fw"] assms(2,3)
    by (auto simp: reconnect_def BUF_SIZE_def min_def)
  have "list_all (\<lambda>(new, e). healthy e) (map (\<lambda>e. ([], e)) es)"
    using assms(1) by (auto simp: list_all_iff unimpeded_def)
  then have "\<exists>k. extends_stream (reconnect fw) fw' True k"
    using run(1) assms(2) by (intro run_tail_stream) (auto simp: reconnect_def)
  then show ?thesis using run by (auto simp: extends_stream_def reconnect_def)
qed

lemma log_is_drained_witness:
  "\<exists>fw'. run_tail [([], sample_tail)] (reconnect (empty_log\<lparr>fw_file := [1, 2, 3]\<rparr>)) = Some (fw', True) \<and>
     fw_stream fw' = [1, 2, 3]"
proof -
  have "unimpeded sample_tail"
    using sample_tail_healthy by (simp add: unimpeded_def sample_tail_def BUF_SIZE_def)
  then have "\<exists>fw'. run_tail (map (\<lambda>e. ([], e)) [sample_tail]) (reconnect (empty_log\<lparr>fw_file := [1, 2, 3]\<rparr>)) = Some (fw', True) \<and>
      fw_pos fw' = length (fw_file (empty_log\<lparr>fw_file := [1, 2, 3]\<rparr>)) \<and>
      fw_stream fw' = drop (fw_pos (empty_log\<lparr>fw_file := [1, 2, 3]\<rparr>)) (fw_file (empty_log\<lparr>fw_file := [1, 2, 3]\<rparr>))"
    by (intro log_is_drained) (simp_all add: empty_log_def)
  then show ?thesis unfolding empty_log_def by (simp del: run_tail.simps) blast
qed

text \<open>
  A failing \<^verbatim>\<open>metadata\<close> call is read as length zero and resets the position, so the whole log is
  sent again.
\<close>

lemma metadata_failure_restarts:
  "te_open e \<Longrightarrow> \<not> te_metadata e \<Longrightarrow> tail_iteration e fw = Some (fw\<lparr>fw_pos := 0\<rparr>, True)"
  by (cases fw) (simp add: tail_iteration_def Let_def)

end
