(* ===== verification/Init_Process.thy ===== *)
theory Init_Process
  imports Boot Log_Forwarder
begin

text \<open>
  The init process, PID 1 of the enclave (\<^verbatim>\<open>main\<close> and its helpers in \<^verbatim>\<open>src/init/src/main.rs\<close>), as the
  sequence of actions it takes on the system. The outcomes that influence the sequence are arguments;
  an \<^verbatim>\<open>expect\<close> that fails ends the process and with it the sequence.
\<close>

section \<open>Actions\<close>

datatype init_action =
    CreateDirAll string
  | Mount string string string "string list" string
  | Freopen string string nat
  | InitPlatform
  | SeedEntropy nat
  | RunBusybox "string list"
  | WriteFile string string
  | AcceptConfig nat
  | SpawnBridge string string
  | TruncateLog string
  | SpawnSidecar env_vars
  | SpawnCoordinator env_vars
  | StartLogForwarder string nat nat
  | WaitForCoordinator
  | Reboot

definition PARENT_CID :: nat where
  "PARENT_CID = 3"

definition no_dse :: "string list" where
  "no_dse = [''MS_NODEV'', ''MS_NOSUID'', ''MS_NOEXEC'']"

definition no_se :: "string list" where
  "no_se = [''MS_NOSUID'', ''MS_NOEXEC'']"

definition mounts :: "(string \<times> string \<times> string \<times> string list \<times> string) list" where
  "mounts =
     [(''devtmpfs'', ''/dev'', ''devtmpfs'', no_se, ''mode=0755''),
      (''devpts'', ''/dev/pts'', ''devpts'', no_se, ''''),
      (''shm'', ''/dev/shm'', ''tmpfs'', no_dse, ''mode=0755''),
      (''proc'', ''/proc'', ''proc'', no_dse, ''hidepid=2''),
      (''tmpfs'', ''/run'', ''tmpfs'', no_dse, ''mode=0755''),
      (''tmpfs'', ''/tmp'', ''tmpfs'', no_dse, ''''),
      (''sysfs'', ''/sys'', ''sysfs'', no_dse, ''''),
      (''cgroup_root'', ''/sys/fs/cgroup'', ''tmpfs'', no_dse, ''mode=0755'')]"

text \<open>Failures of these steps are printed and otherwise ignored.\<close>

definition init_rootfs :: "init_action list" where
  "init_rootfs =
     concat (map (\<lambda>(src, target, fstype, flags, data). [CreateDirAll target, Mount src target fstype flags data]) mounts)"

definition init_console :: "init_action list" where
  "init_console =
     [Freopen ''/dev/console'' ''r'' 0, Freopen ''/dev/console'' ''w'' 1, Freopen ''/dev/console'' ''w'' 2]"

definition setup_loopback :: "init_action list" where
  "setup_loopback =
     [RunBusybox [''ip'', ''addr'', ''add'', ''127.0.0.1/8'', ''dev'', ''lo''],
      RunBusybox [''ip'', ''link'', ''set'', ''dev'', ''lo'', ''up''],
      WriteFile ''/etc/hosts'' (host_line ''localhost'')]"

text \<open>A socat process between two addresses; that it could not be spawned is printed.\<close>

definition bridge :: "string \<Rightarrow> string \<Rightarrow> init_action" where
  "bridge left right = SpawnBridge left right"

definition bridges :: "init_action list" where
  "bridges =
     [bridge ''TCP-LISTEN:5432,reuseaddr,fork'' (''VSOCK-CONNECT:'' @ dec PARENT_CID @ '':8101''),
      bridge ''TCP-LISTEN:6379,reuseaddr,fork'' (''VSOCK-CONNECT:'' @ dec PARENT_CID @ '':8102''),
      bridge ''TCP-LISTEN:443,reuseaddr,fork'' (''VSOCK-CONNECT:'' @ dec PARENT_CID @ '':8103''),
      bridge ''VSOCK-LISTEN:4000,reuseaddr,fork'' ''TCP:127.0.0.1:4000'',
      bridge ''VSOCK-LISTEN:4001,reuseaddr,fork'' ''TCP:127.0.0.1:4001'']"

section \<open>The sequence\<close>

text \<open>
  The pushed lines (absent when accepting failed), the entropy for the secret, the inherited environment,
  and the success of the steps guarded by \<^verbatim>\<open>expect\<close>: opening and cloning each log handle, and the two
  spawns.
\<close>

record boot_env =
  be_pushed :: "string option list option"
  be_entropy :: "bytes option"
  be_vars :: env_vars
  be_sidecar_log :: bool
  be_sidecar_spawn :: bool
  be_coordinator_log :: bool
  be_coordinator_spawn :: bool

definition sidecar_env :: "env_vars \<Rightarrow> env_vars" where
  "sidecar_env vars = vars(''LD_LIBRARY_PATH'' \<mapsto> ''/usr/lib:/usr/local/lib'', ''NODE_PATH'' \<mapsto> ''/scripts/node_modules'')"

text \<open>Up to the configuration connection, and on to the log.\<close>

definition until_config :: "init_action list" where
  "until_config = init_rootfs @ init_console @ [InitPlatform, SeedEntropy 4096] @ setup_loopback @ [AcceptConfig 7000]"

definition prepare :: "boot_env \<Rightarrow> init_action list" where
  "prepare e =
     (let vars = init_env (be_pushed e) (be_entropy e) (be_vars e)
      in until_config @ [WriteFile ''/etc/hosts'' (etc_hosts vars)] @ bridges @ [TruncateLog ''/tmp/coordinator.log''])"

text \<open>The actions, and whether the process reached its end (otherwise it panicked, in \<^verbatim>\<open>set_var\<close> or an \<^verbatim>\<open>expect\<close>).\<close>

definition init_main :: "boot_env \<Rightarrow> init_action list \<times> bool" where
  "init_main e =
     (if inject_panics (be_pushed e) then (until_config, False)
      else
        (let vars = init_env (be_pushed e) (be_entropy e) (be_vars e); pre = prepare e
         in if \<not> be_sidecar_log e then (pre, False)
            else if \<not> be_sidecar_spawn e then (pre, False)
            else
              (let pre1 = pre @ [SpawnSidecar (sidecar_env vars)]
               in if \<not> be_coordinator_log e then (pre1, False)
                  else if \<not> be_coordinator_spawn e then (pre1, False)
                  else (pre1 @ [SpawnCoordinator vars, StartLogForwarder ''/tmp/coordinator.log'' PARENT_CID 5000,
                         WaitForCoordinator, Reboot], True))))"

section \<open>Order and environment\<close>

lemma prepare_no_spawn: "SpawnCoordinator v \<notin> set (prepare e)" "SpawnSidecar v \<notin> set (prepare e)"
  "SpawnCoordinator v \<notin> set until_config"
  by (auto simp: prepare_def until_config_def Let_def init_rootfs_def init_console_def setup_loopback_def bridges_def bridge_def)

lemma prepare_contains:
  "AcceptConfig 7000 \<in> set (prepare e)" "set bridges \<subseteq> set (prepare e)" "set setup_loopback \<subseteq> set (prepare e)"
  "set init_rootfs \<subseteq> set (prepare e)"
  by (auto simp: prepare_def until_config_def Let_def)

lemma init_env_secret: "init_env pushed entropy vars0 ''SIDECAR_SECRET'' \<noteq> None"
  unfolding init_env_def Let_def by (simp only: set_default_dom simp_thms)

text \<open>
  The coordinator starts in a prepared enclave. If init spawns it at all, it does so once, after the
  file systems are mounted, the loopback is up, the configuration connection was taken, all five
  bridges and the sidecar were started; the coordinator's configuration is complete; it and the
  sidecar share one secret; and the enclave reboots when the coordinator ends. If the sidecar cannot be
  spawned the coordinator is never started.
\<close>

theorem coordinator_starts_prepared:
  assumes "init_main e = (actions, ended)" and "SpawnCoordinator vars \<in> set actions"
  shows "\<exists>pre sidecar_vars post.
    actions = pre @ SpawnSidecar sidecar_vars # SpawnCoordinator vars # post \<and>
    (\<forall>v. SpawnCoordinator v \<notin> set pre \<union> set post) \<and>
    set init_rootfs \<union> set setup_loopback \<union> set bridges \<union> {AcceptConfig 7000} \<subseteq> set pre \<and>
    sidecar_vars ''SIDECAR_SECRET'' = vars ''SIDECAR_SECRET'' \<and> vars ''SIDECAR_SECRET'' \<noteq> None \<and>
    (\<exists>c. config_from_env vars = Inr c) \<and> last actions = Reboot \<and> ended \<and> be_sidecar_spawn e"
proof -
  let ?vars = "init_env (be_pushed e) (be_entropy e) (be_vars e)"
  have run: "\<not> inject_panics (be_pushed e)" "be_sidecar_log e" "be_sidecar_spawn e" "be_coordinator_log e" "be_coordinator_spawn e"
    using assms prepare_no_spawn by (auto simp: init_main_def Let_def split: if_splits)
  then have act: "actions = prepare e @ SpawnSidecar (sidecar_env ?vars) # SpawnCoordinator ?vars #
      [StartLogForwarder ''/tmp/coordinator.log'' PARENT_CID 5000, WaitForCoordinator, Reboot]" "ended"
    using assms(1) by (simp_all add: init_main_def Let_def)
  then have "vars = ?vars" using assms(2) prepare_no_spawn by auto
  moreover have "sidecar_env ?vars ''SIDECAR_SECRET'' = ?vars ''SIDECAR_SECRET''" by (simp add: sidecar_env_def)
  ultimately show ?thesis
    using act run prepare_contains [of e] prepare_no_spawn(1) [of _ e] init_env_secret config_from_init_env
    by (intro exI [of _ "prepare e"] exI [of _ "sidecar_env ?vars"]
        exI [of _ "[StartLogForwarder ''/tmp/coordinator.log'' PARENT_CID 5000, WaitForCoordinator, Reboot]"]) simp
qed

definition sample_boot :: boot_env where
  "sample_boot = \<lparr>be_pushed = None, be_entropy = Some [1, 2], be_vars = Map.empty, be_sidecar_log = True,
     be_sidecar_spawn = True, be_coordinator_log = True, be_coordinator_spawn = True\<rparr>"

lemma coordinator_starts_prepared_witness: "last (fst (init_main sample_boot)) = Reboot"
proof -
  have "SpawnCoordinator (init_env None (Some [1, 2]) Map.empty) \<in> set (fst (init_main sample_boot))"
    by (simp add: init_main_def sample_boot_def inject_panics_def Let_def)
  then show ?thesis using coordinator_starts_prepared [OF surjective_pairing] by blast
qed

end
