(* ===== verification/Admin_Api.thy ===== *)
theory Admin_Api
  imports App_State
begin

unbundle bit_operations_syntax

text \<open>
  The privileged endpoints (\<^verbatim>\<open>src/coordinator/src/api/admin.rs\<close>): the shared-secret check, pushing the
  on-chain enclave id, and the settlement and session inspections. Environment variables, headers,
  uuid parsing and the formatting of uuids and timestamps are parameters.
\<close>

section \<open>Responses\<close>

record set_enclave_id_req =
  si_enclave_object_id :: string
  si_tx_digest :: "string option"

record payment_report =
  py_id :: string
  py_request_id :: string
  py_payee_peer_id :: string
  py_payee_sui_address :: string
  py_amount_nanox :: i64
  py_status :: string
  py_tx_digest :: "string option"
  py_created_at :: string
  py_submitted_at :: "string option"
  py_confirmed_at :: "string option"

record session_turn_row =
  st_turn_id :: string
  st_request_id :: string
  st_node_peer_id :: "string option"
  st_input_tokens :: "u32 option"
  st_output_tokens :: "u32 option"
  st_latency_ms :: "u32 option"
  st_created_at :: string

record warm_node_row =
  wn_node_peer_id :: string
  wn_cache_tier :: string
  wn_last_served_at :: string

record session_status_resp =
  sx_session_id :: string
  sx_user_address :: string
  sx_model_id :: string
  sx_turn_count :: u32
  sx_total_tokens :: i64
  sx_walrus_blob_id :: "string option"
  sx_prev_blob_id :: "string option"
  sx_last_updated :: string
  sx_turns :: "session_turn_row list"
  sx_warm_nodes :: "warm_node_row list"

text \<open>A response body.\<close>

datatype admin_body =
    ErrorBody string
  | SetEnclaveIdBody string bool
  | SettlementStatusBody string "payment_report list"
  | SessionStatusBody session_status_resp

section \<open>Authentication\<close>

definition constant_time_eq :: "bytes \<Rightarrow> bytes \<Rightarrow> bool" where
  "constant_time_eq a b =
     (if length a \<noteq> length b then False
      else foldl (\<lambda>diff (x, y). diff OR (x XOR y)) 0 (zip a b) = 0)"

definition str_bytes :: "string \<Rightarrow> bytes" where
  "str_bytes s = map (\<lambda>c. of_nat (of_char c)) s"

text \<open>
  \<open>vars\<close> is the process environment; \<open>header\<close> the value of \<^verbatim>\<open>x-sidecar-secret\<close> when it is present and
  visible ASCII.
\<close>

definition check_secret :: "(string \<rightharpoonup> string) \<Rightarrow> string option \<Rightarrow> (nat \<times> admin_body) + string" where
  "check_secret vars header =
     (case vars ''SIDECAR_SECRET'' of
        None \<Rightarrow> Inl (503, ErrorBody ''SIDECAR_SECRET not configured'')
      | Some raw \<Rightarrow>
          (let expected = str_trim raw;
               supplied = str_trim (case header of None \<Rightarrow> [] | Some v \<Rightarrow> v)
           in if length (str_bytes supplied) \<noteq> length (str_bytes expected) \<or>
                 \<not> constant_time_eq (str_bytes supplied) (str_bytes expected)
              then Inl (401, ErrorBody ''bad or missing X-Sidecar-Secret'')
              else Inr expected))"

section \<open>Endpoints\<close>

text \<open>\<open>put_answer\<close> is the outcome of the PUT to the sidecar, \<open>None\<close> when no client could be built.\<close>

definition set_enclave_id ::
  "(string \<rightharpoonup> string) \<Rightarrow> string option \<Rightarrow> http_result option \<Rightarrow> set_enclave_id_req \<Rightarrow> app_state \<Rightarrow>
     sidecar_call list \<times> (nat \<times> admin_body) \<times> app_state" where
  "set_enclave_id vars header put_answer req st =
     (case check_secret vars header of
        Inl resp \<Rightarrow> ([], resp, st)
      | Inr expected \<Rightarrow>
          (let oid = str_trim (si_enclave_object_id req)
           in if oid = [] then ([], (400, ErrorBody ''enclave_object_id required''), st)
              else
                (let st1 = st\<lparr>as_on_chain := Some \<lparr>
                       re_tx_digest = (case si_tx_digest req of None \<Rightarrow> [] | Some t \<Rightarrow> t),
                       re_enclave_object_id = oid\<rparr>\<rparr>;
                     sidecar_url = (case vars ''SIDECAR_URL'' of None \<Rightarrow> default_sidecar_url | Some u \<Rightarrow> u);
                     call = PutEnclaveId (sidecar_url @ ''/sui/set-enclave-id'') expected oid
                 in case put_answer of
                      None \<Rightarrow> ([], (200, SetEnclaveIdBody oid False), st1)
                    | Some answer \<Rightarrow> ([call], (200, SetEnclaveIdBody oid (health_ok answer)), st1))))"

record admin_codec =
  ac_parse_uuid :: "string \<Rightarrow> uuid option"
  ac_uuid_to_str :: "uuid \<Rightarrow> string"
  ac_rfc3339 :: "timestamptz \<Rightarrow> string"

definition payment_report_of :: "admin_codec \<Rightarrow> payment_row \<Rightarrow> payment_report" where
  "payment_report_of C r =
     \<lparr>py_id = ac_uuid_to_str C (pr_id r), py_request_id = ac_uuid_to_str C (pr_request_id r),
      py_payee_peer_id = pr_payee_peer_id r, py_payee_sui_address = pr_payee_sui_address r,
      py_amount_nanox = pr_amount_nanox r, py_status = pr_status r, py_tx_digest = pr_tx_digest r,
      py_created_at = ac_rfc3339 C (pr_created_at r),
      py_submitted_at = map_option (ac_rfc3339 C) (pr_submitted_at r),
      py_confirmed_at = map_option (ac_rfc3339 C) (pr_confirmed_at r)\<rparr>"

definition settlement_status ::
  "admin_codec \<Rightarrow> (string \<rightharpoonup> string) \<Rightarrow> string option \<Rightarrow> stmt_env \<Rightarrow> string \<Rightarrow> app_state \<Rightarrow> nat \<times> admin_body" where
  "settlement_status C vars header env request_id st =
     (case check_secret vars header of
        Inl resp \<Rightarrow> resp
      | Inr _ \<Rightarrow>
          (case ac_parse_uuid C request_id of
             None \<Rightarrow> (400, ErrorBody ''request_id is not a uuid'')
           | Some req_uuid \<Rightarrow>
               (case as_pg_pool st of
                  None \<Rightarrow> (503, ErrorBody ''pg pool not attached'')
                | Some d \<Rightarrow>
                    (case se_err env of
                       Some e \<Rightarrow> (500, ErrorBody (''query payments: '' @ e))
                     | None \<Rightarrow>
                         (200, SettlementStatusBody request_id
                           (map (payment_report_of C)
                             (sort_key pr_created_at (filter (\<lambda>r. pr_request_id r = req_uuid) (db_payments d)))))))))"

text \<open>\<^verbatim>\<open>ORDER BY created_at DESC LIMIT 50\<close>, and the same without a limit for the warm nodes.\<close>

definition session_turns :: "admin_codec \<Rightarrow> uuid \<Rightarrow> db \<Rightarrow> session_turn_row list" where
  "session_turns C sid d =
     map (\<lambda>t. \<lparr>st_turn_id = ac_uuid_to_str C (tr_turn_id t), st_request_id = tr_request_id t,
        st_node_peer_id = tr_node_peer_id t, st_input_tokens = tr_input_tokens t,
        st_output_tokens = tr_output_tokens t, st_latency_ms = tr_latency_ms t,
        st_created_at = ac_rfc3339 C (tr_created_at t)\<rparr>)
       (take 50 (rev (sort_key tr_created_at (filter (\<lambda>t. tr_session_id t = sid) (db_turns d)))))"

definition session_warm_nodes :: "admin_codec \<Rightarrow> uuid \<Rightarrow> db \<Rightarrow> warm_node_row list" where
  "session_warm_nodes C sid d =
     map (\<lambda>w. \<lparr>wn_node_peer_id = wr_node_peer_id w, wn_cache_tier = wr_cache_tier w,
        wn_last_served_at = ac_rfc3339 C (wr_last_served_at w)\<rparr>)
       (rev (sort_key wr_last_served_at (filter (\<lambda>w. wr_session_id w = sid) (db_node_session_cache d))))"

text \<open>A failed query of the turns or warm nodes yields no rows; only the session query can fail the request.\<close>

definition session_status ::
  "admin_codec \<Rightarrow> (string \<rightharpoonup> string) \<Rightarrow> string option \<Rightarrow> stmt_env \<Rightarrow> stmt_env \<Rightarrow> stmt_env \<Rightarrow> string \<Rightarrow> app_state \<Rightarrow>
     nat \<times> admin_body" where
  "session_status C vars header env_session env_turns env_warm session_id st =
     (case check_secret vars header of
        Inl resp \<Rightarrow> resp
      | Inr _ \<Rightarrow>
          (case ac_parse_uuid C session_id of
             None \<Rightarrow> (400, ErrorBody ''session_id is not a uuid'')
           | Some sid \<Rightarrow>
               (case as_pg_pool st of
                  None \<Rightarrow> (503, ErrorBody ''pg pool not attached'')
                | Some d \<Rightarrow>
                    (case se_err env_session of
                       Some e \<Rightarrow> (500, ErrorBody (''query sessions: '' @ e))
                     | None \<Rightarrow>
                         (case find (\<lambda>s. sr_session_id s = sid) (db_sessions d) of
                            None \<Rightarrow> (404, ErrorBody ''session not found'')
                          | Some s \<Rightarrow>
                              (200, SessionStatusBody
                                \<lparr>sx_session_id = session_id, sx_user_address = sr_user_address s,
                                 sx_model_id = sr_model_id s, sx_turn_count = sr_turn_count s,
                                 sx_total_tokens = sr_total_tokens s, sx_walrus_blob_id = sr_walrus_blob_id s,
                                 sx_prev_blob_id = sr_prev_blob_id s, sx_last_updated = ac_rfc3339 C (sr_last_updated s),
                                 sx_turns = (if se_err env_turns = None then session_turns C sid d else []),
                                 sx_warm_nodes = (if se_err env_warm = None then session_warm_nodes C sid d else [])\<rparr>))))))"

section \<open>The comparison\<close>

lemma foldl_or_zero:
  "foldl (\<lambda>diff (x, y). diff OR (x XOR y)) acc ps = (0 :: byte) \<longleftrightarrow> acc = 0 \<and> (\<forall>(x, y)\<in>set ps. x = y)"
proof (induction ps arbitrary: acc)
  case (Cons p ps)
  obtain x y where p: "p = (x, y)" by (cases p)
  have "acc OR (x XOR y) = 0 \<longleftrightarrow> acc = 0 \<and> x = y"
    by (auto simp: bit_eq_iff bit_or_iff bit_xor_iff)
  then show ?case using Cons by (auto simp: p)
qed simp

lemma constant_time_eq_iff: "constant_time_eq a b \<longleftrightarrow> a = b"
proof (cases "length a = length b")
  case True
  then have "(\<forall>(x, y)\<in>set (zip a b). x = y) \<longleftrightarrow> a = b"
    by (induction a b rule: list_induct2) auto
  then show ?thesis using True by (simp add: constant_time_eq_def foldl_or_zero)
qed (auto simp: constant_time_eq_def)

text \<open>
  The constant-time comparison, which never leaves its loop early, decides equality of the two byte
  strings.
\<close>

theorem constant_time_eq_is_equality: "constant_time_eq a b \<longleftrightarrow> a = b"
  by (rule constant_time_eq_iff)

lemma str_bytes_inj: "str_bytes s = str_bytes t \<longleftrightarrow> s = t"
proof -
  have "inj (\<lambda>c. of_nat (of_char c) :: byte)"
  proof (rule injI)
    fix c d :: char
    assume "(of_nat (of_char c) :: byte) = of_nat (of_char d)"
    then have "unat (of_nat (of_char c) :: byte) = unat (of_nat (of_char d) :: byte)" by simp
    moreover have "of_char c < (256 :: nat)" "of_char d < (256 :: nat)" by simp_all
    ultimately show "c = d" by (simp add: unsigned_of_nat take_bit_nat_eq_self)
  qed
  then show ?thesis by (simp add: str_bytes_def inj_map_eq_map)
qed

lemma check_secret_iff:
  "check_secret vars header = Inr s \<longleftrightarrow>
     (\<exists>raw. vars ''SIDECAR_SECRET'' = Some raw \<and> s = str_trim raw \<and>
        str_trim (case header of None \<Rightarrow> [] | Some v \<Rightarrow> v) = str_trim raw)"
proof (cases "vars ''SIDECAR_SECRET''")
  case None
  then show ?thesis by (simp add: check_secret_def)
next
  case (Some raw)
  let ?sup = "str_trim (case header of None \<Rightarrow> [] | Some v \<Rightarrow> v)"
  have "length (str_bytes ?sup) \<noteq> length (str_bytes (str_trim raw)) \<or>
      \<not> constant_time_eq (str_bytes ?sup) (str_bytes (str_trim raw)) \<longleftrightarrow> ?sup \<noteq> str_trim raw"
    by (auto simp: constant_time_eq_iff str_bytes_inj)
  then show ?thesis using Some by (auto simp: check_secret_def Let_def)
qed

lemma check_secret_denies:
  assumes "check_secret vars header = Inl resp"
  shows "\<exists>m. resp = (401, ErrorBody m) \<or> resp = (503, ErrorBody m)"
  using assms by (auto simp: check_secret_def Let_def split: option.splits if_splits)

section \<open>Access\<close>

text \<open>
  The admin endpoints act only for a caller whose header, trimmed, is the trimmed shared secret. For any
  other caller, setting the enclave id leaves the state as it was and contacts nobody, and all three
  endpoints answer 401 with the same fixed error and none of the data. For the right caller a
  non-blank id is recorded, and forwarded to the sidecar under the secret.
\<close>

theorem admin_requires_secret:
  assumes "vars ''SIDECAR_SECRET'' = Some raw"
    and "str_trim (si_enclave_object_id req) \<noteq> []"
    and "supplied = str_trim (case header of None \<Rightarrow> [] | Some h \<Rightarrow> h)"
  shows "if supplied \<noteq> str_trim raw then
      (\<exists>m. set_enclave_id vars header put_answer req st = ([], (401, ErrorBody m), st) \<and>
         settlement_status C vars header env rid st = (401, ErrorBody m) \<and>
         session_status C vars header e1 e2 e3 sid st = (401, ErrorBody m))
    else
      (\<exists>fwd calls. set_enclave_id vars header put_answer req st =
         (calls, (200, SetEnclaveIdBody (str_trim (si_enclave_object_id req)) fwd),
          st\<lparr>as_on_chain := Some \<lparr>re_tx_digest = (case si_tx_digest req of None \<Rightarrow> [] | Some t \<Rightarrow> t),
            re_enclave_object_id = str_trim (si_enclave_object_id req)\<rparr>\<rparr>) \<and>
         list_all (\<lambda>c. \<exists>url. c = PutEnclaveId url (str_trim raw) (str_trim (si_enclave_object_id req))) calls)"
proof (cases "supplied = str_trim raw")
  case False
  then have "check_secret vars header = Inl (401, ErrorBody ''bad or missing X-Sidecar-Secret'')"
    using assms(1,3) by (auto simp: check_secret_def Let_def constant_time_eq_iff str_bytes_inj)
  with False show ?thesis by (simp add: set_enclave_id_def settlement_status_def session_status_def)
next
  case True
  then have "check_secret vars header = Inr (str_trim raw)"
    using assms(1,3) by (simp add: check_secret_iff)
  with True show ?thesis using assms(2) by (auto simp: set_enclave_id_def Let_def split: option.split)
qed

definition sample_vars :: "string \<rightharpoonup> string" where
  "sample_vars = [''SIDECAR_SECRET'' \<mapsto> ''s3cret'']"

definition sample_set_id :: set_enclave_id_req where
  "sample_set_id = \<lparr>si_enclave_object_id = ''0xe'', si_tx_digest = None\<rparr>"

definition sample_app :: app_state where
  "sample_app = app_state_new sample_prims 0 [5]"

lemma sample_trims [simp]: "str_trim ''0xe'' = ''0xe''" "str_trim ''s3cret'' = ''s3cret''" "str_trim [] = []"
  by code_simp+

lemma admin_requires_secret_witness:
  "\<exists>m. set_enclave_id sample_vars None None sample_set_id sample_app = ([], (401, ErrorBody m), sample_app)"
proof -
  have "sample_vars ''SIDECAR_SECRET'' = Some ''s3cret''"
    by (simp add: sample_vars_def)
  then show ?thesis
    using admin_requires_secret [where vars = sample_vars and raw = "''s3cret''" and req = sample_set_id
        and supplied = "[]" and header = None and put_answer = None and st = sample_app]
    by (simp add: sample_set_id_def) blast
qed

end
