(* ===== verification/Http_Router.thy ===== *)
theory Http_Router
  imports Admin_Api
begin

text \<open>
  The HTTP surface (\<^verbatim>\<open>build_router\<close> in \<^verbatim>\<open>src/coordinator/src/lib.rs\<close>): the route table, and one
  request served by the handler its method and path select. What axum does is modelled as it documents
  it: a parameter matches one non-empty path segment, an unknown path is 404, a known path with
  another method 405, \<^verbatim>\<open>get\<close> also answers HEAD, and a body or path parameter that cannot be extracted
  is rejected before the handler runs.
\<close>

section \<open>Routes\<close>

datatype http_method = GET | HEAD | POST | OtherMethod string

datatype endpoint =
    EpHealth
  | EpEnclaveHealth
  | EpGetAttestation
  | EpChatCompletions
  | EpModels
  | EpNodes
  | EpProof
  | EpSetEnclaveId
  | EpSettlementStatus
  | EpSessionStatus

text \<open>A path pattern: literal segments and parameters.\<close>

datatype segment = Lit string | Param

definition routes :: "(segment list \<times> http_method \<times> endpoint) list" where
  "routes =
     [([Lit ''health''], GET, EpHealth),
      ([Lit ''enclave_health''], GET, EpEnclaveHealth),
      ([Lit ''get_attestation''], GET, EpGetAttestation),
      ([Lit ''v1'', Lit ''chat'', Lit ''completions''], POST, EpChatCompletions),
      ([Lit ''v1'', Lit ''models''], GET, EpModels),
      ([Lit ''v1'', Lit ''nodes''], GET, EpNodes),
      ([Lit ''v1'', Lit ''proofs'', Param], GET, EpProof),
      ([Lit ''v1'', Lit ''admin'', Lit ''set-enclave-id''], POST, EpSetEnclaveId),
      ([Lit ''v1'', Lit ''admin'', Lit ''settlements'', Param], GET, EpSettlementStatus),
      ([Lit ''v1'', Lit ''admin'', Lit ''sessions'', Param], GET, EpSessionStatus)]"

fun matches :: "segment list \<Rightarrow> string list \<Rightarrow> bool" where
  "matches [] [] \<longleftrightarrow> True"
| "matches (Lit s # ps) (x # xs) \<longleftrightarrow> x = s \<and> matches ps xs"
| "matches (Param # ps) (x # xs) \<longleftrightarrow> x \<noteq> [] \<and> matches ps xs"
| "matches _ _ \<longleftrightarrow> False"

definition route :: "http_method \<Rightarrow> string list \<Rightarrow> nat + endpoint" where
  "route meth path =
     (case find (\<lambda>(pat, _, _). matches pat path) routes of
        None \<Rightarrow> Inl 404
      | Some (_, m, ep) \<Rightarrow> if meth = m \<or> meth = HEAD \<and> m = GET then Inr ep else Inl 405)"

section \<open>Serving a request\<close>

text \<open>The request; a body is the parsed value or the status of the extractor's rejection.\<close>

record http_request =
  hr_method :: http_method
  hr_path :: "string list"
  hr_secret :: "string option"
  hr_chat :: "nat + chat_completion_request"
  hr_set_id :: "nat + set_enclave_id_req"

datatype http_body =
    TextBody string
  | HealthBody enclave_health_response
  | AttestationBody attestation_doc
  | ChatBody chat_completion_result
  | ModelsBody model_list
  | NodesBody "node_snapshot list"
  | ReceiptBody routing_receipt
  | AdminBody admin_body
  | AppErrorBody json
  | NoBody

record serve_env =
  sv_vars :: "string \<rightharpoonup> string"
  sv_api :: api_codec
  sv_chat :: chat_env
  sv_hex_encode :: "bytes \<Rightarrow> string"
  sv_peer_of_key :: "bytes \<Rightarrow> string option"
  sv_peer_to_str :: "peer_id \<Rightarrow> string"
  sv_addr_to_str :: "multiaddr \<Rightarrow> string"
  sv_now_ms :: u64
  sv_attest :: "bytes \<Rightarrow> bytes \<Rightarrow> string + attestation_doc"
  sv_receipt :: receipt_codec
  sv_admin :: admin_codec
  sv_stmt :: "nat \<Rightarrow> stmt_env"
  sv_put :: "http_result option"

definition app_result :: "('a \<Rightarrow> http_body) \<Rightarrow> app_error + 'a \<Rightarrow> nat \<times> http_body" where
  "app_result f r =
     (case r of
        Inl err \<Rightarrow> (case app_error_into_response err of (status, body) \<Rightarrow> (status, AppErrorBody body))
      | Inr x \<Rightarrow> (200, f x))"

text \<open>
  The status, the body and the state after the request, with the calls made on the mesh and on the
  sidecar; \<open>None\<close> while an auction is open. The chat handler works with the key and pool of the state.
\<close>

definition handle_endpoint ::
  "serve_env \<Rightarrow> endpoint \<Rightarrow> http_request \<Rightarrow> app_state \<Rightarrow> (mesh_call list \<times> sidecar_call list \<times> (nat \<times> http_body) \<times> app_state) option" where
  "handle_endpoint e ep req st =
     (case ep of
        EpHealth \<Rightarrow> Some ([], [], (200, TextBody health), st)
      | EpEnclaveHealth \<Rightarrow>
          Some ([], [], (200, HealthBody (enclave_health (ap_prims (sv_api e)) (sv_hex_encode e) (sv_peer_of_key e) (sv_now_ms e) st)), st)
      | EpGetAttestation \<Rightarrow>
          Some ([], [], app_result AttestationBody (get_attestation_handler (ap_prims (sv_api e)) (sv_attest e) st), st)
      | EpChatCompletions \<Rightarrow>
          (case hr_chat req of
             Inl status \<Rightarrow> Some ([], [], (status, NoBody), st)
           | Inr body \<Rightarrow>
               map_option (\<lambda>(calls, r). (calls, [], app_result ChatBody r, st))
                 (chat_completions ((sv_api e)\<lparr>ap_key := as_enclave_key st\<rparr>) ((sv_chat e)\<lparr>ch_pool := as_pg_pool st\<rparr>) body))
      | EpModels \<Rightarrow> Some ([], [], (200, ModelsBody (list_models st)), st)
      | EpNodes \<Rightarrow> Some ([], [], (200, NodesBody (list_nodes (sv_peer_to_str e) (sv_addr_to_str e) st)), st)
      | EpProof \<Rightarrow>
          (case ac_parse_uuid (sv_admin e) (last (hr_path req)) of
             None \<Rightarrow> Some ([], [], (400, NoBody), st)
           | Some rid \<Rightarrow> Some ([], [], app_result ReceiptBody (get_proof (sv_receipt e) (sv_stmt e 0) rid st), st))
      | EpSetEnclaveId \<Rightarrow>
          (case hr_set_id req of
             Inl status \<Rightarrow> Some ([], [], (status, NoBody), st)
           | Inr body \<Rightarrow>
               (case set_enclave_id (sv_vars e) (hr_secret req) (sv_put e) body st of
                  (calls, (status, b), st1) \<Rightarrow> Some ([], calls, (status, AdminBody b), st1)))
      | EpSettlementStatus \<Rightarrow>
          (case settlement_status (sv_admin e) (sv_vars e) (hr_secret req) (sv_stmt e 0) (last (hr_path req)) st of
             (status, b) \<Rightarrow> Some ([], [], (status, AdminBody b), st))
      | EpSessionStatus \<Rightarrow>
          (case session_status (sv_admin e) (sv_vars e) (hr_secret req) (sv_stmt e 0) (sv_stmt e 1) (sv_stmt e 2) (last (hr_path req)) st of
             (status, b) \<Rightarrow> Some ([], [], (status, AdminBody b), st)))"

definition serve ::
  "serve_env \<Rightarrow> http_request \<Rightarrow> app_state \<Rightarrow> (mesh_call list \<times> sidecar_call list \<times> (nat \<times> http_body) \<times> app_state) option" where
  "serve e req st =
     (case route (hr_method req) (hr_path req) of
        Inl status \<Rightarrow> Some ([], [], (status, NoBody), st)
      | Inr ep \<Rightarrow> handle_endpoint e ep req st)"

section \<open>Routing\<close>

lemma matches_lits: "matches (map Lit ss) path \<longleftrightarrow> path = ss"
proof (induction ss arbitrary: path)
  case Nil
  then show ?case by (cases path) auto
next
  case (Cons s ss)
  then show ?case by (cases path) auto
qed

lemma route_lits:
  assumes "route meth path = Inr ep" "\<forall>(pat, m, ep')\<in>set routes. ep' = ep \<longrightarrow> pat = map Lit lits \<and> m = POST"
  shows "path = lits" "meth = POST"
proof -
  obtain pat m where r: "find (\<lambda>(pat, _, _). matches pat path) routes = Some (pat, m, ep)"
      "meth = m \<or> meth = HEAD \<and> m = GET"
    using assms(1) by (auto simp: route_def split: option.splits if_splits prod.splits)
  from r(1) have "(pat, m, ep) \<in> set routes" and mt: "matches pat path"
    by (auto simp: find_Some_iff) (metis nth_mem)
  then have "pat = map Lit lits" "m = POST" using assms(2) by auto
  with mt r(2) show "path = lits" "meth = POST" by (auto simp only: matches_lits)
qed

lemma route_posts:
  "route meth path = Inr EpSetEnclaveId \<Longrightarrow> path = [''v1'', ''admin'', ''set-enclave-id''] \<and> meth = POST"
  "route meth path = Inr EpChatCompletions \<Longrightarrow> path = [''v1'', ''chat'', ''completions''] \<and> meth = POST"
  using route_lits [of meth path EpSetEnclaveId "[''v1'', ''admin'', ''set-enclave-id'']"]
    route_lits [of meth path EpChatCompletions "[''v1'', ''chat'', ''completions'']"]
  by (simp_all add: routes_def)

section \<open>Who can change the state, and who sees admin data\<close>

text \<open>What a request to replace the enclave id leaves behind and tells the sidecar.\<close>

definition enclave_of_req :: "set_enclave_id_req \<Rightarrow> registered_enclave" where
  "enclave_of_req req =
     \<lparr>re_tx_digest = (case si_tx_digest req of None \<Rightarrow> [] | Some t \<Rightarrow> t), re_enclave_object_id = str_trim (si_enclave_object_id req)\<rparr>"

definition put_of_req :: "(string \<rightharpoonup> string) \<Rightarrow> string \<Rightarrow> set_enclave_id_req \<Rightarrow> sidecar_call" where
  "put_of_req vars secret req =
     PutEnclaveId ((case vars ''SIDECAR_URL'' of None \<Rightarrow> default_sidecar_url | Some u \<Rightarrow> u) @ ''/sui/set-enclave-id'')
       secret (str_trim (si_enclave_object_id req))"

lemma set_enclave_id_effect:
  assumes "set_enclave_id vars header put_answer req st = (calls, resp, st')"
  shows "st' = st\<lparr>as_on_chain := as_on_chain st'\<rparr> \<and>
    (st' \<noteq> st \<or> calls \<noteq> [] \<longrightarrow> (\<exists>s. check_secret vars header = Inr s \<and>
       as_on_chain st' = Some (enclave_of_req req) \<and> (calls = [] \<or> calls = [put_of_req vars s req])))"
  using assms
  by (auto simp: set_enclave_id_def enclave_of_req_def put_of_req_def Let_def split: sum.splits option.splits if_splits)

definition admin_data :: "http_body \<Rightarrow> bool" where
  "admin_data b = (case b of AdminBody (ErrorBody _) \<Rightarrow> False | AdminBody _ \<Rightarrow> True | _ \<Rightarrow> False)"

lemma admin_data_simps [simp]:
  "\<not> admin_data (AdminBody (ErrorBody m))" "\<not> admin_data NoBody" "\<not> admin_data (TextBody t)"
  "\<not> admin_data (HealthBody h)" "\<not> admin_data (AttestationBody a)" "\<not> admin_data (ChatBody c)"
  "\<not> admin_data (ModelsBody ms)" "\<not> admin_data (NodesBody ns)" "\<not> admin_data (ReceiptBody r)"
  "\<not> admin_data (AppErrorBody j)"
  by (simp_all add: admin_data_def)

lemma app_result_admin: "app_result f r = (status, body) \<Longrightarrow> (\<And>x. \<not> admin_data (f x)) \<Longrightarrow> \<not> admin_data body"
  by (auto simp: app_result_def split: sum.splits prod.splits)

lemma handle_endpoint_effect:
  assumes "handle_endpoint e ep req st = Some (calls, sidecar, (status, body), st')"
  shows "ep \<noteq> EpSetEnclaveId \<Longrightarrow> st' = st \<and> sidecar = []"
    and "ep \<noteq> EpChatCompletions \<Longrightarrow> calls = []"
    and "admin_data body \<Longrightarrow> \<exists>s. check_secret (sv_vars e) (hr_secret req) = Inr s"
proof -
  show "ep \<noteq> EpSetEnclaveId \<Longrightarrow> st' = st \<and> sidecar = []"
    using assms by (cases ep) (auto simp: handle_endpoint_def split: option.splits sum.splits prod.splits)
  show "ep \<noteq> EpChatCompletions \<Longrightarrow> calls = []"
    using assms by (cases ep) (auto simp: handle_endpoint_def split: option.splits sum.splits prod.splits)
  show "\<exists>s. check_secret (sv_vars e) (hr_secret req) = Inr s" if "admin_data body"
  proof (rule ccontr)
    assume "\<not> ?thesis"
    then obtain r where r: "check_secret (sv_vars e) (hr_secret req) = Inl r"
      by (cases "check_secret (sv_vars e) (hr_secret req)") auto
    then obtain m where "r = (401, ErrorBody m) \<or> r = (503, ErrorBody m)" using check_secret_denies by blast
    with r assms that show False
      by (cases ep) (auto simp: handle_endpoint_def set_enclave_id_def settlement_status_def session_status_def
          dest: app_result_admin split: option.splits sum.splits prod.splits)
  qed
qed

text \<open>
  C22: No request without the shared secret changes the application state, reaches the sidecar, or sees
  admin data. Over the whole route table: the only part of the state a request can change is the
  registered enclave; if it changes, or the sidecar is called, the request was a POST to the admin
  endpoint that sets it, with the shared secret, the state now holds the id and digest of its body, and
  the sidecar got at most one call, with the secret and that same id. A successful admin answer of any kind was given to a
  holder of the secret. The mesh, which is not part of this state, is called only by a POST of a chat request.
\<close>

theorem state_changes_need_secret:
  assumes "serve e req st = Some (calls, sidecar, (status, body), st')"
  shows "st' = st\<lparr>as_on_chain := as_on_chain st'\<rparr> \<and>
    (st' \<noteq> st \<or> sidecar \<noteq> [] \<longrightarrow>
       hr_method req = POST \<and> hr_path req = [''v1'', ''admin'', ''set-enclave-id''] \<and>
       (\<exists>s set_id. check_secret (sv_vars e) (hr_secret req) = Inr s \<and> hr_set_id req = Inr set_id \<and>
          as_on_chain st' = Some (enclave_of_req set_id) \<and>
          (sidecar = [] \<or> sidecar = [put_of_req (sv_vars e) s set_id]))) \<and>
    (admin_data body \<longrightarrow> (\<exists>s. check_secret (sv_vars e) (hr_secret req) = Inr s)) \<and>
    (calls \<noteq> [] \<longrightarrow> hr_method req = POST \<and> hr_path req = [''v1'', ''chat'', ''completions''])"
proof (cases "route (hr_method req) (hr_path req)")
  case (Inl code)
  with assms show ?thesis by (auto simp: serve_def)
next
  case (Inr ep)
  then have h: "handle_endpoint e ep req st = Some (calls, sidecar, (status, body), st')"
    using assms by (simp add: serve_def)
  note eff = handle_endpoint_effect [OF h]
  have chat: "calls \<noteq> [] \<longrightarrow> hr_method req = POST \<and> hr_path req = [''v1'', ''chat'', ''completions'']"
    using eff(2) Inr route_posts(2) by blast
  show ?thesis
  proof (cases "ep = EpSetEnclaveId")
    case False
    with eff(1,3) chat show ?thesis by auto
  next
    case True
    have "st' = st\<lparr>as_on_chain := as_on_chain st'\<rparr> \<and>
      (st' \<noteq> st \<or> sidecar \<noteq> [] \<longrightarrow> (\<exists>s set_id. check_secret (sv_vars e) (hr_secret req) = Inr s \<and> hr_set_id req = Inr set_id \<and>
         as_on_chain st' = Some (enclave_of_req set_id) \<and> (sidecar = [] \<or> sidecar = [put_of_req (sv_vars e) s set_id])))"
      using h True set_enclave_id_effect [of "sv_vars e" "hr_secret req" "sv_put e" _ st]
      by (auto simp: handle_endpoint_def split: sum.splits prod.splits)
    with True Inr eff(3) chat route_posts(1) show ?thesis by blast
  qed
qed

definition sample_serve_env :: serve_env where
  "sample_serve_env = \<lparr>sv_vars = sample_vars, sv_api = sample_api, sv_chat = sample_chat_env, sv_hex_encode = chars_of_bytes,
     sv_peer_of_key = (\<lambda>b. Some (chars_of_bytes b)), sv_peer_to_str = (\<lambda>p. []), sv_addr_to_str = (\<lambda>a. []), sv_now_ms = 5,
     sv_attest = (\<lambda>k n. Inl ''no device''), sv_receipt = sample_receipt_codec,
     sv_admin = \<lparr>ac_parse_uuid = (\<lambda>_. None), ac_uuid_to_str = (\<lambda>_. []), ac_rfc3339 = (\<lambda>_. [])\<rparr>, sv_stmt = sample_env,
     sv_put = Some (Response 200 None)\<rparr>"

definition sample_http_request :: http_request where
  "sample_http_request = \<lparr>hr_method = POST, hr_path = [''v1'', ''admin'', ''set-enclave-id''], hr_secret = Some ''s3cret'',
     hr_chat = Inl 422, hr_set_id = Inr sample_set_id\<rparr>"

lemma sample_serve: "\<exists>status body st'. serve sample_serve_env sample_http_request sample_app =
      Some ([], [put_of_req sample_vars ''s3cret'' sample_set_id], (status, body), st') \<and> as_on_chain sample_app = None"
proof -
  have "route POST [''v1'', ''admin'', ''set-enclave-id''] = Inr EpSetEnclaveId" by code_simp
  moreover have "check_secret sample_vars (Some ''s3cret'') = Inr ''s3cret''"
    by (simp add: check_secret_iff sample_vars_def)
  ultimately show ?thesis
    by (simp add: serve_def handle_endpoint_def sample_http_request_def sample_serve_env_def set_enclave_id_def Let_def
        put_of_req_def sample_set_id_def sample_app_def app_state_new_def with_full_def with_full_archive_def
        with_full_archive_and_chain_def)
qed

lemma state_changes_need_secret_witness:
  "\<exists>status body st'. serve sample_serve_env sample_http_request sample_app =
      Some ([], [put_of_req sample_vars ''s3cret'' sample_set_id], (status, body), st') \<and>
    as_on_chain sample_app = None \<and> as_on_chain st' = Some (enclave_of_req sample_set_id)"
proof -
  obtain status body st' where s: "serve sample_serve_env sample_http_request sample_app =
      Some ([], [put_of_req sample_vars ''s3cret'' sample_set_id], (status, body), st')" "as_on_chain sample_app = None"
    using sample_serve by blast
  then have "as_on_chain st' = Some (enclave_of_req sample_set_id)"
    using state_changes_need_secret [OF s(1)] by (auto simp: sample_http_request_def)
  with s show ?thesis by blast
qed

end
