(* ===== verification/Mesh_Start.thy ===== *)
theory Mesh_Start
  imports Mesh_Handle
begin

text \<open>
  Starting the mesh: the composed behaviour of \<^verbatim>\<open>src/pinaivu-protocol/src/mesh/behaviour.rs\<close> and
  \<^verbatim>\<open>spawn_libp2p_mesh_full\<close> of \<^verbatim>\<open>src/coordinator/src/mesh/mod.rs\<close>. libp2p is a parameter: its errors
  are arguments, and what it is configured with is the result.
\<close>

section \<open>Network behaviour\<close>

definition PROTOCOL_VERSION :: string where
  "PROTOCOL_VERSION = ''/pinaivu/coordinator/1.0.0''"

definition KAD_PROTOCOL :: string where
  "KAD_PROTOCOL = ''/pinaivu/kad/1.0.0''"

definition COMPLETION_PROTOCOL :: string where
  "COMPLETION_PROTOCOL = ''/pinaivu/completion/1.0.0''"

definition INFERENCE_PROTOCOL :: string where
  "INFERENCE_PROTOCOL = ''/pinaivu/inference/1.0.0''"

definition RECRUIT_PROTOCOL :: string where
  "RECRUIT_PROTOCOL = ''/pinaivu/recruit/1.0.0''"

text \<open>
  The settings the composed behaviour is built with; times in milliseconds, sizes in bytes. A
  request-response protocol has the timeout set for it, \<open>None\<close> when it keeps libp2p's default.
\<close>

record behaviour_config =
  bh_gossip_heartbeat :: nat
  bh_gossip_strict :: bool
  bh_gossip_max_transmit :: nat
  bh_gossip_signed_by :: bytes
  bh_kad_protocol :: string
  bh_kad_query_timeout :: nat
  bh_identify_protocol :: string
  bh_identify_agent :: string
  bh_ping_interval :: nat
  bh_request_response :: "(string \<times> nat option) list"

text \<open>What libp2p decides while the mesh starts; \<open>me_pkg_version\<close> is the crate version the build sets.\<close>

record mesh_env =
  me_decode_secret :: "bytes \<Rightarrow> bytes option"
  me_pkg_version :: string
  me_tcp_err :: "string option"
  me_gossip_config_err :: "string option"
  me_gossip_init_err :: "string option"
  me_subscribe_err :: "string \<Rightarrow> string option"
  me_listen_err :: "multiaddr \<Rightarrow> string option"

definition behaviour_new :: "mesh_env \<Rightarrow> bytes \<Rightarrow> string + behaviour_config" where
  "behaviour_new e key =
     (case me_gossip_config_err e of
        Some err \<Rightarrow> Inl (''gossipsub config: '' @ err)
      | None \<Rightarrow>
          (case me_gossip_init_err e of
             Some err \<Rightarrow> Inl (''gossipsub init: '' @ err)
           | None \<Rightarrow>
               Inr \<lparr>bh_gossip_heartbeat = 1000, bh_gossip_strict = True, bh_gossip_max_transmit = 64 * 1024,
                    bh_gossip_signed_by = key, bh_kad_protocol = KAD_PROTOCOL, bh_kad_query_timeout = 30 * 1000,
                    bh_identify_protocol = PROTOCOL_VERSION,
                    bh_identify_agent = ''pinaivu-coordinator/'' @ me_pkg_version e, bh_ping_interval = 15 * 1000,
                    bh_request_response =
                      [(COMPLETION_PROTOCOL, None), (RECRUIT_PROTOCOL, None), (INFERENCE_PROTOCOL, Some (120 * 1000))]\<rparr>))"

text \<open>The identity is the key libp2p decodes from the secret bytes.\<close>

definition libp2p_identity_from_ed25519_secret :: "mesh_env \<Rightarrow> bytes \<Rightarrow> string + bytes" where
  "libp2p_identity_from_ed25519_secret e secret =
     (case me_decode_secret e secret of
        None \<Rightarrow> Inl ''decode ed25519 secret bytes into libp2p keypair''
      | Some identity \<Rightarrow> Inr identity)"

section \<open>Spawning\<close>

definition SUBSCRIBED_TOPICS :: "string list" where
  "SUBSCRIBED_TOPICS = [BIDS, ANNOUNCE, INFERENCE_ANY, REPUTATION]"

text \<open>The subscription loop: the topics subscribed so far are lost with the swarm when one fails.\<close>

fun subscribe_topics :: "mesh_env \<Rightarrow> string list \<Rightarrow> string + unit" where
  "subscribe_topics e [] = Inr ()"
| "subscribe_topics e (t # ts) =
     (case me_subscribe_err e t of
        Some err \<Rightarrow> Inl (''subscribe '' @ t @ '': '' @ err)
      | None \<Rightarrow> subscribe_topics e ts)"

record mesh_started =
  ms_behaviour :: behaviour_config
  ms_yamux_window :: nat
  ms_yamux_buffer :: nat
  ms_idle_timeout :: nat
  ms_topics :: "string list"
  ms_listen :: multiaddr
  ms_loop :: event_loop

definition spawn_libp2p_mesh_full ::
  "mesh_env \<Rightarrow> enclave_key_pair \<Rightarrow> multiaddr \<Rightarrow> peer_registry \<Rightarrow> archive \<Rightarrow> db option \<Rightarrow> settlement_job list option \<Rightarrow>
     string + mesh_started" where
  "spawn_libp2p_mesh_full e key listen_addr registry rcpt_archive pg_pool settlement_tx =
     (case libp2p_identity_from_ed25519_secret e (secret_bytes key) of
        Inl err \<Rightarrow> Inl err
      | Inr identity \<Rightarrow>
          (case me_tcp_err e of
             Some err \<Rightarrow> Inl (''tcp transport: '' @ err)
           | None \<Rightarrow>
               (case behaviour_new e identity of
                  Inl err \<Rightarrow> Inl (''compose behaviour: '' @ err)
                | Inr behaviour \<Rightarrow>
                    (case subscribe_topics e SUBSCRIBED_TOPICS of
                       Inl err \<Rightarrow> Inl err
                     | Inr _ \<Rightarrow>
                         (case me_listen_err e listen_addr of
                            Some err \<Rightarrow> Inl (''listen_on: '' @ err)
                          | None \<Rightarrow>
                              Inr \<lparr>ms_behaviour = behaviour, ms_yamux_window = 4 * 1024 * 1024,
                                   ms_yamux_buffer = 16 * 1024 * 1024, ms_idle_timeout = 300 * 1000,
                                   ms_topics = SUBSCRIBED_TOPICS, ms_listen = listen_addr,
                                   ms_loop = with_pg_and_settlement registry rcpt_archive pg_pool settlement_tx\<rparr>)))))"

definition spawn_libp2p_mesh_with_pg ::
  "mesh_env \<Rightarrow> enclave_key_pair \<Rightarrow> multiaddr \<Rightarrow> peer_registry \<Rightarrow> archive \<Rightarrow> db option \<Rightarrow> string + mesh_started" where
  "spawn_libp2p_mesh_with_pg e key listen_addr registry rcpt_archive pg_pool =
     spawn_libp2p_mesh_full e key listen_addr registry rcpt_archive pg_pool None"

definition spawn_libp2p_mesh ::
  "mesh_env \<Rightarrow> enclave_key_pair \<Rightarrow> multiaddr \<Rightarrow> peer_registry \<Rightarrow> archive \<Rightarrow> string + mesh_started" where
  "spawn_libp2p_mesh e key listen_addr registry rcpt_archive =
     spawn_libp2p_mesh_with_pg e key listen_addr registry rcpt_archive None"

section \<open>What a started mesh can do\<close>

lemma spawn_loop:
  "spawn_libp2p_mesh_full e key listen_addr registry rcpt_archive pg_pool settlement_tx = Inr mesh \<Longrightarrow>
    ms_loop mesh = with_pg_and_settlement registry rcpt_archive pg_pool settlement_tx"
  by (auto simp: spawn_libp2p_mesh_full_def split: sum.splits option.splits)

lemma gossip_topics:
  "handle_gossip_message C now src msg st \<noteq> Some st \<Longrightarrow> gm_topic msg \<in> set SUBSCRIBED_TOPICS"
  by (auto simp: handle_gossip_message_def SUBSCRIBED_TOPICS_def split: if_splits)

text \<open>
  A mesh that starts signs its gossip with the identity decoded from the enclave's signing key, is
  subscribed to every topic on which a message makes the event loop act, and keeps an idle connection
  open longer than it waits for an inference reply.
\<close>

theorem started_mesh_is_wired:
  assumes "spawn_libp2p_mesh_full e key listen_addr registry rcpt_archive pg_pool settlement_tx = Inr mesh"
  shows "me_decode_secret e (ek_signing_key key) = Some (bh_gossip_signed_by (ms_behaviour mesh)) \<and>
    (handle_gossip_message C now src msg st \<noteq> Some st \<longrightarrow> gm_topic msg \<in> set (ms_topics mesh)) \<and>
    list_all (\<lambda>(_, timeout). \<forall>t. timeout = Some t \<longrightarrow> t < ms_idle_timeout mesh) (bh_request_response (ms_behaviour mesh))"
  using assms gossip_topics [of C now src msg st]
  by (auto simp: spawn_libp2p_mesh_full_def libp2p_identity_from_ed25519_secret_def behaviour_new_def secret_bytes_def
      split: sum.splits option.splits)

definition sample_mesh_env :: mesh_env where
  "sample_mesh_env = \<lparr>me_decode_secret = Some, me_pkg_version = ''0.1.0'', me_tcp_err = None, me_gossip_config_err = None,
     me_gossip_init_err = None, me_subscribe_err = (\<lambda>_. None), me_listen_err = (\<lambda>_. None)\<rparr>"

lemma sample_mesh_starts:
  "\<exists>mesh. spawn_libp2p_mesh_full sample_mesh_env key listen_addr registry rcpt_archive pg_pool settlement_tx = Inr mesh"
  by (simp add: spawn_libp2p_mesh_full_def sample_mesh_env_def libp2p_identity_from_ed25519_secret_def behaviour_new_def
      SUBSCRIBED_TOPICS_def)

lemma sample_mesh_no_error:
  "spawn_libp2p_mesh_full sample_mesh_env key listen_addr registry rcpt_archive pg_pool settlement_tx \<noteq> Inl err"
  using sample_mesh_starts [of key listen_addr registry rcpt_archive pg_pool settlement_tx] by auto

lemma started_mesh_is_wired_witness:
  "\<exists>mesh. spawn_libp2p_mesh_full sample_mesh_env (key_pair_generate sample_prims [9]) (Multiaddr ''m'') (registry_new 600)
       (PgArchive []) None None = Inr mesh \<and> bh_gossip_signed_by (ms_behaviour mesh) = [9]"
proof -
  obtain mesh where m: "spawn_libp2p_mesh_full sample_mesh_env (key_pair_generate sample_prims [9]) (Multiaddr ''m'')
      (registry_new 600) (PgArchive []) None None = Inr mesh"
    using sample_mesh_starts by blast
  from started_mesh_is_wired [OF m] have "bh_gossip_signed_by (ms_behaviour mesh) = [9]"
    by (simp add: sample_mesh_env_def key_pair_generate_def)
  with m show ?thesis by blast
qed

end
