(* ===== verification/Coordinator_Main.thy ===== *)
theory Coordinator_Main
  imports Http_Router Mesh_Start Boot Jobs
begin

text \<open>
  The start of the coordinator process: \<^verbatim>\<open>run\<close> of \<^verbatim>\<open>src/coordinator/src/main.rs\<close> and the TLS helpers
  of \<^verbatim>\<open>main.rs\<close> and \<^verbatim>\<open>lib.rs\<close>. What the libraries decide (rustls, rcgen, libp2p, sqlx, redis, apalis) is in the arguments. Then what
  the wiring guarantees from the first step of the event loop on.
\<close>

section \<open>TLS\<close>

text \<open>\<^verbatim>\<open>str::split\<close> on one character.\<close>

fun split_on :: "char \<Rightarrow> string \<Rightarrow> string list" where
  "split_on c [] = [[]]"
| "split_on c (x # xs) =
     (if x = c then [] # split_on c xs
      else case split_on c xs of [] \<Rightarrow> [[x]] | y # ys \<Rightarrow> (x # y) # ys)"

definition strip_cr :: "string \<Rightarrow> string" where
  "strip_cr l = (if l \<noteq> [] \<and> last l = CHR 0x0D then butlast l else l)"

text \<open>
  \<^verbatim>\<open>str::lines\<close>: a line ends with a newline, optionally preceded by a carriage return; the last one
  need not.
\<close>

definition str_lines :: "string \<Rightarrow> string list" where
  "str_lines s =
     (let ls = split_on (CHR 0x0A) s
      in map strip_cr (butlast ls) @ (if last ls = [] then [] else [last ls]))"

definition pem_begin :: string where
  "pem_begin = ''-----BEGIN CERTIFICATE-----''"

definition pem_end :: string where
  "pem_end = ''-----END CERTIFICATE-----''"

definition cert_fingerprint_from_pem ::
  "(bytes \<Rightarrow> string option) \<Rightarrow> (string \<Rightarrow> bytes option) \<Rightarrow> (bytes \<Rightarrow> bytes) \<Rightarrow> (bytes \<Rightarrow> string) \<Rightarrow> bytes \<Rightarrow> string option" where
  "cert_fingerprint_from_pem from_utf8 base64_decode sha256 hex_encode pem =
     (case from_utf8 pem of
        None \<Rightarrow> None
      | Some text \<Rightarrow>
          (let b64 = concat (takeWhile (\<lambda>l. \<not> prefix pem_end l)
                 (drop 1 (dropWhile (\<lambda>l. \<not> prefix pem_begin l) (str_lines text))))
           in case base64_decode b64 of
                None \<Rightarrow> None
              | Some der \<Rightarrow> Some (hex_encode (sha256 der))))"

definition san_ips :: "env_vars \<Rightarrow> string list" where
  "san_ips vars =
     filter (\<lambda>s. s \<noteq> []) (split_on (CHR '','') (case vars ''PINAIVU_TLS_SAN_IPS'' of None \<Rightarrow> [] | Some s \<Rightarrow> s))"

text \<open>
  What rustls and rcgen answer: the error of building a configuration from PEM, and the certificate
  (PEM, key, DER) generated for some names.
\<close>

record tls_env =
  tl_from_pem :: "bytes \<Rightarrow> bytes \<Rightarrow> string option"
  tl_generate :: "string list \<Rightarrow> string + bytes \<times> bytes \<times> bytes"
  tl_from_utf8 :: "bytes \<Rightarrow> string option"
  tl_base64_decode :: "string \<Rightarrow> bytes option"
  tl_hex_encode :: "bytes \<Rightarrow> string"
  tl_into_bytes :: "string \<Rightarrow> bytes"

definition make_tls_config :: "tls_env \<Rightarrow> bytes \<Rightarrow> bytes \<Rightarrow> string + bytes \<times> bytes" where
  "make_tls_config T cert_pem key_pem =
     (case tl_from_pem T cert_pem key_pem of
        Some e \<Rightarrow> Inl (''TLS config from PEM: '' @ e)
      | None \<Rightarrow> Inr (cert_pem, key_pem))"

definition generate_self_signed_tls ::
  "tls_env \<Rightarrow> (bytes \<Rightarrow> bytes) \<Rightarrow> string list \<Rightarrow> string + (bytes \<times> bytes) \<times> string" where
  "generate_self_signed_tls T sha256 ips =
     (case tl_generate T (''localhost'' # ips) of
        Inl e \<Rightarrow> Inl (''rcgen: '' @ e)
      | Inr (cert_pem, key_pem, cert_der) \<Rightarrow>
          (let fingerprint = tl_hex_encode T (sha256 cert_der)
           in case tl_from_pem T cert_pem key_pem of
                Some e \<Rightarrow> Inl (''RustlsConfig from generated cert: '' @ e)
              | None \<Rightarrow> Inr ((cert_pem, key_pem), fingerprint)))"

definition select_tls :: "tls_env \<Rightarrow> (bytes \<Rightarrow> bytes) \<Rightarrow> env_vars \<Rightarrow> config \<Rightarrow> string + (bytes \<times> bytes) \<times> string" where
  "select_tls T sha256 vars cfg =
     (case (cf_tls_cert_pem cfg, cf_tls_key_pem cfg) of
        (Some cert, Some key) \<Rightarrow>
          (let cert_pem = tl_into_bytes T cert; key_pem = tl_into_bytes T key;
               fp = (case cert_fingerprint_from_pem (tl_from_utf8 T) (tl_base64_decode T) sha256 (tl_hex_encode T) cert_pem of
                       None \<Rightarrow> ''unknown'' | Some f \<Rightarrow> f)
           in case make_tls_config T cert_pem key_pem of Inl e \<Rightarrow> Inl e | Inr tls \<Rightarrow> Inr (tls, fp))
      | _ \<Rightarrow> generate_self_signed_tls T sha256 (san_ips vars))"

section \<open>The process\<close>

definition PEER_TTL :: nat where
  "PEER_TTL = 600 * 1000"

record main_env =
  mn_vars :: env_vars
  mn_prims :: enclave_prims
  mn_seed :: bytes
  mn_pg :: "nat \<Rightarrow> string + db"
  mn_migrate :: "db \<Rightarrow> string + unit"
  mn_redis_open :: "string + unit"
  mn_redis :: "nat \<Rightarrow> string + unit"
  mn_redis_ping :: "string + string"
  mn_job_store_err :: "string option"
  mn_client_builds :: bool
  mn_parse_multiaddr :: "string \<Rightarrow> string + multiaddr"
  mn_mesh :: mesh_env
  mn_attest :: "bytes \<Rightarrow> bytes \<Rightarrow> string + attestation_doc"
  mn_hex_decode :: "string \<Rightarrow> bytes option"
  mn_base64_encode :: "bytes \<Rightarrow> string"
  mn_tls :: tls_env
  mn_parse_socket :: "string \<Rightarrow> string + string"
  mn_now_ms :: u64

text \<open>
  What is running when the server accepts requests: the key, the mesh with its loop in the initial state, the
  application state, the client of the settlement worker if it was started, the registration task (its
  client and attestation) if it was started, the served certificate and the address.
\<close>

record coordinator =
  co_key :: enclave_key_pair
  co_mesh :: mesh_started
  co_state :: app_state
  co_settlement_worker :: "sidecar_client option"
  co_registration :: "(sidecar_client \<times> string) option"
  co_certificate :: "bytes \<times> bytes"
  co_bind :: string

definition registration_task :: "main_env \<Rightarrow> enclave_key_pair \<Rightarrow> (sidecar_client \<times> string) option" where
  "registration_task M key =
     (case sidecar_from_env (mn_vars M) (mn_client_builds M) of
        Inl _ \<Rightarrow> None
      | Inr sidecar \<Rightarrow>
          (case mn_attest M (public_key_bytes (mn_prims M) key) [] of
             Inl _ \<Rightarrow> None
           | Inr doc \<Rightarrow>
               (case mn_hex_decode M (ad_raw_cbor_hex doc) of
                  None \<Rightarrow> None
                | Some att_bytes \<Rightarrow> Some (sidecar, mn_base64_encode M att_bytes))))"

definition run :: "main_env \<Rightarrow> string + coordinator" where
  "run M =
     (case config_from_env (mn_vars M) of
        Inl e \<Rightarrow> Inl e
      | Inr cfg \<Rightarrow>
          (let key = key_pair_generate (mn_prims M) (mn_seed M)
           in case pg_connect (mn_pg M) (mn_migrate M) of
                Inl _ \<Rightarrow> Inl ''connect postgres''
              | Inr pool \<Rightarrow>
                  (case redis_connect (mn_redis_open M) (mn_redis M) (\<lambda>_. mn_redis_ping M) of
                     Inl _ \<Rightarrow> Inl ''connect redis''
                   | Inr _ \<Rightarrow>
                       (case pg_job_store_new (mn_job_store_err M) pool of
                         Inl _ \<Rightarrow> Inl ''init apalis job store''
                       | Inr _ \<Rightarrow>
                         (let worker = (case sidecar_from_env (mn_vars M) (mn_client_builds M) of
                                Inl _ \<Rightarrow> None | Inr sidecar \<Rightarrow> Some sidecar);
                              rcpt_archive = PgArchive (db_routing_receipts pool);
                              registry = registry_new PEER_TTL
                          in case mn_parse_multiaddr M (cf_libp2p_listen cfg) of
                               Inl e \<Rightarrow> Inl (''PINAIVU_LIBP2P_LISTEN must be a multiaddr: '' @ e)
                             | Inr listen_addr \<Rightarrow>
                                 (case spawn_libp2p_mesh_full (mn_mesh M) key listen_addr registry rcpt_archive (Some pool)
                                         (map_option (\<lambda>_. []) worker) of
                                    Inl e \<Rightarrow> Inl e
                                  | Inr mesh \<Rightarrow>
                                      (case select_tls (mn_tls M) (np_sha256 (mn_prims M)) (mn_vars M) cfg of
                                         Inl e \<Rightarrow> Inl e
                                       | Inr (tls, fp) \<Rightarrow>
                                           (let state = set_tls_cert_fingerprint fp (set_pg_pool pool
                                                  (with_full_archive_and_chain (mn_now_ms M) key registry rcpt_archive None))
                                            in case mn_parse_socket M (cf_bind_addr cfg) of
                                                 Inl e \<Rightarrow> Inl (''invalid PINAIVU_BIND: '' @ e)
                                               | Inr bind_addr \<Rightarrow>
                                                   Inr \<lparr>co_key = key,
                                                     co_mesh = mesh,
                                                     co_state = state, co_settlement_worker = worker,
                                                     co_registration = registration_task M key,
                                                     co_certificate = tls, co_bind = bind_addr\<rparr>))))))))"

text \<open>
  Serving, in milliseconds from its start: \<^verbatim>\<open>ctrl_c\<close> either fails at once or resolves at the signal, and
  the watcher then asks for a graceful shutdown with a grace period of 30 seconds. \<open>sh_drained t\<close> is when the
  last connection open at \<open>t\<close> ends. \<open>None\<close> stands for serving on.
\<close>

datatype ctrl_c = InstallFailed string | Pressed nat | NotPressed

definition shutdown_signal :: "ctrl_c \<Rightarrow> nat option" where
  "shutdown_signal c = (case c of InstallFailed _ \<Rightarrow> Some 0 | Pressed t \<Rightarrow> Some t | NotPressed \<Rightarrow> None)"

record server_env =
  sh_error :: "string option"
  sh_ctrl_c :: ctrl_c
  sh_drained :: "nat \<Rightarrow> nat"

definition serve_until_shutdown :: "server_env \<Rightarrow> (string + nat) option" where
  "serve_until_shutdown V =
     (case sh_error V of
        Some e \<Rightarrow> Some (Inl e)
      | None \<Rightarrow> map_option (\<lambda>t. Inr (min (sh_drained V t) (t + 30 * 1000))) (shutdown_signal (sh_ctrl_c V)))"

text \<open>The exit code of the process, once it ends.\<close>

definition coordinator_main :: "main_env \<Rightarrow> server_env \<Rightarrow> nat option" where
  "coordinator_main M V =
     (case run M of
        Inl _ \<Rightarrow> Some 1
      | Inr _ \<Rightarrow> map_option (\<lambda>r. case r of Inl _ \<Rightarrow> 1 | Inr _ \<Rightarrow> 0) (serve_until_shutdown V))"

text \<open>\<^verbatim>\<open>observability::init\<close>: the filter of the log output.\<close>

definition telemetry_filter :: "(string \<Rightarrow> bool) \<Rightarrow> env_vars \<Rightarrow> string" where
  "telemetry_filter parses vars =
     (case vars ''RUST_LOG'' of
        Some s \<Rightarrow> if parses s then s else ''coordinator=info,tower_http=info,libp2p_gossipsub=info,libp2p_swarm=info''
      | None \<Rightarrow> ''coordinator=info,tower_http=info,libp2p_gossipsub=info,libp2p_swarm=info'')"

text \<open>What the hook it installs prints on a panic, with the captured backtrace.\<close>

definition panic_report :: "string \<Rightarrow> string \<Rightarrow> string" where
  "panic_report info backtrace = ''PANIC: '' @ info @ [CHR 0x0A] @ ''backtrace:'' @ [CHR 0x0A] @ backtrace @ [CHR 0x0A]"

section \<open>Fingerprints\<close>

lemma split_on_not_Nil [simp]: "split_on c s \<noteq> []"
  by (induction c s rule: split_on.induct) (auto split: list.splits)

lemma split_on_line: "c \<notin> set l \<Longrightarrow> split_on c (l @ c # rest) = l # split_on c rest"
  by (induction l) (auto split: list.splits)

text \<open>Lines as a PEM writer emits them: no newline inside, no trailing carriage return.\<close>

definition pem_line :: "string \<Rightarrow> bool" where
  "pem_line l \<longleftrightarrow> CHR 0x0A \<notin> set l \<and> (l = [] \<or> last l \<noteq> CHR 0x0D)"

lemma str_lines_Cons: "pem_line l \<Longrightarrow> str_lines (l @ CHR 0x0A # rest) = l # str_lines rest"
  by (auto simp: str_lines_def split_on_line pem_line_def strip_cr_def Let_def)

definition unlines :: "string list \<Rightarrow> string" where
  "unlines ls = concat (map (\<lambda>l. l @ [CHR 0x0A]) ls)"

lemma str_lines_unlines: "list_all pem_line ls \<Longrightarrow> str_lines (unlines ls @ rest) = ls @ str_lines rest"
  by (induction ls) (simp_all add: unlines_def str_lines_Cons)

lemma pem_marks: "pem_line pem_begin" "pem_line pem_end" "\<not> prefix pem_begin pem_end"
  by code_simp+

text \<open>
  The fingerprint of an operator's certificate is that of its first certificate. For a PEM text with
  any lines before the first certificate, then its base64 body in lines of any length, and anything
  after it (the rest of the chain), the fingerprint is the hash of exactly the decoded body, the same
  value the self-signed path reports for a certificate with that DER encoding.
\<close>

theorem pem_fingerprint_is_first_certificate:
  assumes "from_utf8 pem = Some (unlines (before @ [pem_begin] @ body @ [pem_end]) @ rest)"
    and "list_all pem_line (before @ body)"
    and "list_all (\<lambda>l. \<not> prefix pem_begin l) before" and "list_all (\<lambda>l. \<not> prefix pem_end l) body"
    and "base64_decode (concat body) = Some der"
  shows "cert_fingerprint_from_pem from_utf8 base64_decode sha256 hex_encode pem = Some (hex_encode (sha256 der))"
proof -
  have "str_lines (unlines (before @ [pem_begin] @ body @ [pem_end]) @ rest) =
      before @ pem_begin # body @ pem_end # str_lines rest"
    using assms(2) pem_marks(1,2) str_lines_unlines [of "before @ [pem_begin] @ body @ [pem_end]" rest] by simp
  moreover have "dropWhile (\<lambda>l. \<not> prefix pem_begin l) (before @ pem_begin # xs) = pem_begin # xs" for xs
    using assms(3) by (induction before) auto
  moreover have "takeWhile (\<lambda>l. \<not> prefix pem_end l) (body @ pem_end # xs) = body" for xs
    using assms(4) by (induction body) auto
  ultimately show ?thesis using assms(1,5) by (simp add: cert_fingerprint_from_pem_def)
qed

lemma pem_fingerprint_is_first_certificate_witness:
  "cert_fingerprint_from_pem (\<lambda>_. Some (unlines ([] @ [pem_begin] @ [''TUlJ'', ''Qg==''] @ [pem_end]) @ pem_begin))
     (\<lambda>s. Some (bytes_of_chars s)) rev chars_of_bytes [] = Some (chars_of_bytes (rev (bytes_of_chars ''TUlJQg=='')))"
proof -
  have "list_all pem_line ([] @ [''TUlJ'', ''Qg==''])" "list_all (\<lambda>l. \<not> prefix pem_end l) [''TUlJ'', ''Qg=='']"
    by code_simp+
  then show ?thesis by (intro pem_fingerprint_is_first_certificate [OF refl]) simp_all
qed

section \<open>The wiring\<close>

lemma run_ok:
  assumes "run M = Inr co"
  obtains pool fp where
    "co_key co = key_pair_generate (mn_prims M) (mn_seed M)"
    "ms_loop (co_mesh co) = with_pg_and_settlement (registry_new PEER_TTL) (PgArchive (db_routing_receipts pool)) (Some pool)
       (map_option (\<lambda>_. []) (co_settlement_worker co))"
    "co_state co = set_tls_cert_fingerprint fp (set_pg_pool pool
       (with_full_archive_and_chain (mn_now_ms M) (co_key co) (registry_new PEER_TTL) (PgArchive (db_routing_receipts pool)) None))"
    "pg_connect (mn_pg M) (mn_migrate M) = Inr pool"
  using assms that
  by (auto simp: run_def Let_def spawn_loop split: sum.splits if_splits option.splits prod.splits)

text \<open>What an archive holds beyond the contents it started with was signed by this key.\<close>

definition archive_since :: "loop_codec \<Rightarrow> archive \<Rightarrow> archive \<Rightarrow> bool" where
  "archive_since C a0 a \<longleftrightarrow>
     (\<forall>f rid r. archive_get (lc_receipt C) f rid a = Inr (Some r) \<longrightarrow>
        own_receipt C rid r \<or> archive_get (lc_receipt C) f rid a0 = Inr (Some r))"

lemma ack_archive:
  assumes "codec_ok C"
  shows "el_archive (snd (handle_completion_ack C e sender ack st)) = el_archive st \<or>
    (\<exists>r. archive_put (lc_receipt C) (ae_archive e) r (el_archive st) =
           (Inr (), el_archive (snd (handle_completion_ack C e sender ack st))) \<and> own_receipt C (rr_request_id r) r)"
proof (cases "ack_valid C ack")
  case False
  then show ?thesis using handle_completion_ack_invalid [of C ack e sender st] by auto
next
  case True
  let ?r = "receipt_of_ack C (ae_now_ms e) sender ack (el_in_flight st (ca_request_id ack))"
  have "own_receipt C (rr_request_id ?r) ?r" using own_receipt_of_ack [OF assms] by simp
  then show ?thesis
    using handle_completion_ack_valid [OF True refl refl, of e sender st]
    by (cases "archive_put (lc_receipt C) (ae_archive e) ?r (el_archive st)")
      (auto simp: consumed_def simp del: receipt_of_ack_simps split: sum.splits)
qed

lemma loop_step_archive:
  assumes "codec_ok C" "loop_step C st st'"
  shows "el_archive st' = el_archive st \<or>
    (\<exists>e r. archive_put (lc_receipt C) e r (el_archive st) = (Inr (), el_archive st') \<and> own_receipt C (rr_request_id r) r)"
  using assms(2)
proof cases
  case (swarm e event out)
  show ?thesis
  proof (cases event)
    case (CompletionRequest peer request)
    then have "st' = snd (handle_completion_ack C e peer request st)"
      using swarm by (auto simp: handle_swarm_event_def split: prod.splits)
    then show ?thesis using ack_archive [OF assms(1), of e peer request st] by blast
  qed (use swarm in \<open>auto simp: handle_swarm_event_def finish_inference_def handle_gossip_message_def
        split: option.splits if_splits\<close>)
qed (auto simp: handle_command_def publish_request_def split: mesh_command.splits option.splits)

lemma archive_since_step:
  assumes "codec_ok C" "loop_step C st st'" "archive_since C a0 (el_archive st)"
  shows "archive_since C a0 (el_archive st')"
proof -
  have "own_receipt C rid r' \<or> archive_get (lc_receipt C) f rid a0 = Inr (Some r')"
    if put: "archive_put (lc_receipt C) e r (el_archive st) = (Inr (), el_archive st')" "own_receipt C (rr_request_id r) r"
      and get: "archive_get (lc_receipt C) f rid (el_archive st') = Inr (Some r')" for e r f rid r'
  proof (cases "rid = rr_request_id r")
    case True
    have "archive_get (lc_receipt C) (f\<lparr>se_err := None\<rparr>) rid (el_archive st') = Inr (Some r)"
      using archive.get_put_same [OF put(1)] assms(1) True by (simp add: codec_ok_def)
    with archive_get_err [OF get] have "r' = r" by simp
    then show ?thesis using put(2) True by simp
  next
    case False
    then have "archive_get (lc_receipt C) f rid (el_archive st) = Inr (Some r')"
      using archive.get_put_other [OF put(1) False, of f] get by simp
    then show ?thesis using assms(3) by (simp add: archive_since_def)
  qed
  then show ?thesis using loop_step_archive [OF assms(1,2)] assms(3) unfolding archive_since_def by metis
qed

interpretation archive_history: guarded_invariant "codec_ok C" "loop_step C" "\<lambda>st. archive_since C a0 (el_archive st)" for C a0
  by unfold_locales (rule archive_since_step)

text \<open>
  C6: The receipts the server hands out check against the key it publishes. The process started; its event
  loop, which signs with the enclave key, handled any events; a client asks for the receipt of a request
  while the archive is as the loop left it. The receipt then names that request, verifies, and carries the
  key whose hex form the health endpoint shows, unless the archive already held it when the process
  started: then an earlier process, with another key, may have signed it.
\<close>

theorem served_receipts_verify:
  assumes "run M = Inr co" and "codec_ok C"
    and "lc_ed C = np_ed (mn_prims M)" and "lc_key C = ek_signing_key (co_key co)"
    and "(loop_step C)\<^sup>*\<^sup>* (ms_loop (co_mesh co)) st"
    and "get_proof (lc_receipt C) f rid ((co_state co)\<lparr>as_receipt_archive := el_archive st\<rparr>) = Inr r"
  shows "rr_request_id r = rid \<and> receipt_verify (lc_hex_decode C) (lc_bcs C) (lc_ed C) r = Inr () \<and>
      hex_encode (rr_coordinator_pubkey r) = eh_public_key_hex (enclave_health (mn_prims M) hex_encode peer_id now (co_state co)) \<or>
    get_proof (lc_receipt C) f rid (co_state co) = Inr r"
proof -
  obtain pool fp where r: "ms_loop (co_mesh co) = with_pg_and_settlement (registry_new PEER_TTL) (PgArchive (db_routing_receipts pool))
         (Some pool) (map_option (\<lambda>_. []) (co_settlement_worker co))"
      "co_state co = set_tls_cert_fingerprint fp (set_pg_pool pool
         (with_full_archive_and_chain (mn_now_ms M) (co_key co) (registry_new PEER_TTL) (PgArchive (db_routing_receipts pool)) None))"
    using assms(1) by (rule run_ok)
  have same: "as_receipt_archive (co_state co) = el_archive (ms_loop (co_mesh co))" "as_enclave_key (co_state co) = co_key co"
    by (simp_all add: r with_pg_and_settlement_def set_tls_cert_fingerprint_def set_pg_pool_def with_full_archive_and_chain_def)
  have "archive_since C (el_archive (ms_loop (co_mesh co))) (el_archive st)"
    by (rule archive_history.reachable_guarded [OF assms(2,5)]) (simp add: archive_since_def)
  moreover have "archive_get (lc_receipt C) f rid (el_archive st) = Inr (Some r)"
    using assms(6) by (auto simp: get_proof_def split: sum.splits option.splits)
  ultimately have "own_receipt C rid r \<or> archive_get (lc_receipt C) f rid (el_archive (ms_loop (co_mesh co))) = Inr (Some r)"
    by (simp add: archive_since_def)
  then show ?thesis
    using assms(3,4)
    by (auto simp: own_receipt_def get_proof_def same enclave_health_def Let_def public_key_bytes_def)
qed

definition sample_tls :: tls_env where
  "sample_tls = \<lparr>tl_from_pem = (\<lambda>_ _. None), tl_generate = (\<lambda>names. Inr ([1], [2], [3])), tl_from_utf8 = (\<lambda>_. None),
     tl_base64_decode = (\<lambda>_. None), tl_hex_encode = chars_of_bytes, tl_into_bytes = bytes_of_chars\<rparr>"

definition sample_main :: main_env where
  "sample_main = \<lparr>mn_vars = [''DATABASE_URL'' \<mapsto> ''pg'', ''REDIS_URL'' \<mapsto> ''redis''], mn_prims = sample_prims, mn_seed = [9],
     mn_pg = (\<lambda>n. if n < 3 then Inl ''refused'' else Inr db_empty), mn_migrate = (\<lambda>_. Inr ()), mn_redis_open = Inr (),
     mn_redis = (\<lambda>_. Inr ()), mn_redis_ping = Inr ''PONG'', mn_job_store_err = None, mn_client_builds = True,
     mn_parse_multiaddr = (\<lambda>s. Inr (Multiaddr s)), mn_mesh = sample_mesh_env, mn_attest = (\<lambda>_ _. Inl ''no device''),
     mn_hex_decode = (\<lambda>_. None), mn_base64_encode = chars_of_bytes, mn_tls = sample_tls,
     mn_parse_socket = (\<lambda>s. Inr s), mn_now_ms = 0\<rparr>"

lemma sample_run: "\<exists>co. run sample_main = Inr co"
  by (auto simp: run_def sample_main_def config_from_env_def pg_connect_def redis_connect_def Let_def numeral_nat
      select_tls_def generate_self_signed_tls_def sample_tls_def sample_mesh_no_error
      split: sum.split)

lemma sample_run_pool: "pg_connect (mn_pg sample_main) (mn_migrate sample_main) = Inr db_empty"
  by (simp add: sample_main_def pg_connect_def numeral_nat)

lemma served_receipts_verify_witness:
  "\<exists>co st r. run sample_main = Inr co \<and> (loop_step sample_codec)\<^sup>*\<^sup>* (ms_loop (co_mesh co)) st \<and>
     get_proof sample_receipt_codec (sample_env 0) (Uuid (replicate 16 0)) ((co_state co)\<lparr>as_receipt_archive := el_archive st\<rparr>) = Inr r \<and>
     receipt_verify sample_hex_decode sample_bcs sample_ed r = Inr () \<and>
     chars_of_bytes (rr_coordinator_pubkey r) =
       eh_public_key_hex (enclave_health sample_prims chars_of_bytes (\<lambda>_. None) 0 (co_state co))"
proof -
  obtain co where co: "run sample_main = Inr co" using sample_run by blast
  obtain pool fp where r: "co_key co = key_pair_generate (mn_prims sample_main) (mn_seed sample_main)"
      "ms_loop (co_mesh co) = with_pg_and_settlement (registry_new PEER_TTL) (PgArchive (db_routing_receipts pool))
         (Some pool) (map_option (\<lambda>_. []) (co_settlement_worker co))"
      "co_state co = set_tls_cert_fingerprint fp (set_pg_pool pool
         (with_full_archive_and_chain (mn_now_ms sample_main) (co_key co) (registry_new PEER_TTL) (PgArchive (db_routing_receipts pool)) None))"
      "pg_connect (mn_pg sample_main) (mn_migrate sample_main) = Inr pool"
    using co by (rule run_ok)
  have pool: "pool = db_empty" using r(4) by (simp add: sample_run_pool)
  let ?st = "snd (handle_completion_ack sample_codec sample_ack_env (PeerId [1]) signed_ack (ms_loop (co_mesh co)))"
  let ?r = "receipt_of_ack sample_codec (ae_now_ms sample_ack_env) (PeerId [1]) signed_ack None"
  have reach: "(loop_step sample_codec)\<^sup>*\<^sup>* (ms_loop (co_mesh co)) ?st" by (rule r_into_rtranclp, rule ack_step)
  have arch: "el_archive (ms_loop (co_mesh co)) = PgArchive []" "el_in_flight (ms_loop (co_mesh co)) (ca_request_id signed_ack) = None"
    by (simp_all add: r(2) pool with_pg_and_settlement_def db_empty_def)
  have put: "archive_put sample_receipt_codec (ae_archive sample_ack_env) ?r (PgArchive []) = (Inr (), el_archive ?st)"
    using handle_completion_ack_valid [OF signed_ack_valid arch(2) [symmetric] refl, of sample_ack_env "PeerId [1]"]
      sample_storage(1) [of ?r "[]"] arch(1)
    by (cases "archive_put sample_receipt_codec (ae_archive sample_ack_env) ?r (PgArchive [])")
      (auto simp: consumed_def simp del: receipt_of_ack_simps split: sum.splits)
  have "archive_get sample_receipt_codec (sample_env 0) (rr_request_id ?r) (el_archive ?st) = Inr (Some ?r)"
    using archive.get_put_same [OF put, of "sample_env 0"] sample_codec_ok by (simp add: codec_ok_def sample_env_def)
  then have g: "get_proof (lc_receipt sample_codec) (sample_env 0) (Uuid (replicate 16 0))
      ((co_state co)\<lparr>as_receipt_archive := el_archive ?st\<rparr>) = Inr ?r"
    by (simp add: get_proof_def)
  have "get_proof (lc_receipt sample_codec) (sample_env 0) (Uuid (replicate 16 0)) (co_state co) = Inl NotFound"
    by (simp add: get_proof_def r(3) pool set_tls_cert_fingerprint_def set_pg_pool_def with_full_archive_and_chain_def
        archive_get_def pg_get_def db_empty_def sample_env_def)
  with served_receipts_verify [OF co sample_codec_ok _ _ reach g, of chars_of_bytes "\<lambda>_. None" 0]
  show ?thesis
    using co reach g
    by (intro exI [of _ co] exI [of _ ?st] exI [of _ ?r])
      (simp add: r(1) sample_main_def sample_prims_def key_pair_generate_def sample_codec_def)
qed

section \<open>The end of the process\<close>

text \<open>
  The process of a coordinator that started ends in exactly two ways: with code 1 when the server fails, and with
  code 0 at most 30 seconds after the shutdown signal. A failure to install the signal handler counts as the
  signal: it is logged, and the watcher goes on to shut the server down.
\<close>

theorem coordinator_exit:
  assumes "run M = Inr co"
  shows "coordinator_main M V = Some 1 \<longleftrightarrow> sh_error V \<noteq> None"
    and "sh_error V = None \<Longrightarrow> sh_ctrl_c V = NotPressed \<Longrightarrow> coordinator_main M V = None"
    and "sh_error V = None \<Longrightarrow> sh_ctrl_c V = Pressed t \<Longrightarrow>
      coordinator_main M V = Some 0 \<and> (\<exists>u \<le> t + 30000. serve_until_shutdown V = Some (Inr u))"
    and "sh_error V = None \<Longrightarrow> sh_ctrl_c V = InstallFailed err \<Longrightarrow>
      coordinator_main M V = Some 0 \<and> (\<exists>u \<le> 30000. serve_until_shutdown V = Some (Inr u))"
  using assms by (auto simp: coordinator_main_def serve_until_shutdown_def shutdown_signal_def split: option.split ctrl_c.split)

end
