(* ===== verification/Spec2Isabelle.thy ===== *)
theory Spec2Isabelle
  imports Recruit_Proto Schema Prompt_Encryption Restarts Peer_Liveness Mesh_Trait Ledger_History Init_Process Coordinator_Main
begin

text \<open>
  A verification library for the Pinaivu coordinator, the Rust program under \<^verbatim>\<open>src/\<close>.

  \<^bold>\<open>The program.\<close> A coordinator runs inside a Nitro enclave and sells inference on a
  peer-to-peer market. A client posts a chat request; the coordinator broadcasts it, collects bids for a fixed
  window, picks a winner, signs a dispatch token and sends the job. The serving node answers the coordinator,
  which returns the content to the client, and then sends the coordinator a signed completion ack with one proof
  of inference per contributing node. The coordinator checks it, signs a routing receipt with the payouts,
  archives it, books one payment row per payout and queues a settlement job, whose worker asks a sidecar process
  to pay on chain. Around this stand the HTTP API, the admin endpoints, the deadline watcher, the on-chain
  registration, the start of the process, and the init process that boots the enclave and forwards its log.

  \<^bold>\<open>Conventions.\<close> A struct is a record, an enum a datatype, a u64/u32/i64 a word of that width; f32 is
  binary32 with NaN and infinities over the rationals (\<^verbatim>\<open>F32\<close>). A stateful operation takes the state
  and returns it updated; a Result is a sum with the error on the left. Hashes, signatures, serde, BCS,
  hex, base64, libp2p, rustls, Postgres connections and the operating system are arguments: records of
  functions (codecs) and of outcomes (environments), one outcome per call the source makes, so that each
  error path is a branch. What is assumed of them is stated where it is used: \<open>ed25519_correct\<close> and
  \<open>no_forgery\<close>, injectivity of the encoders, \<open>storable\<close>, \<open>x25519_agrees\<close>,
  \<open>send_contract\<close>, \<open>fills_buffer\<close>, \<open>prompt_libraries\<close>; the \<open>sample_\<close> definitions of the theories instantiate them and
  serve the witnesses.

  \<^bold>\<open>Theories.\<close>
  \<^item> \<^verbatim>\<open>Coord_Prelude\<close>: types, simp collections, list and string functions of the standard library, the locale
    \<open>step_invariant\<close> (an invariant kept by a step relation holds in every reachable state) and
    \<open>guarded_invariant\<close> (kept under a condition on the parameters), interpreted by each component with a
    step relation.
  \<^item> \<^verbatim>\<open>F32\<close>, \<^verbatim>\<open>Wire_Types\<close> (\<^verbatim>\<open>types.rs\<close>, \<^verbatim>\<open>topics.rs\<close>, the protocol messages), \<^verbatim>\<open>Signing\<close> (the locale of a signed
    record: verification of what was signed, and that a signature binds the canonical bytes),
    \<^verbatim>\<open>Sample_Codecs\<close> (concrete encoders).
  \<^item> \<^verbatim>\<open>Proof_Of_Inference\<close>, \<^verbatim>\<open>Dispatch_Token\<close>, \<^verbatim>\<open>Routing_Receipt\<close>, \<^verbatim>\<open>Completion_Proto\<close>, \<^verbatim>\<open>Recruit_Proto\<close>: the
    signed records of \<^verbatim>\<open>pinaivu-protocol\<close>, each an interpretation of the signing locale, with what a
    signature commits to and what it does not.
  \<^item> \<^verbatim>\<open>Schema\<close>, \<^verbatim>\<open>Database\<close>: the migrations and the tables with their keys. \<^verbatim>\<open>Payments\<close>, \<^verbatim>\<open>Receipts\<close> (both archives
    under one locale), \<^verbatim>\<open>Settlement\<close>, \<^verbatim>\<open>Jobs\<close>, \<^verbatim>\<open>Sidecar\<close>, \<^verbatim>\<open>Settlement_Worker\<close>: the persistent side. \<^verbatim>\<open>Ledger_History\<close>:
    every write of the coordinator as a step on the tables, and the types the rows keep.
  \<^item> \<^verbatim>\<open>Auction\<close>: \<^verbatim>\<open>marketplace/auction.rs\<close>, scores in binary32 and the choice of the winner.
  \<^item> \<^verbatim>\<open>Peer_Registry\<close> (refines a map with expiry), \<^verbatim>\<open>Peer_Liveness\<close> (the registry over time), \<^verbatim>\<open>Event_Loop\<close> (every command, swarm event and the step
    relation \<open>loop_step\<close>), \<^verbatim>\<open>Event_Loop_Props\<close> (one ack: accepted, rejected, replayed, storage failing),
    \<^verbatim>\<open>Event_Loop_Invariants\<close> (all executions), \<^verbatim>\<open>Mesh_Handle\<close>, \<^verbatim>\<open>Mesh_Trait\<close> (the locale of a source of bids,
    with the idle, the in-memory and the libp2p mesh as interpretations), \<^verbatim>\<open>Mesh_Start\<close>: the mesh. \<^verbatim>\<open>Mesh_Handle\<close> also has
    executions as lists of inputs (\<open>run_inputs\<close>: swarm events, commands, evictions, receives) and the first-in-first-out law of
    the bid channels.
  \<^item> \<^verbatim>\<open>Payment_System\<close>: event loop, forwarding task, job storage, settlement worker and deadline watcher as
    one step relation \<open>sys_step\<close> on one database, with the invariant of the payment path;
    \<^verbatim>\<open>Payment_Props\<close>: what its reachable states satisfy. \<^verbatim>\<open>Restarts\<close>: the process is restarted any number of
    times (\<open>deploy_step\<close>). A restart keeps the tables, the archive in Postgres and the stored settlement jobs, takes a fresh
    key, and loses the requests in flight and the settlement channel; a crash is a run of failing statements
    followed by a restart. The theorems on the payment path are stated there.
  \<^item> \<^verbatim>\<open>Prompt_Encryption\<close>: the client's side of an encrypted prompt, from the repository's own client, against the handler.
  \<^item> \<^verbatim>\<open>Enclave_Crypto\<close>, \<^verbatim>\<open>Inference_Api\<close>, \<^verbatim>\<open>App_State\<close>, \<^verbatim>\<open>Admin_Api\<close>, \<^verbatim>\<open>Http_Router\<close>: keys, the chat handler, the
    shared state and read-only endpoints, the admin endpoints, and the router over all of them.
  \<^item> \<^verbatim>\<open>Boot\<close>, \<^verbatim>\<open>System_Calls\<close>, \<^verbatim>\<open>Log_Forwarder\<close>, \<^verbatim>\<open>Init_Process\<close>, \<^verbatim>\<open>Coordinator_Main\<close>: configuration and connection
    retries, the wrappers of \<^verbatim>\<open>src/system\<close> and \<^verbatim>\<open>src/aws\<close>, \<^verbatim>\<open>log_forwarder\<close>, PID 1, and \<^verbatim>\<open>run\<close> of
    the coordinator with its TLS helpers.
  \<^item> This theory: the chain from a signed receipt to the sidecar calls, from the winning bid to the payout,
    and from the boot-time entropy to the admin secret.

  \<^bold>\<open>What is shown.\<close> Money: a valid ack books exactly the payouts of the receipt it signs,
  the worker pays each row once and in order, a replay pays nothing, the auction's winner is paid at its own
  address. Over all interleavings of the payment path and all restarts of the process, the sidecar is asked only
  for payouts the receipt of a request lists, for each at most once when the statements that record calls
  succeed, and a job is acknowledged only when every row of its request was sent; the event loop inside that
  system makes only steps of \<open>loop_step\<close>, so its invariants carry over. Signatures: receipts,
  tokens, proofs and acks are tamper evident in the stated fields, and every receipt the server hands out
  verifies under the key it publishes. State: registry, archive, tables and bid channels keep their invariants
  in every execution, and a peer listed in the registry announced itself within the time to live and one
  eviction interval. Access: only the shared secret changes state over HTTP. Start-up: pushed configuration
  arrives unchanged, an encrypted prompt is served like the plain one, interrupted migrations resume, the
  coordinator starts only in a prepared enclave. Liveness and termination: the event loop waits only on a full
  bid channel, the log is drained, the entropy and send loops end under the contract of their calls. The
  weaknesses of the code are theorems as well: an ack or bid of a stranger can set a price or redirect a payout,
  a replay erases archived payouts, a storage error loses them, a full settlement channel leaves a request
  unpaid for good, an ack that comes before the payout addresses uses its request up unpaid, a restart forgets
  the requests in flight, a lost status update leaves a paid row recorded as failed, failing entropy opens the
  admin endpoints, and warmth counts only for sessions that another program registered.

  \<^bold>\<open>Bounds and fuel.\<close> No fuel is used. Loops over lists are structural; the connection retries (10) and
  registration attempts (5) are the source's bounds; the two loops the source does not bound
  (\<open>nsm_loop\<close>, \<open>send_loop\<close>) are partial functions into option, with termination proved from the
  contract of the call. The infinite loops (event loop, log forwarder) are step relations or lists of
  iterations.

  \<^bold>\<open>Atomicity.\<close> A handler of the event loop is one step: the source runs it to completion on
  one task. Other tasks interleave between steps (\<open>recv_bid\<close>, \<open>drop_receiver\<close>,
  \<open>forward_job\<close>, \<open>other_writer\<close>). The archive and the pool of the loop are separate
  fields although both are in one Postgres; no statement of the loop touches the receipts table through the
  pool. In \<open>sys_step\<close> the settlement worker is taken apart: one row of one job is a step, so acks,
  other jobs and status updates run between two rows. The call of the sidecar and the statement that records it
  are one step; between them only the row of the job itself matters, and no other task writes it. Published ids,
  bookings and calls are history variables that no operation reads. The flag \<open>strict\<close> restricts
  executions to those in which the recording statements succeed. A statement that reports an error took no
  effect, and the job storage hands the job of a request to one worker at a time.

  \<^bold>\<open>Not modelled.\<close> The bodies of third-party libraries (libp2p, axum, apalis, sqlx, rustls)
  and of the TypeScript sidecar; tracing and printed progress lines; the log subscriber of
  \<^verbatim>\<open>observability\<close> and the installation of its panic hook; the unit tests and the TCP
  listener they use; \<^verbatim>\<open>marketplace/dispatch.rs\<close>,
  \<^verbatim>\<open>marketplace/completion.rs\<close> and \<^verbatim>\<open>reputation/verify.rs\<close> (doc
  comments). Wall-clock delays between retries are not modelled; clocks are read as arguments.
\<close>

section \<open>From the signed receipt to the sidecar\<close>

lemma new_rows_created:
  "map pr_created_at (new_rows env i rid lines) = map (\<lambda>k. se_now (env k)) [i..<i + length lines]"
proof (induction lines arbitrary: i)
  case (Cons l ls)
  then show ?case by (simp add: pending_row_def upt_conv_Cons del: upt_Suc)
qed simp

text \<open>The rows an ack appends are the only pending ones, in the order of their creation.\<close>

lemma pending_rows_appended:
  assumes "db_payments d' = db_payments d @ new_rows env 0 rid lines"
    and "list_all (\<lambda>r. \<not> is_pending rid r) (db_payments d)"
    and "sorted (map (\<lambda>k. se_now (env k)) [0..<length lines])"
  shows "pending_rows rid d' = new_rows env 0 rid lines"
proof -
  have "filter (is_pending rid) (db_payments d) = []"
    using assms(2) by (simp add: filter_empty_conv list_all_iff)
  then have "pending_rows rid d' = sort_key pr_created_at (new_rows env 0 rid lines)"
    by (simp add: pending_rows_def assms(1))
  also have "\<dots> = new_rows env 0 rid lines"
    using assms(3) new_rows_created [of env 0 rid lines] by (intro sort_key_id_if_sorted) simp
  finally show ?thesis .
qed

lemma settle_calls_of_rows:
  "map (settle_call w receipt) (new_rows env i rid lines) = map (payout_call w receipt) (payouts_of_lines lines)"
  by (induction lines arbitrary: i) (simp_all add: payouts_of_lines_def settle_call_def payout_call_def pending_row_def)

text \<open>
  C1: What the enclave signed is what the sidecar is asked to pay. A valid ack for a request in flight
  is handled, its receipt lists at least one payout and is stored, the row inserts execute with fresh ids at times that
  do not decrease, a settlement worker is attached and its channel has room, and no earlier row of the
  request is pending. Then one settlement job is queued, and the worker's run of it, with its
  statements executing and the receipt read back as it was written, sends the sidecar exactly one
  settle request per payout of the signed receipt, in order, with that payout's address and amount
  and the receipt's signature, and leaves no row of the request pending.
\<close>

theorem signed_payouts_are_settled:
  assumes "ack_valid C ack" and "el_in_flight st (ca_request_id ack) = Some m"
    and "el_pg_pool st = Some d" and "el_settlement st = Some q" and "ae_try_send e"
    and "receipt = receipt_of_ack C (ae_now_ms e) sender ack (Some m)" and "rr_payouts receipt \<noteq> []"
    and "fst (archive_put (lc_receipt C) (ae_archive e) receipt (el_archive st)) = Inr ()"
    and "\<forall>i. se_err (ae_insert e i) = None"
    and "fresh_ids (ae_insert e) 0 (length (rr_payouts receipt)) (db_payments d)"
    and "sorted (map (\<lambda>i. se_now (ae_insert e i)) [0..<length (rr_payouts receipt)])"
    and "list_all (\<lambda>r. \<not> is_pending (ca_request_id ack) r) (db_payments d)"
    and "handle_completion_ack C e sender ack st = (resp, st')"
    and "el_pg_pool st' = Some d'" and "db_wf d"
    and "lc_receipt_to_str C receipt = Some s" and "we_receipt_from_str w s = Some receipt"
    and "se_err (we_select w) = None" and "\<forall>i. se_err (we_mark w i) = None"
    and "job = settlement_job_of C receipt (ca_request_id ack)"
    and "handle_settlement w job d' = (calls, r, d'')"
  shows "el_settlement st' = Some (q @ [job]) \<and>
    calls = map (payout_call w receipt) (rr_payouts receipt) \<and> r = Inr () \<and>
    list_all (\<lambda>x. \<not> is_pending (ca_request_id ack) x) (db_payments d'')"
proof -
  let ?rid = "ca_request_id ack" and ?lines = "compute_payouts ack (meta_addresses (Some m))"
  note eff = accepted_ack_state [OF assms(1-3,6,8-10,13)]
  have pay: "rr_payouts receipt = payouts_of_lines ?lines" by (simp add: assms(6))
  then have len: "length (rr_payouts receipt) = length ?lines" by (simp add: payouts_of_lines_def)
  have rows: "pending_rows ?rid d' = new_rows (ae_insert e) 0 ?rid ?lines"
    by (rule pending_rows_appended) (use eff(4) assms(11,12,14) len in auto)
  have job: "sj_request_id job = ?rid" "we_receipt_from_str w (sj_receipt_json job) = Some receipt"
    using assms(16,17) by (simp_all add: assms(20) settlement_job_of_def)
  have h: "calls = map (settle_call w receipt) (pending_rows ?rid d')" "r = Inr ()"
      "db_payments d'' = map (mark_rows w 0 (pending_rows ?rid d')) (db_payments d')"
    using handle_settlement_eq [OF assms(18) _ job(2), of d'] assms(19,21) job(1) by auto
  have "list_all (\<lambda>x. \<not> is_pending ?rid x) (db_payments d'')"
    using mark_rows_pending(1) [OF ack_pool_wf [OF _ assms(13,14)]] assms(3,15) by (simp add: h(3) list_all_iff)
  then show ?thesis
    using eff(5) assms(4,5,7,20) h(1,2) rows settle_calls_of_rows [of w receipt] pay by simp
qed

definition sample_settler :: "routing_receipt \<Rightarrow> worker_env" where
  "sample_settler r = sample_worker\<lparr>we_receipt_from_str := (\<lambda>_. Some r)\<rparr>"

lemma signed_payouts_are_settled_witness:
  "let receipt = receipt_of_ack sample_codec (ae_now_ms sample_ack_env) (PeerId [1]) signed_ack (Some sample_meta);
       st' = snd (handle_completion_ack sample_codec sample_ack_env (PeerId [1]) signed_ack sample_loop)
   in \<exists>d' job. el_pg_pool st' = Some d' \<and> el_settlement st' = Some [job] \<and>
        fst (handle_settlement (sample_settler receipt) job d') =
          map (payout_call (sample_settler receipt) receipt) (rr_payouts receipt)"
proof -
  let ?r = "receipt_of_ack sample_codec (ae_now_ms sample_ack_env) (PeerId [1]) signed_ack (Some sample_meta)"
  let ?job = "settlement_job_of sample_codec ?r (ca_request_id signed_ack)"
  obtain resp st' where h: "handle_completion_ack sample_codec sample_ack_env (PeerId [1]) signed_ack sample_loop = (resp, st')"
    by (cases "handle_completion_ack sample_codec sample_ack_env (PeerId [1]) signed_ack sample_loop")
  have pay: "length (rr_payouts ?r) = 1" by (rule sample_payouts)
  then have ne: "rr_payouts ?r \<noteq> []" by (metis list.size(3) zero_neq_one)
  have ids: "fresh_ids (ae_insert sample_ack_env) 0 (length (rr_payouts ?r)) (db_payments db_empty)"
    unfolding pay by (simp add: fresh_ids_def db_empty_def)
  have ord: "sorted (map (\<lambda>i. se_now (ae_insert sample_ack_env i)) [0..<length (rr_payouts ?r)])"
    unfolding pay by simp
  have str: "lc_receipt_to_str sample_codec ?r = Some (rr_client_id ?r)" by (simp add: sample_codec_def)
  have env: "\<forall>i. se_err (ae_insert sample_ack_env i) = None" "ae_try_send sample_ack_env"
    by (simp_all add: sample_ack_env_def sample_env_def)
  have put: "fst (archive_put (lc_receipt sample_codec) (ae_archive sample_ack_env) ?r (el_archive sample_loop)) = Inr ()"
    using sample_storage(1) by simp
  have fl: "el_in_flight sample_loop (ca_request_id signed_ack) = Some sample_meta" by simp
  obtain d' where d': "el_pg_pool st' = Some d'"
    using accepted_ack_state(4) [OF signed_ack_valid fl sample_loop_simps(2) refl put env(1) ids h] by auto
  obtain calls r d'' where w: "handle_settlement (sample_settler ?r) ?job d' = (calls, r, d'')"
    by (cases "handle_settlement (sample_settler ?r) ?job d'")
  have "el_settlement st' = Some ([] @ [?job]) \<and> calls = map (payout_call (sample_settler ?r) ?r) (rr_payouts ?r) \<and> r = Inr () \<and>
      list_all (\<lambda>x. \<not> is_pending (ca_request_id signed_ack) x) (db_payments d'')"
    by (rule signed_payouts_are_settled [OF signed_ack_valid fl sample_loop_simps(2,3) env(2) refl ne put env(1) ids
          ord _ h d' _ str _ _ _ refl w])
      (simp_all add: sample_settler_def sample_worker_def sample_env_def db_empty_def db_wf_def del: receipt_of_ack_simps)
  then show ?thesis using h d' w by (simp add: Let_def del: receipt_of_ack_simps)
qed

section \<open>From the winning bid to the payout\<close>

lemma bidder_address_unrivalled:
  assumes "w \<in> set bids" "bid_payout_address w \<noteq> []"
    and "\<forall>b\<in>set bids. peer_str (bid_node_peer_id b) = peer_str (bid_node_peer_id w) \<longrightarrow> bid_payout_address b = bid_payout_address w"
  shows "bidder_addresses bids (peer_str (bid_node_peer_id w)) = Some (bid_payout_address w)"
proof -
  let ?kvs = "map (\<lambda>b. (peer_str (bid_node_peer_id b), bid_payout_address b)) (filter (\<lambda>b. bid_payout_address b \<noteq> []) bids)"
  have "(peer_str (bid_node_peer_id w), bid_payout_address w) \<in> set (rev ?kvs)"
    using assms(1,2) by auto
  from weak_map_of_SomeI [OF this] obtain v
    where v: "map_of (rev ?kvs) (peer_str (bid_node_peer_id w)) = Some v" ..
  moreover have "v = bid_payout_address w" using map_of_SomeD [OF v] assms(3) by auto
  ultimately show ?thesis by (simp add: bidder_addresses_def)
qed

lemma named_proofs_payouts:
  assumes "ack_valid C ack" and "el_in_flight st (ca_request_id ack) = Some m"
    and "list_all (\<lambda>p. poi_node_peer_id p = n) (ca_proofs ack)" and "ifm_payout_addresses m (peer_str n) = Some addr"
    and "fst (archive_put (lc_receipt C) (ae_archive e) (receipt_of_ack C (ae_now_ms e) sender ack (Some m)) (el_archive st)) = Inr ()"
    and "handle_completion_ack C e sender ack st = (resp, st')"
  shows "cr_accepted resp \<and> map_option rr_payouts (cr_routing_receipt resp) =
      Some (map (\<lambda>p. \<lparr>po_sui_address = addr, po_amount_nanox = nanox_amount (poi_price_paid_nanox p)\<rparr>) (ca_proofs ack))"
proof -
  have "resp = completion_ok (receipt_of_ack C (ae_now_ms e) sender ack (Some m))"
    using handle_completion_ack_valid [OF assms(1) _ refl, of "Some m" st e sender] assms(2,5,6)
    by (auto split: prod.splits sum.splits)
  moreover have "payouts_of_lines (compute_payouts ack (meta_addresses (Some m))) =
      map (\<lambda>p. \<lparr>po_sui_address = addr, po_amount_nanox = nanox_amount (poi_price_paid_nanox p)\<rparr>) (ca_proofs ack)"
    unfolding compute_payouts_def using assms(3)
    by (induction "ca_proofs ack" rule: list.induct)
      (use assms(4) in \<open>auto simp: List.map_filter_def payouts_of_lines_def payout_of_proof_def meta_addresses_def list_all_iff\<close>)
  ultimately show ?thesis by (simp add: completion_ok_def)
qed

text \<open>
  The course of a request through the event loop: published, its auction held, the payout addresses
  recorded, further inputs handled, and its ack.
\<close>

lemma recorded_address_is_paid:
  assumes "mesh_publish_request C e0 True request (Some st0) = (Inr (), Some st1)"
    and "run_inputs C is1 st1 = Some st2"
    and "mesh_set_payout_addresses C e1 True (ireq_request_id request) addrs (Some st2) = Some st3"
    and "run_inputs C is2 st3 = Some st4" and "list_all (\<lambda>i. \<not> touches (ireq_request_id request) i) (is1 @ is2)"
    and "addrs (peer_str n) = Some addr" and "ack_valid C ack" and "ca_request_id ack = ireq_request_id request"
    and "list_all (\<lambda>p. poi_node_peer_id p = n) (ca_proofs ack)"
    and "\<forall>r. fst (archive_put (lc_receipt C) (ae_archive e) r (el_archive st4)) = Inr ()"
    and "handle_completion_ack C e sender ack st4 = (resp, st5)"
  shows "cr_accepted resp \<and> map_option rr_payouts (cr_routing_receipt resp) =
      Some (map (\<lambda>p. \<lparr>po_sui_address = addr, po_amount_nanox = nanox_amount (poi_price_paid_nanox p)\<rparr>) (ca_proofs ack))"
proof -
  let ?rid = "ireq_request_id request"
  obtain m where "el_in_flight st1 ?rid = Some m" using assms(1) by (rule mesh_publish_ok) auto
  then have "el_in_flight st2 ?rid = Some m" using run_inputs_keep_in_flight [OF assms(2)] assms(5) by simp
  then have "el_in_flight st3 ?rid = Some (m\<lparr>ifm_payout_addresses := addrs\<rparr>)"
    using assms(3) mesh_set_payout_addresses_in_flight by fastforce
  then have fl: "el_in_flight st4 (ca_request_id ack) = Some (m\<lparr>ifm_payout_addresses := addrs\<rparr>)"
    using run_inputs_keep_in_flight [OF assms(4)] assms(5,8) by simp
  show ?thesis by (rule named_proofs_payouts [OF assms(7) fl assms(9) _ _ assms(11)]) (use assms(6,10) in simp_all)
qed

lemma chat_calls:
  assumes "chat_completions P ce req = Some (calls, Inr res)" "CallPublish request \<in> set calls"
    and "CallSetPayoutAddresses rid addrs \<in> set calls" "ch_publish ce = Inr receives" "collect_bids receives = Some bids"
  shows "rid = ireq_request_id request" "addrs = bidder_addresses bids"
proof -
  have "rid = ireq_request_id request \<and> addrs = bidder_addresses bids"
    using assms(1)
  proof (rule chat_completions_ok)
    fix messages msg sid intent receives' bids' w more
    assume c: "ch_publish ce = Inr receives'" "collect_bids receives' = Some bids'"
      "dispatch_to_winner P ce req sid msg w = (more, Inr res)"
      "calls = CallPublish \<lparr>ireq_request_id = ch_request_id ce, ireq_session_id = sid, ireq_model = cq_model req,
          ireq_privacy = parse_privacy (cq_privacy req), ireq_session_intent = intent\<rparr> #
        CallSetPayoutAddresses (ch_request_id ce) (bidder_addresses bids') # more"
    have "CallSetPayoutAddresses rid addrs \<notin> set more" "CallPublish request \<notin> set more"
      using c(3) by (rule dispatch_to_winner_ok; auto)+
    with c assms(2-5) show ?thesis by auto
  qed
  then show "rid = ireq_request_id request" "addrs = bidder_addresses bids" by simp_all
qed

text \<open>
  C3: The winner of the auction is paid at the address of its bid. Take a successful chat request and
  the course of its calls through the event loop: the request is published, the payout addresses are
  recorded, and the job is dispatched, each command taken by the loop, with any other events,
  commands, evictions and receives in between and afterwards, except that none of them is an ack for this request,
  publishes its id again or sets its addresses. Then a valid ack for the request whose
  proofs are all in the name of the winning bidder, when the archive stores its receipt, is accepted
  with a receipt that pays the address of the winning bid the price of each proof, in order. The winning bid
  must declare an address, and no bid of the auction may claim its peer id for another one.
\<close>

theorem auction_winner_is_paid:
  assumes "chat_completions P ce req = Some (calls, Inr res)"
    and "ch_publish ce = Inr receives" and "collect_bids receives = Some bids"
    and "pick_winner_with_warmth bids (fetch_warmth_map (ch_warmth ce) (ch_pool ce) (cc_session_id res)) = Some winner"
    and "bid_payout_address winner \<noteq> []"
    and "\<forall>b\<in>set bids. peer_str (bid_node_peer_id b) = peer_str (bid_node_peer_id winner) \<longrightarrow>
           bid_payout_address b = bid_payout_address winner"
    and "CallPublish request \<in> set calls" and "CallSetPayoutAddresses rid addrs \<in> set calls"
    and "CallDispatchInference peer dispatch \<in> set calls"
    and "mesh_publish_request C e0 True request (Some st0) = (Inr (), Some st1)"
    and "run_inputs C is1 st1 = Some st2"
    and "mesh_set_payout_addresses C e1 True rid addrs (Some st2) = Some st3"
    and "run_inputs C (is2 @ OnCommand e2 (DispatchInference peer dispatch tx) # is3) st3 = Some st4"
    and "list_all (\<lambda>i. \<not> touches rid i) (is1 @ is2 @ is3)"
    and "ack_valid C ack" and "ca_request_id ack = rid"
    and "list_all (\<lambda>p. poi_node_peer_id p = bid_node_peer_id winner) (ca_proofs ack)"
    and "\<forall>r. fst (archive_put (lc_receipt C) (ae_archive e) r (el_archive st4)) = Inr ()"
    and "handle_completion_ack C e sender ack st4 = (resp, st5)"
  shows "cr_accepted resp \<and> map_option rr_payouts (cr_routing_receipt resp) =
      Some (map (\<lambda>p. \<lparr>po_sui_address = bid_payout_address winner, po_amount_nanox = nanox_amount (poi_price_paid_nanox p)\<rparr>)
        (ca_proofs ack))"
proof -
  note c = chat_calls [OF assms(1,7,8,2,3)]
  have "winner \<in> set bids" using assms(4) unfolding pick_winner_with_warmth_def by (rule max_by_in)
  then have "addrs (peer_str (bid_node_peer_id winner)) = Some (bid_payout_address winner)"
    unfolding c(2) by (rule bidder_address_unrivalled [OF _ assms(5,6)])
  moreover have "list_all (\<lambda>i. \<not> touches (ireq_request_id request) i)
      (is1 @ is2 @ OnCommand e2 (DispatchInference peer dispatch tx) # is3)"
    using assms(14) c(1) by (simp add: touches_def)
  ultimately show ?thesis
    using recorded_address_is_paid [OF assms(10,11) _ assms(13) _ _ assms(15) _ assms(17-19)] assms(12,16) c(1) by simp
qed

definition winner_proof :: proof_of_inference where
  "winner_proof = proof_sign sample_proof_json sample_ed [1] (sample_proof\<lparr>poi_node_peer_id := NodePeerId ''A''\<rparr>)"

definition winner_ack :: completion_ack where
  "winner_ack = ack_sign sample_sha256 sample_proof_json sample_ack_json sample_ed [2]
     (sample_ack\<lparr>ca_request_id := Uuid [1], ca_proofs := [winner_proof]\<rparr>)"

lemma winner_ack_valid: "ack_valid sample_codec winner_ack"
proof -
  have "ack_verify_primary sample_sha256 sample_proof_json sample_ack_json sample_ed winner_ack = Inr ()"
    unfolding winner_ack_def by (rule ack.sign_verify) simp
  moreover have "proof_verify sample_proof_json sample_ed winner_proof = Inr ()"
    unfolding winner_proof_def by (rule poi.sign_verify) simp
  then have "ack_verify_all_proofs sample_proof_json sample_ed winner_ack = Inr ()"
    by (simp add: ack_verify_all_proofs_def winner_ack_def)
  ultimately show ?thesis by (simp add: ack_valid_def sample_codec_def)
qed

text \<open>A market in which the messages \<open>[0]\<close> and \<open>[1]\<close> are a bid of node A and a bid another peer made in its name.\<close>

definition honest_bid :: inference_bid where
  "honest_bid = (sample_bid ''A'' 50 300 (Fin (1 / 2)))\<lparr>bid_request_id := Uuid [1]\<rparr>"

definition forged_bid :: inference_bid where
  "forged_bid = honest_bid\<lparr>bid_payout_address := ''thief''\<rparr>"

definition market_codec :: loop_codec where
  "market_codec = sample_codec\<lparr>lc_bid_from_slice := (\<lambda>d. if d = [0] then Some honest_bid else if d = [1] then Some forged_bid else None)\<rparr>"

definition market_cmd :: command_env where
  "market_cmd = \<lparr>ce_publish_err = None, ce_dial_err = None, ce_out_id = 0\<rparr>"

definition bid_arrives :: "bytes \<Rightarrow> loop_input" where
  "bid_arrives d = OnEvent sample_ack_env (GossipsubMessage (PeerId [66]) \<lparr>gm_topic = BIDS, gm_data = d, gm_source = None\<rparr>)"

definition market_env :: "inference_bid list \<Rightarrow> chat_env" where
  "market_env bids = sample_chat_env\<lparr>ch_publish := Inr (map RecvBid bids @ [DeadlineReached])\<rparr>"

definition market_idle :: event_loop where
  "market_idle = sample_loop\<lparr>el_in_flight := Map.empty\<rparr>"

definition market_open :: "inference_request \<Rightarrow> event_loop" where
  "market_open r = snd (publish_request market_codec market_cmd r market_idle)"

lemmas market_defs = market_open_def market_idle_def market_cmd_def market_codec_def sample_loop_def with_pg_and_settlement_def

lemma market_ack_valid: "ack_valid market_codec winner_ack"
  using winner_ack_valid by (simp add: ack_valid_def market_codec_def)

lemma market_chat:
  assumes "bids \<noteq> []"
  obtains r peer dispatch where "ireq_request_id r = Uuid [1]"
    "chat_completions sample_api (market_env bids) sample_chat_request =
       Some ([CallPublish r, CallSetPayoutAddresses (Uuid [1]) (bidder_addresses bids), CallDispatchInference peer dispatch],
         Inr sample_chat_result)"
proof -
  obtain w where "pick_winner_with_warmth bids Map.empty = Some w"
    unfolding pick_winner_with_warmth_def using assms by (cases bids) auto
  then show thesis
    using that [of "\<lparr>ireq_request_id = Uuid [1], ireq_session_id = Uuid [2], ireq_model = ''qwen-72b'',
        ireq_privacy = parse_privacy None, ireq_session_intent = New\<rparr>"]
    by (simp add: chat_completions_def market_env_def sample_chat_request_def sample_chat_env_def sample_chat_result_def
        decrypt_messages_if_encrypted_def last_user_message_def sample_messages_def collect_bids_def collect_bids_loop_spec
        fetch_warmth_map_def dispatch_to_winner_def decode_hex_pubkey_def sample_api_def Let_def)
qed

lemma market_published:
  assumes "ireq_request_id r = Uuid [1]"
  shows "mesh_publish_request market_codec market_cmd True r (Some market_idle) = (Inr (), Some (market_open r))"
    "run_inputs market_codec [bid_arrives [0], OnRecv (Uuid [1])] (market_open r) = Some (market_open r)"
    "run_inputs market_codec [bid_arrives [0], bid_arrives [1], OnRecv (Uuid [1]), OnRecv (Uuid [1])] (market_open r) = Some (market_open r)"
    "received market_codec (Uuid [1]) [bid_arrives [0], bid_arrives [1], OnRecv (Uuid [1]), OnRecv (Uuid [1])] (market_open r) =
       [honest_bid, forged_bid]"
    "el_bid_subscribers (market_open r) (Uuid [1]) = Some \<lparr>bc_queue = [], bc_open = True\<rparr>"
    "el_in_flight (market_open r) (Uuid [1]) \<noteq> None" "el_archive (market_open r) = PgArchive []"
  using assms
  by (simp_all add: market_defs sample_codec_def mesh_publish_request_def forward_def handle_command_def publish_request_def
      bid_arrives_def handle_swarm_event_def handle_gossip_message_def channel_send_def BID_CHANNEL_CAPACITY_def
      honest_bid_def forged_bid_def)

lemma market_settles:
  assumes "ireq_request_id r = Uuid [1]"
  obtains st3 st4 where "mesh_set_payout_addresses market_codec market_cmd True (Uuid [1]) addrs (Some (market_open r)) = Some st3"
    "run_inputs market_codec ([OnDropReceiver (Uuid [1])] @ OnCommand market_cmd (DispatchInference peer dispatch 0) # [OnEvict 5]) st3 = Some st4"
    "el_archive st4 = PgArchive []"
proof -
  obtain m where m: "el_in_flight (market_open r) (Uuid [1]) = Some m" using market_published(6) [OF assms] by auto
  let ?st3 = "(market_open r)\<lparr>el_in_flight := (el_in_flight (market_open r))(Uuid [1] \<mapsto> m\<lparr>ifm_payout_addresses := addrs\<rparr>)\<rparr>"
  obtain st4 where "run_inputs market_codec ([OnDropReceiver (Uuid [1])] @ OnCommand market_cmd (DispatchInference peer dispatch 0) # [OnEvict 5]) ?st3 = Some st4"
    "el_archive st4 = PgArchive []"
    by (simp add: market_published(5,7) [OF assms] handle_command_def)
  then show thesis by (rule that [OF mesh_set_payout_addresses_in_flight [OF m]])
qed

lemma market_untouched [simp]:
  "\<not> touches rid (bid_arrives d)" "\<not> touches rid (OnRecv r)" "\<not> touches rid (OnDropReceiver r)" "\<not> touches rid (OnEvict now)"
  "\<not> touches rid (OnCommand ce (DispatchInference peer dispatch tx))"
  "\<not> ends_auction rid (bid_arrives d)" "\<not> ends_auction rid (OnRecv r)"
  by (simp_all add: touches_def ends_auction_def bid_arrives_def completes_def)

lemma winner_ack_simps [simp]: "ca_request_id winner_ack = Uuid [1]" "ca_proofs winner_ack = [winner_proof]"
  "poi_node_peer_id winner_proof = NodePeerId ''A''" "nanox_amount (poi_price_paid_nanox winner_proof) = 1000"
  by (simp_all add: winner_ack_def winner_proof_def proof_sign_def Let_def sample_proof_def)

lemma auction_winner_is_paid_witness:
  "\<exists>r st3 st4. mesh_set_payout_addresses market_codec market_cmd True (Uuid [1]) (bidder_addresses [honest_bid]) (Some (market_open r)) = Some st3 \<and>
     (\<exists>is. run_inputs market_codec is st3 = Some st4) \<and>
     map_option rr_payouts (cr_routing_receipt (fst (handle_completion_ack market_codec sample_ack_env (PeerId [1]) winner_ack st4))) =
       Some [\<lparr>po_sui_address = ''A'', po_amount_nanox = 1000\<rparr>]"
proof -
  obtain r peer dispatch where r: "ireq_request_id r = Uuid [1]" and c: "chat_completions sample_api (market_env [honest_bid]) sample_chat_request =
      Some ([CallPublish r, CallSetPayoutAddresses (Uuid [1]) (bidder_addresses [honest_bid]), CallDispatchInference peer dispatch], Inr sample_chat_result)"
    by (rule market_chat [of "[honest_bid]"]) simp
  obtain st3 st4 where st: "mesh_set_payout_addresses market_codec market_cmd True (Uuid [1]) (bidder_addresses [honest_bid]) (Some (market_open r)) = Some st3"
    "run_inputs market_codec ([OnDropReceiver (Uuid [1])] @ OnCommand market_cmd (DispatchInference peer dispatch 0) # [OnEvict 5]) st3 = Some st4"
    "el_archive st4 = PgArchive []"
    using r by (rule market_settles)
  obtain resp st5 where h: "handle_completion_ack market_codec sample_ack_env (PeerId [1]) winner_ack st4 = (resp, st5)" by fastforce
  have "cr_accepted resp \<and> map_option rr_payouts (cr_routing_receipt resp) =
      Some (map (\<lambda>p. \<lparr>po_sui_address = bid_payout_address honest_bid, po_amount_nanox = nanox_amount (poi_price_paid_nanox p)\<rparr>) (ca_proofs winner_ack))"
    by (rule auction_winner_is_paid [OF c _ _ _ _ _ _ _ _ market_published(1,2) [OF r] st(1,2) _ market_ack_valid _ _ _ h,
          where bids = "[honest_bid]" and receives = "map RecvBid [honest_bid] @ [DeadlineReached]"])
      (simp_all add: market_env_def collect_bids_def pick_winner_with_warmth_def honest_bid_def sample_bid_def st(3)
        market_codec_def sample_storage)
  moreover have "bid_payout_address honest_bid = ''A''" by (simp add: honest_bid_def sample_bid_def)
  ultimately show ?thesis using st(1,2) h by (intro exI [of _ r] exI [of _ st3] exI [of _ st4]) (auto simp del: run_inputs.simps)
qed

section \<open>Who decides where the money goes\<close>




section \<open>The admin secret at boot\<close>

text \<open>
  C40: A failure of the entropy source opens the admin endpoints. When no \<^verbatim>\<open>SIDECAR_SECRET\<close> was pushed
  and the security module yields no bytes, init sets the secret to the empty string, and a request
  without any secret header passes the check: it can replace the enclave object id.
\<close>

theorem entropy_failure_opens_admin:
  assumes "vars = init_env pushed None vars0"
    and "(case pushed of None \<Rightarrow> vars0 | Some ls \<Rightarrow> inject (read_config ls) vars0) ''SIDECAR_SECRET'' = None"
    and "str_trim (si_enclave_object_id req) \<noteq> []"
  shows "check_secret vars None = Inr [] \<and>
    map_option re_enclave_object_id (as_on_chain (snd (snd (set_enclave_id vars None answer req st)))) =
      Some (str_trim (si_enclave_object_id req))"
proof -
  have "vars ''SIDECAR_SECRET'' = Some []"
    using assms(2) by (simp add: assms(1) init_env_def Let_def set_default_def hex_lower_def)
  then have "check_secret vars None = Inr []"
    by (simp add: check_secret_def Let_def constant_time_eq_def str_bytes_def)
  then show ?thesis
    using assms(3) by (simp add: set_enclave_id_def Let_def split: option.split)
qed

lemma sample_set_id_trim: "str_trim (si_enclave_object_id sample_set_id) = ''0xe''"
  unfolding sample_set_id_def by code_simp

lemma entropy_failure_opens_admin_witness:
  "map_option re_enclave_object_id
     (as_on_chain (snd (snd (set_enclave_id (init_env None None Map.empty) None None sample_set_id sample_app)))) = Some ''0xe''"
  using entropy_failure_opens_admin [of "init_env None None Map.empty" None Map.empty sample_set_id None sample_app, OF refl]
  by (simp add: sample_set_id_trim)

lemma length_hex_lower: "length (hex_lower bs) = 2 * length bs"
  by (induction bs) (simp_all add: hex_lower_def)

lemma hex_digit_graphic: "n < 16 \<Longrightarrow> graphic (hex_digit n)"
  by (auto simp: graphic_def hex_digit_def)

lemma hex_lower_graphic: "list_all graphic (hex_lower bs)"
proof -
  have "unat b div 16 < 16" for b :: byte
    using unsigned_less [of b, where ?'a = nat] by (simp add: less_mult_imp_div_less)
  then show ?thesis by (auto simp: hex_lower_def list_all_iff intro!: hex_digit_graphic)
qed

lemma str_trim_hex_lower: "str_trim (hex_lower bs) = hex_lower bs"
  using hex_lower_graphic [of bs] by (intro str_trim_fixed) (cases "hex_lower bs"; auto simp: list_all_iff)

text \<open>
  C23: The generated admin secret guards the admin endpoints. When no secret was pushed and the security
  module answers the request for 32 bytes, the secret in the environment is the hex form of its answer,
  at least 64 characters, and a caller passes the check exactly when the trimmed header is that
  secret; a caller without the header gets 401.
\<close>

theorem generated_secret_guards_admin:
  assumes "fills_buffer random" and "get_entropy_nsm fd random 32 = Some (Inr bs)"
    and "vars = init_env pushed (Some bs) vars0"
    and "(case pushed of None \<Rightarrow> vars0 | Some ls \<Rightarrow> inject (read_config ls) vars0) ''SIDECAR_SECRET'' = None"
  shows "64 \<le> length (hex_lower bs) \<and>
    (check_secret vars header = Inr s \<longleftrightarrow>
       s = hex_lower bs \<and> str_trim (case header of None \<Rightarrow> [] | Some v \<Rightarrow> v) = hex_lower bs) \<and>
    check_secret vars None = Inl (401, ErrorBody ''bad or missing X-Sidecar-Secret'')"
proof -
  have loop: "nsm_loop random 32 0 [] = Some (Inr bs)"
    using assms(2) by (auto simp: get_entropy_nsm_def split: if_splits)
  have len: "32 \<le> length bs" using nsm_loop_total [OF assms(1), of "[]" 32 0] loop by auto
  have secret: "vars ''SIDECAR_SECRET'' = Some (hex_lower bs)"
    using assms(4) by (simp add: assms(3) init_env_def Let_def set_default_def)
  have "hex_lower bs \<noteq> []" using len length_hex_lower [of bs] by auto
  then have "check_secret vars None = Inl (401, ErrorBody ''bad or missing X-Sidecar-Secret'')"
    using secret by (auto simp: check_secret_def Let_def str_trim_hex_lower constant_time_eq_iff str_bytes_inj str_trim_fixed)
  moreover have "check_secret vars header = Inr s \<longleftrightarrow>
      s = hex_lower bs \<and> str_trim (case header of None \<Rightarrow> [] | Some v \<Rightarrow> v) = hex_lower bs"
    using check_secret_iff [of vars header s] secret by (auto simp: str_trim_hex_lower)
  ultimately show ?thesis using len by (simp add: length_hex_lower)
qed

lemma generated_secret_guards_admin_witness:
  "check_secret (init_env None (Some (replicate 256 7)) Map.empty) None =
     Inl (401, ErrorBody ''bad or missing X-Sidecar-Secret'')"
proof -
  have f: "fills_buffer (\<lambda>i. Some (replicate 256 7))" by (simp add: fills_buffer_def)
  have "get_entropy_nsm 3 (\<lambda>i. Some (replicate 256 7)) 32 = Some (Inr (replicate 256 7))"
    unfolding get_entropy_nsm_def by (subst nsm_loop.simps, subst nsm_loop.simps) simp
  from generated_secret_guards_admin [OF f this, of "init_env None (Some (replicate 256 7)) Map.empty" None Map.empty None]
  show ?thesis by simp
qed

section \<open>The payment system of a started coordinator\<close>

text \<open>
  A coordinator that started with a settlement worker is in the initial state of the payment system, on the
  database it connected to.
\<close>

lemma started_payment_system:
  assumes "run M = Inr co" "co_settlement_worker co = Some client"
  obtains pool where "pg_connect (mn_pg M) (mn_migrate M) = Inr pool"
    "\<lparr>sy_loop = ms_loop (co_mesh co), sy_storage = storage, sy_running = [], sy_published = pub, sy_booked = Map.empty,
       sy_calls = []\<rparr> =
     boot_system (registry_new PEER_TTL) (PgArchive (db_routing_receipts pool)) pool storage pub"
proof -
  obtain pool where pool: "ms_loop (co_mesh co) = with_pg_and_settlement (registry_new PEER_TTL) (PgArchive (db_routing_receipts pool))
      (Some pool) (map_option (\<lambda>_. []) (co_settlement_worker co))" "pg_connect (mn_pg M) (mn_migrate M) = Inr pool"
    using assms(1) by (rule run_ok)
  show ?thesis by (rule that [OF pool(2)]) (simp add: pool(1) assms(2) boot_system_def)
qed

end
